theory Spec2Isabelle
  imports Main
begin

section \<open>Strings\<close>

text \<open>
  A Python \<open>str\<close> is modelled as a HOL \<open>string\<close>; a \<open>char\<close> is read as a code point
  below 256.  The functions of this section are the \<open>str\<close> methods that the generator
  calls on the text returned by the language model.  Upper-casing leads out of these
  code points (\<open>U+00B5\<close> and \<open>U+00FF\<close> have their capitals above 255), so the text that
  the generator renders is a list of code points, each a natural number.
\<close>

definition isspace :: "char \<Rightarrow> bool" where
  \<comment> \<open>the code points below 256 that \<open>str.isspace\<close> accepts\<close>
  "isspace c =
     (let n = (of_char c :: nat)
      in (9 \<le> n \<and> n \<le> 13) \<or> (28 \<le> n \<and> n \<le> 32) \<or> n = 133 \<or> n = 160)"

definition strip :: "string \<Rightarrow> string" where
  \<comment> \<open>\<open>s.strip()\<close>: leading and trailing whitespace removed\<close>
  "strip s = rev (dropWhile isspace (rev (dropWhile isspace s)))"

definition startswith :: "string \<Rightarrow> string \<Rightarrow> bool" where
  "startswith s p = (take (length p) s = p)"

definition endswith :: "string \<Rightarrow> string \<Rightarrow> bool" where
  "endswith s p = (length p \<le> length s \<and> drop (length s - length p) s = p)"

definition clean_content :: "string \<Rightarrow> string" where
  \<comment> \<open>lines 86-91 and 435-440 of the source: the text that is handed to \<open>json.loads\<close>\<close>
  "clean_content content0 =
     (let content1 = strip content0;
          content2 = (if startswith content1 ''```json'' then drop 7 content1 else content1);
          content3 = (if endswith content2 ''```'' then take (length content2 - 3) content2
                      else content2)
      in strip content3)"

definition code_points :: "string \<Rightarrow> nat list" where
  "code_points s = map of_char s"

definition upper_code_point :: "nat \<Rightarrow> nat list" where
  \<comment> \<open>what \<open>str.upper\<close> makes of one code point below 256: the small letters \<open>a\<close> to \<open>z\<close>
      and \<open>U+00E0\<close> to \<open>U+00FE\<close> (the division sign \<open>U+00F7\<close> apart) move down by 32, the
      micro sign becomes \<open>U+039C\<close>, the sharp s becomes \<open>SS\<close>, \<open>U+00FF\<close> becomes \<open>U+0178\<close>\<close>
  "upper_code_point n =
     (if (97 \<le> n \<and> n \<le> 122) \<or> (224 \<le> n \<and> n \<le> 254 \<and> n \<noteq> 247) then [n - 32]
      else if n = 181 then [924]
      else if n = 223 then [83, 83]
      else if n = 255 then [376]
      else [n])"

definition upper :: "string \<Rightarrow> nat list" where
  \<comment> \<open>\<open>s.upper()\<close>\<close>
  "upper s = concat (map (\<lambda>c. upper_code_point (of_char c)) s)"

definition toLowerCase :: "string \<Rightarrow> string" where
  \<comment> \<open>JavaScript's \<open>s.toLowerCase()\<close>: the capital letters \<open>A\<close> to \<open>Z\<close> and \<open>U+00C0\<close> to
      \<open>U+00DE\<close> (the multiplication sign \<open>U+00D7\<close> apart) move up by 32\<close>
  "toLowerCase s =
     map (\<lambda>c. let n = (of_char c :: nat)
              in if (65 \<le> n \<and> n \<le> 90) \<or> (192 \<le> n \<and> n \<le> 222 \<and> n \<noteq> 215)
                 then char_of (n + 32) else c) s"

fun join :: "'a list \<Rightarrow> 'a list list \<Rightarrow> 'a list" where
  \<comment> \<open>\<open>sep.join(xs)\<close>\<close>
  "join sep [] = []"
| "join sep [x] = x"
| "join sep (x # y # ys) = x @ sep @ join sep (y # ys)"

fun is_substring :: "string \<Rightarrow> string \<Rightarrow> bool" where
  \<comment> \<open>\<open>p in s\<close> for two strings\<close>
  "is_substring p [] = (p = [])"
| "is_substring p (c # s) = (startswith (c # s) p \<or> is_substring p s)"

definition digit_char :: "nat \<Rightarrow> char" where
  "digit_char k = ''0123456789'' ! k"

function decimal :: "nat \<Rightarrow> string" where
  \<comment> \<open>a natural number as Python's \<open>str\<close> and JavaScript's string concatenation write it\<close>
  "decimal n =
     (if 10 \<le> n then decimal (n div 10) @ [digit_char (n mod 10)] else [digit_char n])"
  by pat_completeness auto
termination
  by (relation "measure id") auto

declare decimal.simps [simp del]

definition str_int :: "int \<Rightarrow> string" where
  \<comment> \<open>\<open>str(k)\<close> for an \<open>int\<close>, as the f-string of line 113 formats the status code\<close>
  "str_int k = (if 0 \<le> k then decimal (nat k) else CHR ''-'' # decimal (nat (- k)))"

section \<open>Exceptions and JSON values\<close>

text \<open>
  An exception is its class and the text that \<open>str(e)\<close> gives.  All classes below derive
  from \<open>Exception\<close>, so \<open>except Exception\<close> catches every modelled exception.  The texts
  of the interpreter's own errors follow CPython's wording; no theorem depends on them.
\<close>

datatype exn_class =
    Exception | ValueError | JSONDecodeError | KeyError | IndexError | TypeError
  | AttributeError | TimeoutException | WebDriverException | JavascriptException
  | RequestException

datatype exn = Exn (exn_class: exn_class) (str_exn: string)

definition and_then :: "exn + 'a \<Rightarrow> ('a \<Rightarrow> exn + 'b) \<Rightarrow> exn + 'b" where
  \<comment> \<open>sequencing: an exception raised by the first computation skips the second\<close>
  "and_then r f = (case r of Inl e \<Rightarrow> Inl e | Inr x \<Rightarrow> f x)"

text \<open>
  What \<open>json.loads\<close> and \<open>response.json()\<close> return.  A float is kept as its literal:
  the program never computes with a number.  An object is the association list of its
  members in order, as a Python \<open>dict\<close> keeps them.
\<close>

datatype json =
    JNull | JBool bool | JInt int | JFloat string | JStr string
  | JArr "json list" | JObj "(string \<times> json) list"

fun py_type_name :: "json \<Rightarrow> string" where
  "py_type_name JNull = ''NoneType''"
| "py_type_name (JBool _) = ''bool''"
| "py_type_name (JInt _) = ''int''"
| "py_type_name (JFloat _) = ''float''"
| "py_type_name (JStr _) = ''str''"
| "py_type_name (JArr _) = ''list''"
| "py_type_name (JObj _) = ''dict''"

definition quoted :: "string \<Rightarrow> string" where
  \<comment> \<open>\<open>repr\<close> of a string without quotes or escapes, as all key literals of the source are\<close>
  "quoted s = [CHR 0x27] @ s @ [CHR 0x27]"

fun py_getitem :: "json \<Rightarrow> string \<Rightarrow> exn + json" where
  \<comment> \<open>\<open>obj[key]\<close> for a string key\<close>
  "py_getitem (JObj kvs) key =
     (case map_of kvs key of Some v \<Rightarrow> Inr v | None \<Rightarrow> Inl (Exn KeyError (quoted key)))"
| "py_getitem (JArr xs) key =
     Inl (Exn TypeError ''list indices must be integers or slices, not str'')"
| "py_getitem (JStr s) key =
     Inl (Exn TypeError (''string indices must be integers, not '' @ quoted ''str''))"
| "py_getitem v key =
     Inl (Exn TypeError (quoted (py_type_name v) @ '' object is not subscriptable''))"

fun py_getitem0 :: "json \<Rightarrow> exn + json" where
  \<comment> \<open>\<open>obj[0]\<close>\<close>
  "py_getitem0 (JArr []) = Inl (Exn IndexError ''list index out of range'')"
| "py_getitem0 (JArr (x # xs)) = Inr x"
| "py_getitem0 (JStr []) = Inl (Exn IndexError ''string index out of range'')"
| "py_getitem0 (JStr (c # s)) = Inr (JStr [c])"
| "py_getitem0 (JObj kvs) = Inl (Exn KeyError ''0'')"
| "py_getitem0 v =
     Inl (Exn TypeError (quoted (py_type_name v) @ '' object is not subscriptable''))"

fun py_contains :: "string \<Rightarrow> json \<Rightarrow> exn + bool" where
  \<comment> \<open>\<open>field in obj\<close> for a string \<open>field\<close>: a key of a dict, an element of a list, a
      substring of a string\<close>
  "py_contains field (JObj kvs) = Inr (field \<in> set (map fst kvs))"
| "py_contains field (JArr xs) = Inr (JStr field \<in> set xs)"
| "py_contains field (JStr s) = Inr (is_substring field s)"
| "py_contains field v =
     Inl (Exn TypeError (''argument of type '' @ quoted (py_type_name v) @ '' is not iterable''))"

fun py_iter :: "json \<Rightarrow> exn + json list" where
  \<comment> \<open>the items that \<open>for x in obj\<close> visits: the elements of a list, the keys of a dict,
      the characters of a string\<close>
  "py_iter (JArr xs) = Inr xs"
| "py_iter (JObj kvs) = Inr (map (\<lambda>kv. JStr (fst kv)) kvs)"
| "py_iter (JStr s) = Inr (map (\<lambda>c. JStr [c]) s)"
| "py_iter v = Inl (Exn TypeError (quoted (py_type_name v) @ '' object is not iterable''))"

section \<open>The test generator\<close>

text \<open>
  An element record is the \<open>dict\<close> built at lines 184-191: the attribute names in
  insertion order, each with a string or \<open>None\<close>.  The element inventory maps an element
  type to its records, in insertion order.
\<close>

type_synonym element_info = "(string \<times> string option) list"

type_synonym elements_data = "(string \<times> element_info list) list"

definition attributes :: "element_info \<Rightarrow> nat list list" where
  \<comment> \<open>line 124: \<open>[f"{k}: {v}" for k, v in elem.items() if v]\<close>; \<open>None\<close> and \<open>""\<close> are falsy\<close>
  "attributes elem = [code_points (k @ '': '' @ v). (k, Some v) \<leftarrow> elem, v \<noteq> []]"

fun format_elems :: "nat list list \<Rightarrow> element_info list \<Rightarrow> nat list list" where
  \<comment> \<open>the loop of lines 123-125 on the list \<open>formatted\<close>\<close>
  "format_elems formatted [] = formatted"
| "format_elems formatted (elem # elems) =
     format_elems
       (formatted @ [code_points ''  - '' @ join (code_points '', '') (attributes elem)]) elems"

fun format_types :: "nat list list \<Rightarrow> elements_data \<Rightarrow> nat list list" where
  \<comment> \<open>the loop of lines 121-125 on the list \<open>formatted\<close>\<close>
  "format_types formatted [] = formatted"
| "format_types formatted ((element_type, elements) # rest) =
     format_types
       (format_elems
          (formatted @
           [code_points [CHR 0x0A] @ upper element_type @ code_points '' Elements:''])
          elements)
       rest"

definition format_elements_data :: "elements_data \<Rightarrow> nat list" where
  \<comment> \<open>\<open>_format_elements_data\<close>, lines 118-126 and 469-477\<close>
  "format_elements_data elements_data =
     join (code_points [CHR 0x0A]) (format_types [] elements_data)"

text \<open>
  The HTTP exchange is the environment.  \<open>post\<close> stands for \<open>requests.post\<close>: it is given
  the two texts that vary in the request (the rendered inventory and the user's prompt)
  and either raises or returns a response.  A response is its status code and what
  \<open>response.json()\<close> gives.  \<open>loads\<close> stands for \<open>json.loads\<close>.
\<close>

record response =
  status_code :: int
  json_result :: "exn + json"

definition message_content :: "response \<Rightarrow> exn + json" where
  \<comment> \<open>line 83: \<open>response.json()['choices'][0]['message']['content']\<close>\<close>
  "message_content response =
     and_then (json_result response) (\<lambda>body.
     and_then (py_getitem body ''choices'') (\<lambda>choices.
     and_then (py_getitem0 choices) (\<lambda>choice.
     and_then (py_getitem choice ''message'') (\<lambda>message.
     py_getitem message ''content''))))"

definition required_fields :: "string list" where
  "required_fields = [''action'', ''by'', ''value'', ''step_type'']"

fun all_fields_in :: "json \<Rightarrow> string list \<Rightarrow> exn + bool" where
  \<comment> \<open>line 102: \<open>all(field in step for field in required_fields)\<close>, which stops at
      the first field that is not in the step\<close>
  "all_fields_in step [] = Inr True"
| "all_fields_in step (field # others) =
     and_then (py_contains field step) (\<lambda>found.
       if found then all_fields_in step others else Inr False)"

fun check_steps :: "json list \<Rightarrow> exn + unit" where
  \<comment> \<open>the loop of lines 100-103\<close>
  "check_steps [] = Inr ()"
| "check_steps (step # steps) =
     and_then (all_fields_in step required_fields) (\<lambda>complete.
       if \<not> complete
       then Inl (Exn ValueError
              ''Step missing required fields: ['action', 'by', 'value', 'step_type']'')
       else check_steps steps)"

fun is_dict :: "json \<Rightarrow> bool" where
  "is_dict (JObj kvs) = True"
| "is_dict v = False"

definition parse_test_case :: "(string \<Rightarrow> exn + json) \<Rightarrow> json \<Rightarrow> exn + json" where
  \<comment> \<open>the body of the inner \<open>try\<close>, lines 85-105; \<open>content.strip()\<close> exists for a string only\<close>
  "parse_test_case loads content =
     (case content of
        JStr text \<Rightarrow>
          and_then (loads (clean_content text)) (\<lambda>test_case.
            if \<not> is_dict test_case \<or> py_contains ''steps'' test_case \<noteq> Inr True
            then Inl (Exn ValueError ''Invalid test case structure'')
            else
              and_then (py_getitem test_case ''steps'') (\<lambda>steps.
              and_then (py_iter steps) (\<lambda>items.
              and_then (check_steps items) (\<lambda>_.
              Inr test_case))))
      | _ \<Rightarrow>
          Inl (Exn AttributeError
                 (quoted (py_type_name content) @ '' object has no attribute '' @
                  quoted ''strip'')))"

definition inner_handlers :: "exn + json \<Rightarrow> exn + json" where
  \<comment> \<open>the handlers of lines 107-111\<close>
  "inner_handlers r =
     (case r of
        Inr test_case \<Rightarrow> Inr test_case
      | Inl e \<Rightarrow>
          if exn_class e = JSONDecodeError
          then Inl (Exn Exception (''Failed to parse LLM response as JSON: '' @ str_exn e))
          else Inl (Exn Exception (''Invalid test case format: '' @ str_exn e)))"

definition outer_handler :: "exn + json \<Rightarrow> exn + json" where
  \<comment> \<open>the handler of lines 115-116\<close>
  "outer_handler r =
     (case r of
        Inr test_case \<Rightarrow> Inr test_case
      | Inl e \<Rightarrow> Inl (Exn Exception (''Error generating test case: '' @ str_exn e)))"

definition generate_test_case ::
  "(string \<Rightarrow> exn + json) \<Rightarrow> (nat list \<Rightarrow> string \<Rightarrow> exn + response) \<Rightarrow>
   elements_data \<Rightarrow> string \<Rightarrow> exn + json" where
  \<comment> \<open>\<open>LLMTestGenerator.generate_test_case\<close>, lines 16-116; the second variant (lines
      362-467) differs in the prompt text and in what it prints\<close>
  "generate_test_case loads post elements_data user_prompt =
     (let elements_description = format_elements_data elements_data
      in outer_handler
           (and_then (post elements_description user_prompt) (\<lambda>response.
              if status_code response = 200
              then and_then (message_content response) (\<lambda>content.
                     inner_handlers (parse_test_case loads content))
              else Inl (Exn Exception
                     (''API request failed with status code: '' @
                      str_int (status_code response))))))"

section \<open>XPath synthesis\<close>

text \<open>
  The script of lines 204-226 (and 565-587) runs in the browser on the page's DOM.  The
  DOM is a tree; a node is referred to by the path of child indices that leads to it
  from the root, so that \<open>===\<close> on nodes is equality of paths, \<open>parentNode\<close> drops the last
  index, and the root has no parent.  A character-data node carries its \<open>nodeType\<close>
  (3 for text, 8 for a comment, 10 for the doctype).  An element carries its tag name,
  its id attribute, what stands in the place of its property \<open>id\<close>, and its children.
  The property \<open>id\<close> of an element is its id attribute (\<open>None\<close> in the third place),
  except for a form with a control named \<open>id\<close>: there \<open>form.id\<close> is that control, and
  \<open>Some text\<close> is the text that a template literal writes for it.
\<close>

datatype node =
    Document "node list"
  | Element string string "string option" "node list"
  | CharData nat

fun childNodes :: "node \<Rightarrow> node list" where
  "childNodes (Document children) = children"
| "childNodes (Element tag ident control children) = children"
| "childNodes (CharData k) = []"

fun nodeType :: "node \<Rightarrow> nat" where
  "nodeType (Document children) = 9"
| "nodeType (Element tag ident control children) = 1"
| "nodeType (CharData k) = k"

fun tagName :: "node \<Rightarrow> string option" where
  \<comment> \<open>\<open>None\<close> is JavaScript's \<open>undefined\<close>\<close>
  "tagName (Element tag ident control children) = Some tag"
| "tagName other = None"

fun node_at :: "node \<Rightarrow> nat list \<Rightarrow> node option" where
  "node_at n [] = Some n"
| "node_at n (i # p) =
     (if i < length (childNodes n) then node_at (childNodes n ! i) p else None)"

fun js_string :: "string option \<Rightarrow> string" where
  \<comment> \<open>a value in a string concatenation or a template literal\<close>
  "js_string None = ''undefined''"
| "js_string (Some s) = s"

fun sibling_loop :: "node list \<Rightarrow> nat \<Rightarrow> string option \<Rightarrow> nat \<Rightarrow> nat \<Rightarrow> nat option" where
  \<comment> \<open>the loop of lines 215-223 from index \<open>i\<close> on, over the siblings not yet visited; the
      element is the sibling at index \<open>k\<close>.  \<open>Some ix\<close>: the loop returns with this \<open>ix\<close>;
      \<open>None\<close>: it ends without returning\<close>
  "sibling_loop [] k tag i ix = None"
| "sibling_loop (sibling # rest) k tag i ix =
     (if i = k then Some ix
      else sibling_loop rest k tag (Suc i)
             (if nodeType sibling = 1 \<and> tagName sibling = tag then Suc ix else ix))"

function getXPath :: "node \<Rightarrow> nat list option \<Rightarrow> nat list \<Rightarrow> exn + string option" where
  \<comment> \<open>\<open>getXPath(element)\<close> in the document \<open>root\<close> whose \<open>document.body\<close> is the node at
      \<open>body\<close>; the result \<open>None\<close> is \<open>undefined\<close>\<close>
  "getXPath root body p =
     (case node_at root p of
        None \<Rightarrow> Inl (Exn JavascriptException ''stale element reference'')
      | Some (Element tag ident (Some control) children) \<Rightarrow>
          Inr (Some (''//*[@id=\"'' @ control @ ''\"]''))
      | Some (Element tag ident None children) \<Rightarrow>
          if ident \<noteq> [] then Inr (Some (''//*[@id=\"'' @ ident @ ''\"]''))
          else if body = Some p then Inr (Some (toLowerCase tag))
          else if p = []
          then Inl (Exn JavascriptException ''Cannot read properties of null'')
          else
            (case node_at root (butlast p) of
               None \<Rightarrow> Inl (Exn JavascriptException ''stale element reference'')
             | Some parent \<Rightarrow>
                 (case sibling_loop (childNodes parent) (last p) (Some tag) 0 0 of
                    None \<Rightarrow> Inr None
                  | Some ix \<Rightarrow>
                      (case getXPath root body (butlast p) of
                         Inl e \<Rightarrow> Inl e
                       | Inr parent_path \<Rightarrow>
                           Inr (Some (js_string parent_path @ ''/'' @ toLowerCase tag @
                                      ''['' @ decimal (ix + 1) @ '']'')))))
      | Some other \<Rightarrow> Inr (Some (''//*[@id=\"'' @ js_string None @ ''\"]'')))"
  by pat_completeness auto
termination
  by (relation "measure (\<lambda>(root, body, p). length p)") auto

declare getXPath.simps [simp del]

definition preceding_same_tag :: "node list \<Rightarrow> nat \<Rightarrow> string \<Rightarrow> nat" where
  \<comment> \<open>the specification's count: the element nodes among the first \<open>k\<close> siblings that have
      the tag name \<open>tag\<close>\<close>
  "preceding_same_tag siblings k tag =
     length (filter (\<lambda>sibling. nodeType sibling = 1 \<and> tagName sibling = Some tag)
               (take k siblings))"

section \<open>The browser\<close>

text \<open>
  The browser driver is the environment.  The program's effects are kept in a log: the
  calls made to the driver, the lines printed and the sleeps, in order.  What a call
  does is a function of the log so far and of the call; this covers every deterministic
  browser and page.  \<open>'e\<close> is the type of element handles.
\<close>

datatype script = GetXPathScript | ScrollIntoViewScript | HighlightScript

datatype 'e call =
    Get string
  | WaitForBody
  | CurrentUrl
  | FindElements string
  | GetAttribute 'e string
  | GetText 'e
  | ExecuteScript script 'e
  | WaitForPresence json
  | Clear 'e
  | SendKeys 'e json
  | Click 'e
  | NewSelect 'e
  | SelectByVisibleText 'e json

datatype line =
    Navigating string
  | PageLoadTimeout
  | CurrentUrlIs "string option"
  | LookingFor string
  | Found string element_info
  | DetectionError string
  | Starting
  | Entered json json
  | Clicked json
  | Selected json json
  | Scrolled json
  | Completed
  | CompletedBrowserOpen
  | Failed string

datatype 'e event = Called "'e call" | Printed line | Slept nat

record 'e driver =
  performs :: "'e event list \<Rightarrow> 'e call \<Rightarrow> exn option"
  locates :: "'e event list \<Rightarrow> json \<Rightarrow> exn + 'e"
  finds :: "'e event list \<Rightarrow> string \<Rightarrow> exn + 'e list"
  reads :: "'e event list \<Rightarrow> 'e call \<Rightarrow> exn + string option"

type_synonym ('e, 'a) action = "'e event list \<Rightarrow> 'e event list \<times> (exn + 'a)"

definition then_do :: "('e, 'a) action \<Rightarrow> ('a \<Rightarrow> ('e, 'b) action) \<Rightarrow> ('e, 'b) action" where
  \<comment> \<open>one statement after another: an exception skips what follows, the log is kept\<close>
  "then_do m f log =
     (case m log of (log1, Inl e) \<Rightarrow> (log1, Inl e) | (log1, Inr x) \<Rightarrow> f x log1)"

definition do_expr :: "exn + 'a \<Rightarrow> ('e, 'a) action" where
  \<comment> \<open>an expression without effect\<close>
  "do_expr r log = (log, r)"

definition do_print :: "line \<Rightarrow> ('e, unit) action" where
  "do_print l log = (log @ [Printed l], Inr ())"

definition do_sleep :: "nat \<Rightarrow> ('e, unit) action" where
  "do_sleep seconds log = (log @ [Slept seconds], Inr ())"

definition do_call :: "'e driver \<Rightarrow> 'e call \<Rightarrow> ('e, unit) action" where
  \<comment> \<open>a driver call whose result is not used; \<open>None\<close>: it returns\<close>
  "do_call d c log =
     (log @ [Called c], case performs d log c of None \<Rightarrow> Inr () | Some e \<Rightarrow> Inl e)"

definition do_locate :: "'e driver \<Rightarrow> json \<Rightarrow> ('e, 'e) action" where
  \<comment> \<open>\<open>WebDriverWait(self.driver, 10).until(EC.presence_of_element_located((By.XPATH, v)))\<close>\<close>
  "do_locate d v log = (log @ [Called (WaitForPresence v)], locates d log v)"

definition do_find :: "'e driver \<Rightarrow> string \<Rightarrow> ('e, 'e list) action" where
  \<comment> \<open>\<open>self.driver.find_elements(By.XPATH, xpath)\<close>\<close>
  "do_find d xpath log = (log @ [Called (FindElements xpath)], finds d log xpath)"

definition do_read :: "'e driver \<Rightarrow> 'e call \<Rightarrow> ('e, string option) action" where
  \<comment> \<open>a driver call that returns a string or \<open>None\<close>\<close>
  "do_read d c log = (log @ [Called c], reads d log c)"

section \<open>The element detector\<close>

definition generate_xpath :: "'e driver \<Rightarrow> 'e \<Rightarrow> ('e, string option) action" where
  \<comment> \<open>\<open>_generate_xpath\<close>, lines 201-229: the bare \<open>except\<close> turns every exception into \<open>None\<close>\<close>
  "generate_xpath d element log =
     (case do_read d (ExecuteScript GetXPathScript element) log of
        (log1, Inl e) \<Rightarrow> (log1, Inr None)
      | (log1, Inr xpath) \<Rightarrow> (log1, Inr xpath))"

definition truthy :: "string option \<Rightarrow> bool" where
  "truthy v = (case v of None \<Rightarrow> False | Some s \<Rightarrow> s \<noteq> [])"

definition element_text :: "'e driver \<Rightarrow> 'e \<Rightarrow> ('e, string option) action" where
  \<comment> \<open>line 189: \<open>element.text if element.text else element.get_attribute('value')\<close>\<close>
  "element_text d element =
     then_do (do_read d (GetText element)) (\<lambda>shown.
       if truthy shown then do_read d (GetText element)
       else do_read d (GetAttribute element ''value''))"

definition extract_info :: "'e driver \<Rightarrow> string \<Rightarrow> 'e \<Rightarrow> ('e, element_info) action" where
  \<comment> \<open>the dict display of lines 184-191, its values computed in order\<close>
  "extract_info d element_type element =
     then_do (do_read d (GetAttribute element ''id'')) (\<lambda>ident.
     then_do (do_read d (GetAttribute element ''name'')) (\<lambda>name.
     then_do (do_read d (GetAttribute element ''class'')) (\<lambda>class.
     then_do (element_text d element) (\<lambda>shown.
     then_do (generate_xpath d element) (\<lambda>xpath.
     do_expr (Inr [(''type'', Some element_type), (''id'', ident), (''name'', name),
                   (''class'', class), (''text'', shown), (''xpath'', xpath)]))))))"

fun dict_set :: "'k \<Rightarrow> 'v \<Rightarrow> ('k \<times> 'v) list \<Rightarrow> ('k \<times> 'v) list" where
  \<comment> \<open>\<open>d[k] = v\<close>: a key that is present keeps its place\<close>
  "dict_set k v [] = [(k, v)]"
| "dict_set k v ((k1, v1) # rest) =
     (if k1 = k then (k, v) # rest else (k1, v1) # dict_set k v rest)"

fun dict_append :: "'k \<Rightarrow> 'a \<Rightarrow> ('k \<times> 'a list) list \<Rightarrow> ('k \<times> 'a list) list" where
  \<comment> \<open>\<open>d[k].append(x)\<close> for a key that is present\<close>
  "dict_append k x [] = []"
| "dict_append k x ((k1, xs) # rest) =
     (if k1 = k then (k1, xs @ [x]) # rest else (k1, xs) # dict_append k x rest)"

fun scan_elements ::
  "'e driver \<Rightarrow> string \<Rightarrow> 'e list \<Rightarrow> elements_data \<Rightarrow> ('e, elements_data) action" where
  \<comment> \<open>the loop of lines 183-193 on \<open>self.elements_data\<close>\<close>
  "scan_elements d element_type [] data log = (log, Inr data)"
| "scan_elements d element_type (element # elements) data log =
     (case extract_info d element_type element log of
        (log1, Inl e) \<Rightarrow> (log1, Inl e)
      | (log1, Inr info) \<Rightarrow>
          scan_elements d element_type elements (dict_append element_type info data)
            (log1 @ [Printed (Found element_type info)]))"

fun scan_types ::
  "'e driver \<Rightarrow> (string \<times> string) list \<Rightarrow> elements_data \<Rightarrow> ('e, elements_data) action" where
  \<comment> \<open>the loop of lines 178-193\<close>
  "scan_types d [] data log = (log, Inr data)"
| "scan_types d ((element_type, xpath) # rest) data log =
     (case do_find d xpath (log @ [Printed (LookingFor element_type)]) of
        (log1, Inl e) \<Rightarrow> (log1, Inl e)
      | (log1, Inr elements) \<Rightarrow>
          (case scan_elements d element_type elements (dict_set element_type [] data) log1 of
             (log2, Inl e) \<Rightarrow> (log2, Inl e)
           | (log2, Inr data2) \<Rightarrow> scan_types d rest data2 log2))"

definition element_types :: "(string \<times> string) list" where
  "element_types =
     [(''input'', ''//input''), (''button'', ''//button''), (''select'', ''//select''),
      (''link'', ''//a'')]"

definition wait_for_body :: "'e driver \<Rightarrow> ('e, unit) action" where
  \<comment> \<open>lines 162-167: a timeout is printed and the detection goes on\<close>
  "wait_for_body d log =
     (case do_call d WaitForBody log of
        (log1, Inl e) \<Rightarrow>
          if exn_class e = TimeoutException then do_print PageLoadTimeout log1
          else (log1, Inl e)
      | (log1, Inr u) \<Rightarrow> (log1, Inr u))"

definition detect_elements ::
  "'e driver \<Rightarrow> string \<Rightarrow> elements_data \<Rightarrow> ('e, elements_data) action" where
  \<comment> \<open>\<open>ElementDetector.detect_elements\<close>, lines 157-199; \<open>data\<close> is \<open>self.elements_data\<close> at
      the call, the empty dict in \<open>main\<close>.  The handler of lines 197-199 prints and re-raises\<close>
  "detect_elements d url data log =
     (case
        then_do (do_print (Navigating url)) (\<lambda>_.
        then_do (do_call d (Get url)) (\<lambda>_.
        then_do (wait_for_body d) (\<lambda>_.
        then_do (do_read d CurrentUrl) (\<lambda>current.
        then_do (do_print (CurrentUrlIs current)) (\<lambda>_.
        scan_types d element_types data))))) log
      of
        (log1, Inl e) \<Rightarrow> (log1 @ [Printed (DetectionError (str_exn e))], Inl e)
      | (log1, Inr data1) \<Rightarrow> (log1, Inr data1))"

section \<open>The test executor\<close>

definition dispatch :: "'e driver \<Rightarrow> json \<Rightarrow> json \<Rightarrow> 'e \<Rightarrow> ('e, unit) action" where
  \<comment> \<open>lines 273-286; \<open>v\<close> is \<open>step['value']\<close>, which line 270 has read already.
      \<open>step['step_type']\<close> is read once: reading it again gives the same\<close>
  "dispatch d step v element =
     then_do (do_expr (py_getitem step ''step_type'')) (\<lambda>step_type.
       if step_type = JStr ''input'' then
         then_do (do_call d (Clear element)) (\<lambda>_.
         then_do (do_expr (py_getitem step ''input_value'')) (\<lambda>input_value.
         then_do (do_call d (SendKeys element input_value)) (\<lambda>_.
         do_print (Entered input_value v))))
       else if step_type = JStr ''click'' then
         then_do (do_call d (Click element)) (\<lambda>_.
         do_print (Clicked v))
       else if step_type = JStr ''select'' then
         then_do (do_call d (NewSelect element)) (\<lambda>_.
         then_do (do_expr (py_getitem step ''input_value'')) (\<lambda>input_value.
         then_do (do_call d (SelectByVisibleText element input_value)) (\<lambda>_.
         do_print (Selected input_value v))))
       else do_expr (Inr ()))"

definition dispatch_v2 :: "'e driver \<Rightarrow> json \<Rightarrow> json \<Rightarrow> 'e \<Rightarrow> ('e, unit) action" where
  \<comment> \<open>lines 638-661\<close>
  "dispatch_v2 d step v element =
     then_do (do_expr (py_getitem step ''step_type'')) (\<lambda>step_type.
       if step_type = JStr ''input'' then
         then_do (do_call d (Clear element)) (\<lambda>_.
         then_do (do_expr (py_getitem step ''input_value'')) (\<lambda>input_value.
         then_do (do_call d (SendKeys element input_value)) (\<lambda>_.
         do_print (Entered input_value v))))
       else if step_type = JStr ''click'' then
         then_do (do_call d (Click element)) (\<lambda>_.
         do_print (Clicked v))
       else if step_type = JStr ''select'' then
         then_do (do_call d (NewSelect element)) (\<lambda>_.
         then_do (do_expr (py_getitem step ''input_value'')) (\<lambda>input_value.
         then_do (do_call d (SelectByVisibleText element input_value)) (\<lambda>_.
         do_print (Selected input_value v))))
       else if step_type = JStr ''scroll'' then
         then_do (do_call d (ExecuteScript ScrollIntoViewScript element)) (\<lambda>_.
         then_do (do_call d (ExecuteScript HighlightScript element)) (\<lambda>_.
         do_print (Scrolled v)))
       else do_expr (Inr ()))"

definition execute_step ::
  "('e driver \<Rightarrow> json \<Rightarrow> json \<Rightarrow> 'e \<Rightarrow> ('e, unit) action) \<Rightarrow> 'e driver \<Rightarrow> json \<Rightarrow>
   ('e, unit) action" where
  \<comment> \<open>the body of the loop, lines 269-286 and 633-661: locate, then dispatch\<close>
  "execute_step dispatcher d step =
     then_do (do_expr (py_getitem step ''value'')) (\<lambda>v.
     then_do (do_locate d v) (\<lambda>element.
     dispatcher d step v element))"

fun run_steps :: "(json \<Rightarrow> ('e, unit) action) \<Rightarrow> json list \<Rightarrow> ('e, unit) action" where
  \<comment> \<open>the loop of lines 268-286 and 632-661\<close>
  "run_steps body [] log = (log, Inr ())"
| "run_steps body (step # steps) log =
     (case body step log of
        (log1, Inl e) \<Rightarrow> (log1, Inl e)
      | (log1, Inr u) \<Rightarrow> run_steps body steps log1)"

definition report ::
  "'e event list \<times> (exn + unit) \<Rightarrow> 'e event list \<times> (bool \<times> string)" where
  \<comment> \<open>the \<open>return\<close> of line 289 and the handler of lines 291-293\<close>
  "report outcome =
     (case outcome of
        (log1, Inr u) \<Rightarrow> (log1, (True, ''Test executed successfully''))
      | (log1, Inl e) \<Rightarrow>
          (log1 @ [Printed (Failed (str_exn e))],
           (False, ''Test execution failed: '' @ str_exn e)))"

definition execute_test ::
  "'e driver \<Rightarrow> string \<Rightarrow> json \<Rightarrow> 'e event list \<Rightarrow> 'e event list \<times> (bool \<times> string)" where
  \<comment> \<open>\<open>TestExecutor.execute_test\<close>, lines 262-293\<close>
  "execute_test d url test_steps log =
     report
       (then_do (do_print Starting) (\<lambda>_.
        then_do (do_call d (Get url)) (\<lambda>_.
        then_do (do_expr (py_getitem test_steps ''steps'')) (\<lambda>steps.
        then_do (do_expr (py_iter steps)) (\<lambda>items.
        then_do (run_steps (execute_step dispatch d) items) (\<lambda>_.
        do_print Completed))))) log)"

definition execute_test_v2 ::
  "'e driver \<Rightarrow> string \<Rightarrow> json \<Rightarrow> 'e event list \<Rightarrow> 'e event list \<times> (bool \<times> string)" where
  \<comment> \<open>\<open>TestExecutor.execute_test\<close> of the second variant, lines 626-669\<close>
  "execute_test_v2 d url test_steps log =
     report
       (then_do (do_print Starting) (\<lambda>_.
        then_do (do_call d (Get url)) (\<lambda>_.
        then_do (do_expr (py_getitem test_steps ''steps'')) (\<lambda>steps.
        then_do (do_expr (py_iter steps)) (\<lambda>items.
        then_do (run_steps (execute_step dispatch_v2 d) items) (\<lambda>_.
        then_do (do_print CompletedBrowserOpen) (\<lambda>_.
        do_sleep 300)))))) log)"

section \<open>The rendering as the specification words it\<close>

definition rendered_record :: "element_info \<Rightarrow> nat list" where
  \<comment> \<open>the pairs of the record whose value is neither \<open>None\<close> nor empty, each as
      \<open>key: value\<close>, joined by a comma and a space\<close>
  "rendered_record elem =
     join (code_points '', '')
       (map (\<lambda>(k, v). code_points k @ code_points '': '' @ code_points (the v))
          (filter (\<lambda>(k, v). v \<noteq> None \<and> v \<noteq> Some []) elem))"

definition rendered_type :: "string \<times> element_info list \<Rightarrow> nat list list" where
  \<comment> \<open>the header of an element type, its name in capitals, then one line for each of its
      records\<close>
  "rendered_type entry =
     (code_points [CHR 0x0A] @ upper (fst entry) @ code_points '' Elements:'') #
     map (\<lambda>elem. code_points ''  - '' @ rendered_record elem) (snd entry)"

definition rendered_inventory :: "elements_data \<Rightarrow> nat list" where
  "rendered_inventory elements_data =
     join (code_points [CHR 0x0A]) (concat (map rendered_type elements_data))"

section \<open>The interactions as the specification words them\<close>

definition field :: "json \<Rightarrow> string \<Rightarrow> json" where
  \<comment> \<open>the field of a step that carries it\<close>
  "field step key = (case py_getitem step key of Inr v \<Rightarrow> v | Inl e \<Rightarrow> JNull)"

definition has_field :: "json \<Rightarrow> string \<Rightarrow> bool" where
  "has_field step key = (case py_getitem step key of Inr v \<Rightarrow> True | Inl e \<Rightarrow> False)"

definition step_calls :: "bool \<Rightarrow> json \<Rightarrow> 'e \<Rightarrow> 'e call list" where
  \<comment> \<open>the calls that the step type of a step asks for on the element found, in order:
      clear then type for \<open>input\<close>, a click for \<open>click\<close>, the selection control then the
      choice by visible text for \<open>select\<close> and, in the second variant only, the two scripts
      of \<open>scroll\<close>; no call for any other step type.  The call that carries the input
      value is there when the step has an input value\<close>
  "step_calls second step element =
     (case py_getitem step ''step_type'' of
        Inl e \<Rightarrow> []
      | Inr step_type \<Rightarrow>
          if step_type = JStr ''input'' then
            Clear element #
            (case py_getitem step ''input_value'' of
               Inl e \<Rightarrow> []
             | Inr input_value \<Rightarrow> [SendKeys element input_value])
          else if step_type = JStr ''click'' then [Click element]
          else if step_type = JStr ''select'' then
            NewSelect element #
            (case py_getitem step ''input_value'' of
               Inl e \<Rightarrow> []
             | Inr input_value \<Rightarrow> [SelectByVisibleText element input_value])
          else if second \<and> step_type = JStr ''scroll'' then
            [ExecuteScript ScrollIntoViewScript element, ExecuteScript HighlightScript element]
          else [])"

fun calls_return :: "'e driver \<Rightarrow> 'e event list \<Rightarrow> 'e call list \<Rightarrow> bool" where
  \<comment> \<open>each of the calls, made one after the other from the log on, returns\<close>
  "calls_return d log [] = True"
| "calls_return d log (c # calls) =
     (performs d log c = None \<and> calls_return d (log @ [Called c]) calls)"

definition step_lines :: "bool \<Rightarrow> json \<Rightarrow> line list" where
  \<comment> \<open>the line printed for a step when its interaction has returned; none for a step
      type that is not recognized\<close>
  "step_lines second step =
     (let v = field step ''value''; input_value = field step ''input_value'';
          step_type = field step ''step_type''
      in if step_type = JStr ''input'' then [Entered input_value v]
         else if step_type = JStr ''click'' then [Clicked v]
         else if step_type = JStr ''select'' then [Selected input_value v]
         else if second \<and> step_type = JStr ''scroll'' then [Scrolled v]
         else [])"

definition step_events :: "bool \<Rightarrow> json \<Rightarrow> 'e \<Rightarrow> 'e event list" where
  \<comment> \<open>what is done for one step on the element found: the lookup, then the calls of the
      interaction of its step type, then the line printed\<close>
  "step_events second step element =
     Called (WaitForPresence (field step ''value'')) #
     map Called (step_calls second step element) @ map Printed (step_lines second step)"

definition step_returns :: "bool \<Rightarrow> 'e driver \<Rightarrow> json \<Rightarrow> 'e event list \<Rightarrow> bool" where
  \<comment> \<open>the step has a locator and a step type, and an input value when its step type is
      \<open>input\<close> or \<open>select\<close>; its lookup resolves when it is made, and each call of its
      interaction returns when it is made\<close>
  "step_returns second d step log =
     (has_field step ''value'' \<and> has_field step ''step_type'' \<and>
      (has_field step ''input_value'' \<or>
       (field step ''step_type'' \<noteq> JStr ''input'' \<and> field step ''step_type'' \<noteq> JStr ''select'')) \<and>
      (case locates d log (field step ''value'') of
         Inl e \<Rightarrow> False
       | Inr element \<Rightarrow>
           calls_return d (log @ [Called (WaitForPresence (field step ''value''))])
             (step_calls second step element)))"

fun steps_return :: "bool \<Rightarrow> 'e driver \<Rightarrow> json list \<Rightarrow> 'e event list \<Rightarrow> bool" where
  \<comment> \<open>along the run of the steps from the log on, each step returns\<close>
  "steps_return second d [] log = True"
| "steps_return second d (step # steps) log =
     (step_returns second d step log \<and>
      (case locates d log (field step ''value'') of
         Inl e \<Rightarrow> False
       | Inr element \<Rightarrow> steps_return second d steps (log @ step_events second step element)))"

fun steps_log :: "bool \<Rightarrow> 'e driver \<Rightarrow> json list \<Rightarrow> 'e event list \<Rightarrow> 'e event list" where
  \<comment> \<open>the log after the steps: what is done for each step, in the order of the steps, each
      on the element that the lookup of its step gives\<close>
  "steps_log second d [] log = log"
| "steps_log second d (step # steps) log =
     (case locates d log (field step ''value'') of
        Inl e \<Rightarrow> log
      | Inr element \<Rightarrow> steps_log second d steps (log @ step_events second step element))"

definition recognized :: "bool \<Rightarrow> json set" where
  \<comment> \<open>the step types that the dispatch knows; \<open>scroll\<close> in the second variant only\<close>
  "recognized second =
     {JStr ''input'', JStr ''click'', JStr ''select''} \<union>
     (if second then {JStr ''scroll''} else {})"

definition finale :: "bool \<Rightarrow> 'e event list" where
  \<comment> \<open>what is done after the last step: the line printed, and in the second variant the
      sleep that keeps the browser open\<close>
  "finale second =
     (if second then [Printed CompletedBrowserOpen, Slept 300] else [Printed Completed])"

definition failure_report :: "'e event list \<Rightarrow> exn \<Rightarrow> 'e event list \<times> (bool \<times> string)" where
  \<comment> \<open>the failure is printed after what was done, and \<open>(False, m)\<close> is returned, where \<open>m\<close>
      ends with the text of the exception\<close>
  "failure_report log e =
     (log @ [Printed (Failed (str_exn e))], (False, ''Test execution failed: '' @ str_exn e))"

section \<open>The scan as the specification words it\<close>

text \<open>
  What the specification says of the scan, read along the run: the log grows with every
  call, and each call is answered at the log of the moment it is made.
\<close>

definition returned :: "exn + 'a \<Rightarrow> bool" where
  "returned r = (case r of Inl e \<Rightarrow> False | Inr x \<Rightarrow> True)"

definition value_of :: "exn + string option \<Rightarrow> string option" where
  \<comment> \<open>the value that a read gives, null when the read raised\<close>
  "value_of r = (case r of Inl e \<Rightarrow> None | Inr v \<Rightarrow> v)"

fun results :: "'e driver \<Rightarrow> 'e event list \<Rightarrow> 'e call list \<Rightarrow> (exn + string option) list" where
  \<comment> \<open>what the reads give when they are made one after the other from the log on\<close>
  "results d log [] = []"
| "results d log (c # calls) = reads d log c # results d (log @ [Called c]) calls"

definition node_reads :: "'e driver \<Rightarrow> 'e event list \<Rightarrow> 'e \<Rightarrow> 'e call list" where
  \<comment> \<open>the reads of the attributes of a node, in order: identifier, name, CSS class, the
      visible text, and then the visible text once more when it is not empty, the value
      otherwise\<close>
  "node_reads d log element =
     [GetAttribute element ''id'', GetAttribute element ''name'',
      GetAttribute element ''class'', GetText element,
      if truthy (value_of (reads d
           (log @ [Called (GetAttribute element ''id''), Called (GetAttribute element ''name''),
                   Called (GetAttribute element ''class'')])
           (GetText element)))
      then GetText element else GetAttribute element ''value'']"

definition node_record :: "'e driver \<Rightarrow> string \<Rightarrow> 'e \<Rightarrow> 'e event list \<Rightarrow> element_info" where
  \<comment> \<open>the record of a node: its type, the attributes read, and the XPath that the script
      gives, null when the script raises\<close>
  "node_record d element_type element log =
     (let rs = results d log (node_reads d log element @ [ExecuteScript GetXPathScript element])
      in [(''type'', Some element_type), (''id'', value_of (rs ! 0)),
          (''name'', value_of (rs ! 1)), (''class'', value_of (rs ! 2)),
          (''text'', value_of (rs ! 4)), (''xpath'', value_of (rs ! 5))])"

definition node_events :: "'e driver \<Rightarrow> string \<Rightarrow> 'e \<Rightarrow> 'e event list \<Rightarrow> 'e event list" where
  \<comment> \<open>what is done for a node: the reads, the script, and the record printed\<close>
  "node_events d element_type element log =
     map Called (node_reads d log element @ [ExecuteScript GetXPathScript element]) @
     [Printed (Found element_type (node_record d element_type element log))]"

fun nodes_log :: "'e driver \<Rightarrow> string \<Rightarrow> 'e list \<Rightarrow> 'e event list \<Rightarrow> 'e event list" where
  \<comment> \<open>the log after the nodes have been visited in order\<close>
  "nodes_log d element_type [] log = log"
| "nodes_log d element_type (element # elements) log =
     nodes_log d element_type elements (log @ node_events d element_type element log)"

fun node_records :: "'e driver \<Rightarrow> string \<Rightarrow> 'e list \<Rightarrow> 'e event list \<Rightarrow> element_info list" where
  \<comment> \<open>one record for each node, in the order of discovery\<close>
  "node_records d element_type [] log = []"
| "node_records d element_type (element # elements) log =
     node_record d element_type element log #
     node_records d element_type elements (log @ node_events d element_type element log)"

fun nodes_readable :: "'e driver \<Rightarrow> string \<Rightarrow> 'e list \<Rightarrow> 'e event list \<Rightarrow> bool" where
  \<comment> \<open>the reads of the attributes of each node return when they are made; nothing is
      asked of the script\<close>
  "nodes_readable d element_type [] log = True"
| "nodes_readable d element_type (element # elements) log =
     (list_all returned (results d log (node_reads d log element)) \<and>
      nodes_readable d element_type elements (log @ node_events d element_type element log))"

definition found :: "'e driver \<Rightarrow> 'e event list \<Rightarrow> string \<Rightarrow> 'e list" where
  \<comment> \<open>the nodes that a query gives\<close>
  "found d log xpath = (case finds d log xpath of Inl e \<Rightarrow> [] | Inr elements \<Rightarrow> elements)"

fun types_log ::
  "'e driver \<Rightarrow> (string \<times> string) list \<Rightarrow> 'e event list \<Rightarrow> 'e event list" where
  \<comment> \<open>the log after the element types have been scanned in order\<close>
  "types_log d [] log = log"
| "types_log d ((element_type, xpath) # types) log =
     types_log d types
       (nodes_log d element_type (found d (log @ [Printed (LookingFor element_type)]) xpath)
          (log @ [Printed (LookingFor element_type), Called (FindElements xpath)]))"

fun inventory ::
  "'e driver \<Rightarrow> (string \<times> string) list \<Rightarrow> 'e event list \<Rightarrow> elements_data" where
  \<comment> \<open>for each element type, in order, the records of the nodes that its query gives\<close>
  "inventory d [] log = []"
| "inventory d ((element_type, xpath) # types) log =
     (element_type,
      node_records d element_type (found d (log @ [Printed (LookingFor element_type)]) xpath)
        (log @ [Printed (LookingFor element_type), Called (FindElements xpath)])) #
     inventory d types
       (nodes_log d element_type (found d (log @ [Printed (LookingFor element_type)]) xpath)
          (log @ [Printed (LookingFor element_type), Called (FindElements xpath)]))"

fun scannable :: "'e driver \<Rightarrow> (string \<times> string) list \<Rightarrow> 'e event list \<Rightarrow> bool" where
  \<comment> \<open>along the scan of the element types: each query returns, and the attributes of each
      node that it gives can be read\<close>
  "scannable d [] log = True"
| "scannable d ((element_type, xpath) # types) log =
     (returned (finds d (log @ [Printed (LookingFor element_type)]) xpath) \<and>
      nodes_readable d element_type (found d (log @ [Printed (LookingFor element_type)]) xpath)
        (log @ [Printed (LookingFor element_type), Called (FindElements xpath)]) \<and>
      scannable d types
        (nodes_log d element_type (found d (log @ [Printed (LookingFor element_type)]) xpath)
           (log @ [Printed (LookingFor element_type), Called (FindElements xpath)])))"

definition page_opens :: "'e driver \<Rightarrow> string \<Rightarrow> 'e event list \<Rightarrow> bool" where
  \<comment> \<open>the navigation returns, the wait for the body returns or times out, and the current
      URL can be read\<close>
  "page_opens d url log =
     (performs d (log @ [Printed (Navigating url)]) (Get url) = None \<and>
      (case performs d (log @ [Printed (Navigating url), Called (Get url)]) WaitForBody of
         None \<Rightarrow>
           returned (reads d (log @ [Printed (Navigating url), Called (Get url),
                                     Called WaitForBody]) CurrentUrl)
       | Some e \<Rightarrow>
           exn_class e = TimeoutException \<and>
           returned (reads d (log @ [Printed (Navigating url), Called (Get url),
                                     Called WaitForBody, Printed PageLoadTimeout]) CurrentUrl)))"

definition page_log :: "'e driver \<Rightarrow> string \<Rightarrow> 'e event list \<Rightarrow> 'e event list" where
  \<comment> \<open>the log when the scan of the element types begins\<close>
  "page_log d url log =
     (let waited =
            (case performs d (log @ [Printed (Navigating url), Called (Get url)]) WaitForBody of
               None \<Rightarrow> log @ [Printed (Navigating url), Called (Get url), Called WaitForBody]
             | Some e \<Rightarrow> log @ [Printed (Navigating url), Called (Get url), Called WaitForBody,
                                Printed PageLoadTimeout])
      in waited @ [Called CurrentUrl, Printed (CurrentUrlIs (value_of (reads d waited CurrentUrl)))])"

definition with_inventory :: "elements_data \<Rightarrow> elements_data \<Rightarrow> elements_data" where
  \<comment> \<open>the mapping with the entry of each scanned element type set to its records; from
      the empty mapping this is the inventory itself\<close>
  "with_inventory data scanned = foldl (\<lambda>acc entry. dict_set (fst entry) (snd entry) acc) data scanned"

section \<open>Sample environments\<close>

text \<open>
  Concrete environments for the examples below: a parser given by a finite table of
  texts with the values that \<open>json.loads\<close> gives for them, a well-formed chat completion
  carrying a given message, and a browser in which every lookup resolves to element
  \<open>0\<close> and every call returns.
\<close>

definition loads_table :: "(string \<times> json) list \<Rightarrow> string \<Rightarrow> exn + json" where
  "loads_table table s =
     (case map_of table s of
        Some v \<Rightarrow> Inr v
      | None \<Rightarrow> Inl (Exn JSONDecodeError ''Expecting value: line 1 column 1 (char 0)''))"

definition chat_response :: "string \<Rightarrow> response" where
  "chat_response message =
     \<lparr>status_code = 200,
      json_result =
        Inr (JObj [(''choices'',
               JArr [JObj [(''message'', JObj [(''content'', JStr message)])]])])\<rparr>"

definition obliging_driver :: "nat driver" where
  "obliging_driver =
     \<lparr>performs = (\<lambda>log c. None), locates = (\<lambda>log v. Inr 0),
      finds = (\<lambda>log xpath. Inr []), reads = (\<lambda>log c. Inr None)\<rparr>"

definition sample_page :: "node list" where
  \<comment> \<open>a page with two blocks, an input with an id, a link, and a form whose control is
      named \<open>id\<close>\<close>
  "sample_page =
     [CharData 10,
      Element ''HTML'' [] None
        [Element ''HEAD'' [] None [],
         Element ''BODY'' [] None
           [Element ''DIV'' [] None [], CharData 3, Element ''INPUT'' ''amt'' None [],
            Element ''DIV'' [] None [Element ''A'' [] None []],
            Element ''FORM'' ''f'' (Some ''[object HTMLInputElement]'')
              [Element ''INPUT'' [] None []]]]]"

definition bare_step :: "string \<Rightarrow> string \<Rightarrow> json" where
  \<comment> \<open>a step with the four validated fields and no input value\<close>
  "bare_step step_type xpath =
     JObj [(''action'', JStr ''find_element''), (''by'', JStr ''xpath''),
           (''value'', JStr xpath), (''step_type'', JStr step_type)]"

definition valued_step :: "string \<Rightarrow> string \<Rightarrow> string \<Rightarrow> json" where
  "valued_step step_type xpath input_value =
     JObj [(''action'', JStr ''find_element''), (''by'', JStr ''xpath''),
           (''value'', JStr xpath), (''step_type'', JStr step_type),
           (''input_value'', JStr input_value)]"

definition test_case_of :: "json list \<Rightarrow> json" where
  "test_case_of steps = JObj [(''steps'', JArr steps)]"

definition impatient_driver :: "nat driver" where
  \<comment> \<open>as \<open>obliging_driver\<close>, but the lookup of \<open>//missing\<close> times out\<close>
  "impatient_driver =
     obliging_driver
       \<lparr>locates := (\<lambda>log v. if v = JStr ''//missing''
                             then Inl (Exn TimeoutException ''Message: '')
                             else Inr 0)\<rparr>"

definition offline_driver :: "nat driver" where
  \<comment> \<open>as \<open>obliging_driver\<close>, but the navigation fails\<close>
  "offline_driver =
     obliging_driver
       \<lparr>performs := (\<lambda>log c. case c of
                       Get url \<Rightarrow> Some (Exn WebDriverException ''Message: unknown error'')
                     | _ \<Rightarrow> None)\<rparr>"

definition blocked_driver :: "nat driver" where
  \<comment> \<open>as \<open>obliging_driver\<close>, but every click is intercepted and the highlighting script
      fails\<close>
  "blocked_driver =
     obliging_driver
       \<lparr>performs := (\<lambda>log c. case c of
                       Click element \<Rightarrow>
                         Some (Exn WebDriverException ''Message: element click intercepted'')
                     | ExecuteScript script element \<Rightarrow>
                         if script = HighlightScript
                         then Some (Exn JavascriptException ''Message: javascript error'')
                         else None
                     | _ \<Rightarrow> None)\<rparr>"

definition patchy_driver :: "nat driver" where
  \<comment> \<open>a page with the input elements \<open>0\<close> and \<open>1\<close> and the link \<open>2\<close>; the page load times out,
      and the script raises for element \<open>0\<close> only\<close>
  "patchy_driver =
     \<lparr>performs = (\<lambda>log c. case c of
                      WaitForBody \<Rightarrow> Some (Exn TimeoutException ''Message: '')
                    | _ \<Rightarrow> None),
      locates = (\<lambda>log v. Inr 0),
      finds = (\<lambda>log xpath. if xpath = ''//input'' then Inr [0, 1]
                            else if xpath = ''//a'' then Inr [2] else Inr []),
      reads = (\<lambda>log c. case c of
                  ExecuteScript script element \<Rightarrow>
                    if element = 0
                    then Inl (Exn JavascriptException ''Message: javascript error'')
                    else if element = 1 then Inr (Some ''body/input[2]'')
                    else Inr (Some ''body/a[1]'')
                | CurrentUrl \<Rightarrow> Inr (Some ''https://example.org'')
                | GetText element \<Rightarrow> if element = 2 then Inr (Some ''Home'') else Inr (Some [])
                | GetAttribute element name \<Rightarrow>
                    if name = ''value'' then Inr (Some ''5'') else Inr None
                | _ \<Rightarrow> Inr None)\<rparr>"

definition fading_driver :: "nat driver" where
  \<comment> \<open>as \<open>patchy_driver\<close>, but the value of the input element \<open>1\<close> cannot be read\<close>
  "fading_driver =
     patchy_driver
       \<lparr>reads := (\<lambda>log c. case c of
                    GetAttribute element name \<Rightarrow>
                      if element = 1 \<and> name = ''value''
                      then Inl (Exn WebDriverException ''Message: stale element reference'')
                      else reads patchy_driver log c
                  | _ \<Rightarrow> reads patchy_driver log c)\<rparr>"

definition input_step_message :: string where
  \<comment> \<open>a response of the language model: one \<open>input\<close> step without an input value\<close>
  "input_step_message =
     ''{\"steps\": [{\"action\": \"find_element\", \"by\": \"xpath\", \"value\": \"//input\", \"step_type\": \"input\"}]}''"

definition deaf_driver :: "nat driver" where
  \<comment> \<open>as \<open>obliging_driver\<close>, but every query for elements fails\<close>
  "deaf_driver =
     obliging_driver
       \<lparr>finds := (\<lambda>log xpath. Inl (Exn WebDriverException ''Message: invalid session id''))\<rparr>"

definition stale_driver :: "nat driver" where
  \<comment> \<open>a page with two input elements whose attributes cannot be read\<close>
  "stale_driver =
     obliging_driver
       \<lparr>finds := (\<lambda>log xpath. if xpath = ''//input'' then Inr [0, 1] else Inr []),
        reads := (\<lambda>log c. case c of
                    GetAttribute element name \<Rightarrow>
                      Inl (Exn WebDriverException ''Message: stale element reference'')
                  | CurrentUrl \<Rightarrow> Inr (Some ''https://example.org'')
                  | _ \<Rightarrow> Inr None)\<rparr>"

section \<open>Code-fence stripping\<close>

lemma dropWhile_fixed:
  "xs = [] \<or> \<not> P (hd xs) \<Longrightarrow> dropWhile P xs = xs"
  by (cases xs) auto

lemma dropWhile_head:
  "dropWhile P xs \<noteq> [] \<Longrightarrow> \<not> P (hd (dropWhile P xs))"
  by (induction xs) auto

lemma dropWhile_last:
  assumes "dropWhile P xs \<noteq> []"
  shows "last (dropWhile P xs) = last xs"
proof -
  have "xs = takeWhile P xs @ dropWhile P xs"
    by simp
  then have "last xs = last (takeWhile P xs @ dropWhile P xs)"
    by simp
  also have "\<dots> = last (dropWhile P xs)"
    by (rule last_appendR [OF assms])
  finally show ?thesis by simp
qed

lemma strip_strip: "strip (strip s) = strip s"
proof -
  define t where "t = dropWhile isspace s"
  define u where "u = dropWhile isspace (rev t)"
  have s: "strip s = rev u"
    by (simp add: strip_def t_def u_def)
  have front: "dropWhile isspace (rev u) = rev u"
  proof (cases "u = []")
    case True
    then show ?thesis by simp
  next
    case False
    then have rt: "rev t \<noteq> []"
      by (auto simp: u_def)
    then have tne: "t \<noteq> []"
      by simp
    have "last u = last (rev t)"
      using False unfolding u_def by (rule dropWhile_last)
    also have "\<dots> = hd t"
      using tne by (simp add: last_rev)
    finally have "hd (rev u) = hd t"
      using False by (simp add: hd_rev)
    moreover have "\<not> isspace (hd t)"
      using tne unfolding t_def by (rule dropWhile_head)
    ultimately show ?thesis
      by (intro dropWhile_fixed) simp
  qed
  have rear: "dropWhile isspace u = u"
    by (simp add: u_def)
  show ?thesis
    by (simp add: s) (simp add: strip_def front rear)
qed

lemma not_isspace_backtick: "\<not> isspace (CHR 0x60)"
  by (simp add: isspace_def)

lemma strip_fenced: "strip (''```json'' @ s @ ''```'') = ''```json'' @ s @ ''```''"
  by (simp add: strip_def not_isspace_backtick)

lemma endswith_append: "endswith (s @ p) p"
  by (simp add: endswith_def)

lemma clean_content_unfenced:
  assumes "\<not> startswith (strip s) ''```json''" and "\<not> endswith (strip s) ''```''"
  shows "clean_content s = strip s"
  using assms by (simp add: clean_content_def Let_def strip_strip)

lemma clean_content_is_stripped: "strip (clean_content s) = clean_content s"
  by (simp add: clean_content_def Let_def strip_strip)

text \<open>
  Claim C7, as amended.  For every text \<open>s\<close>, the text \<open>s\<close> wrapped in a
  \<open>```json\<close> ... \<open>```\<close> fence is cleaned to \<open>s.strip()\<close>, so parsing the fenced text gives
  what parsing the whitespace-stripped unfenced text gives, whatever the parser is.
  Cleaning twice gives the result of cleaning once whenever the text cleaned once no
  longer begins with \<open>```json\<close> and no longer ends with \<open>```\<close>: one cleaning removes one
  opening and one closing marker only.
\<close>

theorem clean_content_fenced:
  "clean_content (''```json'' @ s @ ''```'') = strip s \<and>
   loads (clean_content (''```json'' @ s @ ''```'')) = loads (strip s) \<and>
   (\<not> startswith (clean_content s) ''```json'' \<and> \<not> endswith (clean_content s) ''```''
      \<longrightarrow> clean_content (clean_content s) = clean_content s)"
proof -
  have fenced: "clean_content (''```json'' @ s @ ''```'') = strip s"
  proof -
    have e: "endswith (s @ ''```'') ''```''"
      by (rule endswith_append)
    have "startswith (''```json'' @ s @ ''```'') ''```json''"
      by (simp add: startswith_def)
    then show ?thesis
      unfolding clean_content_def Let_def strip_fenced
      using e by simp
  qed
  have twice: "clean_content (clean_content s) = clean_content s"
    if "\<not> startswith (clean_content s) ''```json''" "\<not> endswith (clean_content s) ''```''"
  proof -
    have "clean_content (clean_content s) = strip (clean_content s)"
      using that by (intro clean_content_unfenced) (simp_all add: clean_content_is_stripped)
    then show ?thesis
      by (simp add: clean_content_is_stripped)
  qed
  from fenced twice show ?thesis
    by simp
qed

theorem clean_content_fenced_witness:
  "clean_content ''```json{}```'' = ''{}'' \<and>
   clean_content (clean_content '' {} '') = clean_content '' {} ''"
proof -
  have a: "strip ''{}'' = ''{}''"
    by (simp add: strip_def isspace_def)
  have b: "clean_content '' {} '' = ''{}''"
    by (simp add: clean_content_def strip_def isspace_def startswith_def endswith_def)
  have c: "\<not> startswith ''{}'' ''```json''" "\<not> endswith ''{}'' ''```''"
    by (simp_all add: startswith_def endswith_def)
  have d: "clean_content ''{}'' = ''{}''"
    by (simp add: clean_content_def strip_def isspace_def startswith_def endswith_def)
  show ?thesis
    using clean_content_fenced [where s = "''{}''" and loads = id]
      clean_content_fenced [where s = "'' {} ''" and loads = id] a b c d
    by simp
qed

text \<open>
  The claim as it is written fails: cleaning is not idempotent on every text.  A text
  that ends with two closing markers loses one of them at each cleaning.
\<close>

theorem clean_content_not_idempotent:
  "clean_content ''{}``````'' = ''{}```'' \<and>
   clean_content (clean_content ''{}``````'') = ''{}'' \<and>
   clean_content (clean_content ''{}``````'') \<noteq> clean_content ''{}``````''"
  by (simp add: clean_content_def strip_def isspace_def startswith_def endswith_def)

section \<open>What the generator returns\<close>

lemma and_then_Inr: "(and_then r f = Inr y) = (\<exists>x. r = Inr x \<and> f x = Inr y)"
  by (cases r) (simp_all add: and_then_def)

lemma outer_handler_Inr: "(outer_handler r = Inr y) = (r = Inr y)"
  by (cases r) (simp_all add: outer_handler_def)

lemma inner_handlers_Inr: "(inner_handlers r = Inr y) = (r = Inr y)"
  by (cases r) (simp_all add: inner_handlers_def)

lemma outer_handler_Inl:
  "r = Inl e \<Longrightarrow> outer_handler r = Inl (Exn Exception (''Error generating test case: '' @ str_exn e))"
  by (simp add: outer_handler_def)

lemma all_fields_in_True:
  "(all_fields_in step fs = Inr True) = (\<forall>f \<in> set fs. py_contains f step = Inr True)"
proof (induction fs)
  case Nil
  then show ?case by simp
next
  case (Cons f fs)
  show ?case
  proof (cases "py_contains f step")
    case (Inl e)
    then show ?thesis by (simp add: and_then_def)
  next
    case (Inr found)
    then show ?thesis using Cons by (cases found) (simp_all add: and_then_def)
  qed
qed

lemma check_steps_ok:
  "(check_steps items = Inr u) =
     (\<forall>step \<in> set items. \<forall>f \<in> set required_fields. py_contains f step = Inr True)"
proof (induction items)
  case Nil
  then show ?case by simp
next
  case (Cons step items)
  show ?case
  proof (cases "all_fields_in step required_fields = Inr True")
    case True
    then have "check_steps (step # items) = check_steps items"
      by (simp add: and_then_def)
    with True Cons show ?thesis
      by (simp add: all_fields_in_True)
  next
    case False
    then have "check_steps (step # items) \<noteq> Inr u"
      by (cases "all_fields_in step required_fields") (auto simp: and_then_def)
    with False show ?thesis
      by (simp add: all_fields_in_True)
  qed
qed

lemma py_getitem_dict:
  "(py_getitem (JObj members) key = Inr v) = (map_of members key = Some v)"
  by (simp split: option.splits)

lemma py_contains_dict:
  "(py_contains key (JObj members) = Inr True) = (\<exists>v. map_of members key = Some v)"
proof -
  have "(key \<in> fst ` set members) = (\<exists>v. map_of members key = Some v)"
    by (metis domIff dom_map_of_conv_image_fst not_Some_eq)
  then show ?thesis
    by simp
qed

lemma is_dict_iff: "is_dict v = (\<exists>members. v = JObj members)"
  by (cases v) simp_all

lemma validated_Inr:
  "((if \<not> is_dict tc \<or> py_contains key tc \<noteq> Inr True then Inl e0
     else and_then (py_getitem tc key) (\<lambda>steps.
          and_then (py_iter steps) (\<lambda>items.
          and_then (check_steps items) (\<lambda>_. Inr tc)))) = Inr test_case) =
   (tc = test_case \<and>
    (\<exists>members steps items.
        tc = JObj members \<and> map_of members key = Some steps \<and>
        py_iter steps = Inr items \<and>
        (\<forall>step \<in> set items. \<forall>field \<in> set required_fields. py_contains field step = Inr True)))"
  (is "?L = ?R")
proof
  assume l: ?L
  then have d: "is_dict tc" and k: "py_contains key tc = Inr True"
    by (auto split: if_splits)
  from d obtain members where m: "tc = JObj members"
    by (auto simp only: is_dict_iff)
  from l d k obtain steps items where
    g: "py_getitem tc key = Inr steps" and i: "py_iter steps = Inr items"
    and ch: "check_steps items = Inr ()" and e: "tc = test_case"
    by (auto simp: and_then_Inr)
  from g have "map_of members key = Some steps"
    unfolding m py_getitem_dict .
  with m i ch e show ?R
    by (auto simp: check_steps_ok)
next
  assume ?R
  then obtain members steps items where
    e: "tc = test_case" and m: "tc = JObj members" and s: "map_of members key = Some steps"
    and i: "py_iter steps = Inr items"
    and a: "\<forall>step \<in> set items. \<forall>field \<in> set required_fields. py_contains field step = Inr True"
    by blast
  from s have k: "py_contains key tc = Inr True"
    unfolding m py_contains_dict by blast
  from a have ch: "check_steps items = Inr ()"
    by (simp only: check_steps_ok)
  from s have g: "py_getitem tc key = Inr steps"
    unfolding m py_getitem_dict .
  have d: "is_dict tc"
    unfolding m by simp
  show ?L
    by (simp add: d k g i ch e [symmetric] and_then_def)
qed

lemma parse_test_case_Inr:
  "(parse_test_case loads content = Inr test_case) =
     (\<exists>raw members steps items.
        content = JStr raw \<and> loads (clean_content raw) = Inr test_case \<and>
        test_case = JObj members \<and> map_of members ''steps'' = Some steps \<and>
        py_iter steps = Inr items \<and>
        (\<forall>step \<in> set items. \<forall>field \<in> set required_fields. py_contains field step = Inr True))"
proof (cases "\<exists>raw. content = JStr raw")
  case False
  then have "parse_test_case loads content \<noteq> Inr test_case"
    by (cases content) (auto simp only: parse_test_case_def json.case)
  with False show ?thesis
    by blast
next
  case True
  then obtain raw where c: "content = JStr raw"
    by blast
  have "(parse_test_case loads content = Inr test_case) =
        (\<exists>tc. loads (clean_content raw) = Inr tc \<and> tc = test_case \<and>
          (\<exists>members steps items.
            tc = JObj members \<and> map_of members ''steps'' = Some steps \<and>
            py_iter steps = Inr items \<and>
            (\<forall>step \<in> set items. \<forall>field \<in> set required_fields.
                py_contains field step = Inr True)))"
    unfolding parse_test_case_def c json.case
    by (subst and_then_Inr) (simp only: validated_Inr)
  then show ?thesis
    unfolding c by (simp only: json.inject) blast
qed

lemma generate_test_case_Inr:
  assumes "post (format_elements_data elements_data) user_prompt = Inr response"
  shows "(generate_test_case loads post elements_data user_prompt = Inr test_case) =
     (status_code response = 200 \<and>
      (\<exists>raw members steps items.
         message_content response = Inr (JStr raw) \<and>
         loads (clean_content raw) = Inr test_case \<and>
         test_case = JObj members \<and> map_of members ''steps'' = Some steps \<and>
         py_iter steps = Inr items \<and>
         (\<forall>step \<in> set items. \<forall>field \<in> set required_fields.
             py_contains field step = Inr True)))"
proof (cases "status_code response = 200")
  case False
  then have "generate_test_case loads post elements_data user_prompt \<noteq> Inr test_case"
    unfolding generate_test_case_def Let_def outer_handler_Inr and_then_Inr assms
    by (simp only: sum.inject simp_thms if_False sum.distinct ex_simps)
  with False show ?thesis
    by blast
next
  case True
  have "(generate_test_case loads post elements_data user_prompt = Inr test_case) =
        (\<exists>content. message_content response = Inr content \<and>
            parse_test_case loads content = Inr test_case)"
    unfolding generate_test_case_def Let_def outer_handler_Inr and_then_Inr assms
      inner_handlers_Inr
    using True
    by (simp only: sum.inject simp_thms if_True ex_simps and_then_Inr inner_handlers_Inr)
  then show ?thesis
    using True unfolding parse_test_case_Inr by (simp only: simp_thms) blast
qed

lemma generate_test_case_raises:
  "(\<exists>test_case. generate_test_case loads post elements_data user_prompt = Inr test_case) \<or>
   (\<exists>msg. generate_test_case loads post elements_data user_prompt =
      Inl (Exn Exception (''Error generating test case: '' @ msg)))"
proof -
  have "\<And>r. (\<exists>tc. outer_handler r = Inr tc) \<or>
     (\<exists>msg. outer_handler r = Inl (Exn Exception (''Error generating test case: '' @ msg)))"
    subgoal for r
      by (cases r) (simp_all only: outer_handler_def sum.case, blast+)
    done
  then show ?thesis
    unfolding generate_test_case_def Let_def by blast
qed

text \<open>
  Claim C1, as amended.  When the request returns a response, \<open>generate_test_case\<close>
  returns a test case exactly when all of this holds: the status code is 200; the body
  has a string at \<open>['choices'][0]['message']['content']\<close>; that string, cleaned, is parsed
  by \<open>json.loads\<close>; the parsed value is a dict with the key \<open>steps\<close>; the value of \<open>steps\<close>
  can be iterated; and for every item of it and each of the four fields the test
  \<open>field in step\<close> is true.  The value returned is then the parsed value.  In every other
  case it raises an \<open>Exception\<close> whose text begins with \<open>Error generating test case:\<close>.
\<close>

theorem generate_test_case_result:
  assumes "post (format_elements_data elements_data) user_prompt = Inr response"
  shows "(generate_test_case loads post elements_data user_prompt = Inr test_case) =
     (status_code response = 200 \<and>
      (\<exists>raw members steps items.
         message_content response = Inr (JStr raw) \<and>
         loads (clean_content raw) = Inr test_case \<and>
         test_case = JObj members \<and> map_of members ''steps'' = Some steps \<and>
         py_iter steps = Inr items \<and>
         (\<forall>step \<in> set items. \<forall>field \<in> set required_fields.
             py_contains field step = Inr True))) \<and>
     ((\<exists>returned. generate_test_case loads post elements_data user_prompt = Inr returned) \<or>
      (\<exists>msg. generate_test_case loads post elements_data user_prompt =
         Inl (Exn Exception (''Error generating test case: '' @ msg))))"
  using generate_test_case_Inr [where post = post, OF assms] generate_test_case_raises
  by (rule conjI)

lemma message_content_chat_response: "message_content (chat_response raw) = Inr (JStr raw)"
  by (simp add: message_content_def chat_response_def and_then_def)

lemma status_code_chat_response: "status_code (chat_response raw) = 200"
  by (simp add: chat_response_def)

lemma clean_sample1: "clean_content ''```json{\"steps\": []}```'' = ''{\"steps\": []}''"
  by (simp add: clean_content_def strip_def isspace_def startswith_def endswith_def)

theorem generate_test_case_result_witness:
  "generate_test_case
     (loads_table [(''{\"steps\": []}'', JObj [(''steps'', JArr [])])])
     (\<lambda>description prompt. Inr (chat_response ''```json{\"steps\": []}```''))
     [] ''open the page'' =
   Inr (JObj [(''steps'', JArr [])])"
proof -
  let ?loads = "loads_table [(''{\"steps\": []}'', JObj [(''steps'', JArr [])])]"
  let ?post = "\<lambda>description prompt :: string. (Inr (chat_response ''```json{\"steps\": []}```'') :: exn + response)"
  have p: "?post (format_elements_data []) ''open the page'' = Inr (chat_response ''```json{\"steps\": []}```'')"
    by simp
  have l: "?loads (clean_content ''```json{\"steps\": []}```'') = Inr (JObj [(''steps'', JArr [])])"
    by (simp add: clean_sample1 loads_table_def)
  have m: "map_of [(''steps'', JArr [])] ''steps'' = Some (JArr [])"
    by simp
  have i: "py_iter (JArr []) = Inr []"
    by simp
  have "\<exists>raw members steps items.
         message_content (chat_response ''```json{\"steps\": []}```'') = Inr (JStr raw) \<and>
         ?loads (clean_content raw) = Inr (JObj [(''steps'', JArr [])]) \<and>
         JObj [(''steps'', JArr [])] = JObj members \<and> map_of members ''steps'' = Some steps \<and>
         py_iter steps = Inr items \<and>
         (\<forall>step \<in> set items. \<forall>field \<in> set required_fields.
             py_contains field step = Inr True)"
    using message_content_chat_response l m i by fastforce
  then show ?thesis
    using generate_test_case_result [where post = ?post and elements_data = "[]"
        and user_prompt = "''open the page''" and loads = ?loads
        and response = "chat_response ''```json{\"steps\": []}```''"
        and test_case = "JObj [(''steps'', JArr [])]"]
      p status_code_chat_response
    by blast
qed

text \<open>
  The claim as it is written fails: with status 200 and a parsed dict that has the key
  \<open>steps\<close>, no element of \<open>steps\<close> lacking a field, the function still raises when the
  value of \<open>steps\<close> is a number, which the loop of line 100 cannot iterate.
\<close>

theorem generate_test_case_raises_on_number:
  "status_code (chat_response ''{\"steps\": 5}'') = 200 \<and>
   loads_table [(''{\"steps\": 5}'', JObj [(''steps'', JInt 5)])] (clean_content ''{\"steps\": 5}'') =
     Inr (JObj [(''steps'', JInt 5)]) \<and>
   generate_test_case
     (loads_table [(''{\"steps\": 5}'', JObj [(''steps'', JInt 5)])])
     (\<lambda>description prompt. Inr (chat_response ''{\"steps\": 5}''))
     [] ''open the page'' =
   Inl (Exn Exception
     (''Error generating test case: Invalid test case format: '' @ quoted ''int'' @
      '' object is not iterable''))"
proof -
  have c: "clean_content ''{\"steps\": 5}'' = ''{\"steps\": 5}''"
    by (simp add: clean_content_def strip_def isspace_def startswith_def endswith_def)
  have l: "loads_table [(''{\"steps\": 5}'', JObj [(''steps'', JInt 5)])] ''{\"steps\": 5}'' =
      Inr (JObj [(''steps'', JInt 5)])"
    by (simp add: loads_table_def)
  have p: "parse_test_case (loads_table [(''{\"steps\": 5}'', JObj [(''steps'', JInt 5)])])
       (JStr ''{\"steps\": 5}'') =
     Inl (Exn TypeError (quoted ''int'' @ '' object is not iterable''))"
    unfolding parse_test_case_def json.case c l
    by (simp add: and_then_def)
  show ?thesis
    unfolding generate_test_case_def Let_def
    by (simp add: c l p status_code_chat_response message_content_chat_response and_then_def
        inner_handlers_def outer_handler_def)
qed

section \<open>The rendered inventory\<close>

lemma upper_samples:
  "upper ''input'' = code_points ''INPUT''"
  "upper [CHR 0xE9] = [201]"
  "upper [CHR 0xDF] = [83, 83]"
  "upper [CHR 0xB5] = [924]"
  "upper [CHR 0xFF] = [376]"
  "upper [CHR 0xF7] = [247]"
  by (simp_all add: upper_def upper_code_point_def code_points_def)

lemma attributes_filter:
  "attributes elem =
     map (\<lambda>(k, v). code_points k @ code_points '': '' @ code_points (the v))
       (filter (\<lambda>(k, v). v \<noteq> None \<and> v \<noteq> Some []) elem)"
proof (induction elem)
  case Nil
  then show ?case by (simp add: attributes_def)
next
  case (Cons kv elem)
  obtain k v where kv: "kv = (k, v)"
    by (cases kv)
  have "attributes (kv # elem) =
        (case v of None \<Rightarrow> []
         | Some s \<Rightarrow> if s \<noteq> [] then [code_points (k @ '': '' @ s)] else []) @
        attributes elem"
    by (simp add: attributes_def kv)
  with Cons show ?case
    by (cases v) (simp_all add: kv code_points_def)
qed

lemma format_elems_append:
  "format_elems formatted elems =
     formatted @
     map (\<lambda>elem. code_points ''  - '' @ join (code_points '', '') (attributes elem)) elems"
  by (induction elems arbitrary: formatted) simp_all

lemma format_types_append:
  "format_types formatted elements_data =
     formatted @ concat (map rendered_type elements_data)"
proof (induction elements_data arbitrary: formatted)
  case Nil
  then show ?case by simp
next
  case (Cons entry elements_data)
  obtain element_type elements where e: "entry = (element_type, elements)"
    by (cases entry)
  have "rendered_type entry =
        (code_points [CHR 0x0A] @ upper element_type @ code_points '' Elements:'') #
        map (\<lambda>elem. code_points ''  - '' @ join (code_points '', '') (attributes elem))
          elements"
    unfolding rendered_type_def rendered_record_def attributes_filter e by simp
  then show ?case
    unfolding e format_types.simps Cons.IH format_elems_append
    by (simp only: e list.map concat.simps append_assoc append_Cons append_Nil)
qed

text \<open>
  Claim C9.  For every element inventory, \<open>_format_elements_data\<close> returns the rendering
  that the specification describes: for each element type in the order of the mapping,
  the header \<open><TYPE> Elements:\<close> (after an empty line), the type in capitals as
  \<open>str.upper\<close> writes it, followed by one line per record in the order of discovery, the
  line being \<open>  - \<close> and the pairs of the record whose values are truthy, each as
  \<open>key: value\<close>, joined by \<open>, \<close>; the lines are joined by newlines.  The result is a
  function of the inventory alone.
\<close>

theorem format_elements_data_rendered:
  "format_elements_data elements_data = rendered_inventory elements_data"
  by (simp add: format_elements_data_def rendered_inventory_def format_types_append)

theorem format_elements_data_rendered_witness:
  "format_elements_data
     [(''input'', [[(''type'', Some ''input''), (''id'', Some ''amt''), (''name'', None),
                   (''class'', Some []), (''text'', None),
                   (''xpath'', Some ''//*[@id=\"amt\"]'')]]),
      ([CHR 0xE9, CHR 0xDF, CHR 0xFF], [])] =
   code_points
     ([CHR 0x0A] @ ''INPUT Elements:'' @ [CHR 0x0A] @
      ''  - type: input, id: amt, xpath: //*[@id=\"amt\"]'' @ [CHR 0x0A] @ [CHR 0x0A]) @
   [201, 83, 83, 376] @ code_points '' Elements:''"
proof -
  have r: "rendered_inventory
     [(''input'', [[(''type'', Some ''input''), (''id'', Some ''amt''), (''name'', None),
                   (''class'', Some []), (''text'', None),
                   (''xpath'', Some ''//*[@id=\"amt\"]'')]]),
      ([CHR 0xE9, CHR 0xDF, CHR 0xFF], [])] =
   code_points
     ([CHR 0x0A] @ ''INPUT Elements:'' @ [CHR 0x0A] @
      ''  - type: input, id: amt, xpath: //*[@id=\"amt\"]'' @ [CHR 0x0A] @ [CHR 0x0A]) @
   [201, 83, 83, 376] @ code_points '' Elements:''"
    by code_simp
  show ?thesis
    by (simp only: format_elements_data_rendered r)
qed

section \<open>The synthesized XPath\<close>

lemma node_at_snoc:
  "node_at n (p @ [i]) =
     (case node_at n p of
        None \<Rightarrow> None
      | Some m \<Rightarrow> if i < length (childNodes m) then Some (childNodes m ! i) else None)"
  by (induction p arbitrary: n) simp_all

lemma node_at_parent:
  assumes "node_at root p = Some n" and "p \<noteq> []"
  shows "\<exists>parent. node_at root (butlast p) = Some parent \<and>
           last p < length (childNodes parent) \<and> childNodes parent ! last p = n"
proof -
  from assms(2) obtain q i where p: "p = q @ [i]"
    by (metis append_butlast_last_id)
  from assms(1) show ?thesis
    unfolding p node_at_snoc
    by (auto split: option.splits if_splits)
qed

lemma sibling_loop_count:
  assumes "i \<le> k" and "k - i < length rest"
  shows "sibling_loop rest k (Some tag) i ix =
           Some (ix + preceding_same_tag rest (k - i) tag)"
  using assms
proof (induction rest arbitrary: i ix)
  case Nil
  then show ?case by simp
next
  case (Cons sibling rest)
  show ?case
  proof (cases "i = k")
    case True
    then show ?thesis
      by (simp add: preceding_same_tag_def)
  next
    case False
    with Cons.prems have le: "Suc i \<le> k" and lt: "k - Suc i < length rest"
      by auto
    from False Cons.prems have k: "k - i = Suc (k - Suc i)"
      by auto
    show ?thesis
      using False Cons.IH [OF le lt]
      by (simp add: preceding_same_tag_def k)
  qed
qed

lemma getXPath_other:
  assumes "node_at root p = Some n" and "tagName n = None"
  shows "getXPath root body p = Inr (Some ''//*[@id=\"undefined\"]'')"
  using assms by (cases n) (simp_all add: getXPath.simps)

lemma getXPath_step:
  assumes n: "node_at root p = Some (Element tag [] None children)"
    and b: "body \<noteq> Some p" and ne: "p \<noteq> []"
    and parent: "node_at root (butlast p) = Some parent"
    and path: "getXPath root body (butlast p) = Inr (Some parent_path)"
  shows "getXPath root body p =
     Inr (Some (parent_path @ ''/'' @ toLowerCase tag @ ''['' @
                decimal (1 + preceding_same_tag (childNodes parent) (last p) tag) @
                '']''))"
proof -
  from node_at_parent [OF n ne] parent have "last p < length (childNodes parent)"
    by simp
  then have "sibling_loop (childNodes parent) (last p) (Some tag) 0 0 =
      Some (preceding_same_tag (childNodes parent) (last p) tag)"
    using sibling_loop_count [of 0 "last p" "childNodes parent" tag 0] by simp
  then show ?thesis
    by (subst getXPath.simps) (simp add: n b ne parent path)
qed

lemma getXPath_shadowed:
  assumes "node_at root p = Some (Element tag ident (Some control) children)"
  shows "getXPath root body p = Inr (Some (''//*[@id=\"'' @ control @ ''\"]''))"
  using assms by (subst getXPath.simps) simp

lemma getXPath_defined:
  assumes "node_at (Document nodes) p = Some n"
  shows "\<exists>s. getXPath (Document nodes) body p = Inr (Some s)"
  using assms
proof (induction p arbitrary: n rule: rev_induct)
  case Nil
  have "node_at (Document nodes) [] = Some (Document nodes)"
    by simp
  from getXPath_other [OF this] show ?case
    by simp
next
  case (snoc i q)
  from node_at_parent [OF snoc.prems] obtain parent where
    parent: "node_at (Document nodes) q = Some parent"
    by auto
  from snoc.IH [OF parent] obtain parent_path where
    path: "getXPath (Document nodes) body q = Inr (Some parent_path)"
    by blast
  show ?case
  proof (cases n)
    case (Document children)
    with snoc.prems show ?thesis
      by (simp add: getXPath_other)
  next
    case (CharData k)
    with snoc.prems show ?thesis
      by (simp add: getXPath_other)
  next
    case (Element tag ident control children)
    show ?thesis
    proof (cases control)
      case (Some shown)
      with snoc.prems Element show ?thesis
        by (simp add: getXPath_shadowed)
    next
      case None
      show ?thesis
      proof (cases "ident \<noteq> [] \<or> body = Some (q @ [i])")
        case True
        with snoc.prems Element None show ?thesis
          by (subst getXPath.simps) auto
      next
        case False
        then have "node_at (Document nodes) (q @ [i]) = Some (Element tag [] None children)"
          and "body \<noteq> Some (q @ [i])"
          using snoc.prems Element None by auto
        from getXPath_step [OF this] parent path show ?thesis
          by simp
      qed
    qed
  qed
qed

lemma getXPath_plain:
  assumes n: "node_at (Document nodes) p = Some (Element tag ident None children)"
  shows "\<exists>parent parent_path.
     node_at (Document nodes) (butlast p) = Some parent \<and>
     getXPath (Document nodes) body (butlast p) = Inr (Some parent_path) \<and>
     getXPath (Document nodes) body p =
       (if ident \<noteq> [] then Inr (Some (''//*[@id=\"'' @ ident @ ''\"]''))
        else if body = Some p then Inr (Some (toLowerCase tag))
        else Inr (Some (parent_path @ ''/'' @ toLowerCase tag @ ''['' @
               decimal (1 + preceding_same_tag (childNodes parent) (last p) tag) @
               '']'')))"
proof -
  from n have ne: "p \<noteq> []"
    by auto
  from node_at_parent [OF n ne] obtain parent where
    parent: "node_at (Document nodes) (butlast p) = Some parent"
    by auto
  from getXPath_defined [OF parent] obtain parent_path where
    path: "getXPath (Document nodes) body (butlast p) = Inr (Some parent_path)"
    by blast
  have "getXPath (Document nodes) body p =
       (if ident \<noteq> [] then Inr (Some (''//*[@id=\"'' @ ident @ ''\"]''))
        else if body = Some p then Inr (Some (toLowerCase tag))
        else Inr (Some (parent_path @ ''/'' @ toLowerCase tag @ ''['' @
               decimal (1 + preceding_same_tag (childNodes parent) (last p) tag) @
               '']'')))"
  proof (cases "ident \<noteq> [] \<or> body = Some p")
    case True
    with n show ?thesis
      by (subst getXPath.simps) auto
  next
    case False
    then have "node_at (Document nodes) p = Some (Element tag [] None children)"
      and b: "body \<noteq> Some p"
      using n by auto
    from getXPath_step [OF this ne parent path] False show ?thesis
      by simp
  qed
  with parent path show ?thesis
    by blast
qed

lemma toLowerCase_samples:
  "toLowerCase ''DIV'' = ''div''"
  "toLowerCase [CHR 0xC9, CHR 0xD7, CHR 0xDE, CHR 0xDF] = [CHR 0xE9, CHR 0xD7, CHR 0xFE, CHR 0xDF]"
  by code_simp+

text \<open>
  What the script returns, for every node of a document tree and wherever
  \<open>document.body\<close> is.  For an element whose property \<open>id\<close> is its id attribute:
  \<open>//*[@id="<id>"]\<close> when the id is not empty; otherwise the lower-cased tag name when
  the node is the document body; and otherwise the path synthesized for the parent node
  followed by \<open>/<tag>[k]\<close>, where \<open><tag>\<close> is the lower-cased tag name and \<open>k\<close> is one
  more than the number of preceding siblings that are element nodes with the same tag
  name; the parent's path is always defined.  For a form whose property \<open>id\<close> is a
  control named \<open>id\<close>: the id path written with the text of that control, whatever the
  id attribute is.  For a node that is not an element: \<open>//*[@id="undefined"]\<close>.
\<close>

lemma getXPath_characterized:
  assumes "node_at (Document nodes) p = Some n"
  shows "(\<forall>tag ident children. n = Element tag ident None children \<longrightarrow>
            (\<exists>parent parent_path.
               node_at (Document nodes) (butlast p) = Some parent \<and>
               getXPath (Document nodes) body (butlast p) = Inr (Some parent_path) \<and>
               getXPath (Document nodes) body p =
                 (if ident \<noteq> [] then Inr (Some (''//*[@id=\"'' @ ident @ ''\"]''))
                  else if body = Some p then Inr (Some (toLowerCase tag))
                  else Inr (Some (parent_path @ ''/'' @ toLowerCase tag @ ''['' @
                         decimal (1 + preceding_same_tag (childNodes parent) (last p) tag) @
                         '']''))))) \<and>
         (\<forall>tag ident control children. n = Element tag ident (Some control) children \<longrightarrow>
            getXPath (Document nodes) body p = Inr (Some (''//*[@id=\"'' @ control @ ''\"]''))) \<and>
         (tagName n = None \<longrightarrow>
            getXPath (Document nodes) body p = Inr (Some ''//*[@id=\"undefined\"]''))"
proof (rule conjI)
  show "\<forall>tag ident children. n = Element tag ident None children \<longrightarrow>
            (\<exists>parent parent_path.
               node_at (Document nodes) (butlast p) = Some parent \<and>
               getXPath (Document nodes) body (butlast p) = Inr (Some parent_path) \<and>
               getXPath (Document nodes) body p =
                 (if ident \<noteq> [] then Inr (Some (''//*[@id=\"'' @ ident @ ''\"]''))
                  else if body = Some p then Inr (Some (toLowerCase tag))
                  else Inr (Some (parent_path @ ''/'' @ toLowerCase tag @ ''['' @
                         decimal (1 + preceding_same_tag (childNodes parent) (last p) tag) @
                         '']''))))"
  proof (rule allI, rule allI, rule allI, rule impI)
    fix tag ident children
    assume "n = Element tag ident None children"
    with assms have "node_at (Document nodes) p = Some (Element tag ident None children)"
      by simp
    then show "\<exists>parent parent_path.
               node_at (Document nodes) (butlast p) = Some parent \<and>
               getXPath (Document nodes) body (butlast p) = Inr (Some parent_path) \<and>
               getXPath (Document nodes) body p =
                 (if ident \<noteq> [] then Inr (Some (''//*[@id=\"'' @ ident @ ''\"]''))
                  else if body = Some p then Inr (Some (toLowerCase tag))
                  else Inr (Some (parent_path @ ''/'' @ toLowerCase tag @ ''['' @
                         decimal (1 + preceding_same_tag (childNodes parent) (last p) tag) @
                         '']'')))"
      by (rule getXPath_plain)
  qed
next
  show "(\<forall>tag ident control children. n = Element tag ident (Some control) children \<longrightarrow>
            getXPath (Document nodes) body p = Inr (Some (''//*[@id=\"'' @ control @ ''\"]''))) \<and>
         (tagName n = None \<longrightarrow>
            getXPath (Document nodes) body p = Inr (Some ''//*[@id=\"undefined\"]''))"
    using assms by (auto simp add: getXPath_shadowed getXPath_other)
qed

lemma getXPath_link_example:
  "node_at (Document sample_page) [1, 1, 3, 0] = Some (Element ''A'' [] None []) \<and>
   getXPath (Document sample_page) (Some [1, 1]) [1, 1, 3, 0] = Inr (Some ''body/div[2]/a[1]'')"
proof -
  have n: "node_at (Document sample_page) [1, 1, 3, 0] = Some (Element ''A'' [] None [])"
    by (simp add: sample_page_def)
  have pn: "node_at (Document sample_page) [1, 1, 3] =
      Some (Element ''DIV'' [] None [Element ''A'' [] None []])"
    by (simp add: sample_page_def)
  have pp: "getXPath (Document sample_page) (Some [1, 1]) [1, 1, 3] = Inr (Some ''body/div[2]'')"
    by code_simp
  have bl: "butlast [1, 1, 3, 0 :: nat] = [1, 1, 3]" and la: "last [1, 1, 3, 0 :: nat] = 0"
    by simp_all
  from getXPath_characterized [OF n, of "Some [1, 1]"] obtain parent parent_path where
    a: "node_at (Document sample_page) [1, 1, 3] = Some parent"
    and b: "getXPath (Document sample_page) (Some [1, 1]) [1, 1, 3] = Inr (Some parent_path)"
    and c: "getXPath (Document sample_page) (Some [1, 1]) [1, 1, 3, 0] =
       Inr (Some (parent_path @ ''/'' @ toLowerCase ''A'' @ ''['' @
               decimal (1 + preceding_same_tag (childNodes parent) 0 ''A'') @ '']''))"
    unfolding bl la by auto
  from a pn have parent: "parent = Element ''DIV'' [] None [Element ''A'' [] None []]"
    by simp
  from b pp have parent_path: "parent_path = ''body/div[2]''"
    by simp
  have l: "toLowerCase ''A'' = ''a''"
    by code_simp
  have s: "decimal (Suc 0) = ''1''"
    by (simp add: decimal.simps digit_char_def)
  have "getXPath (Document sample_page) (Some [1, 1]) [1, 1, 3, 0] =
      Inr (Some ''body/div[2]/a[1]'')"
    unfolding c parent parent_path l
    by (simp add: preceding_same_tag_def s)
  with n show ?thesis
    by (rule conjI)
qed

text \<open>
  Claim C2.  The claim fails on a form that has a control named \<open>id\<close>.  The script
  tests and writes the property \<open>element.id\<close>; on such a form the property is the
  control, which is not the empty string, and the template literal writes the control.
  On the page below, the form with the id attribute \<open>f\<close> does not get \<open>//*[@id="f"]\<close>,
  and the path of the control inside it starts with the path of the form.
\<close>

theorem getXPath_shadowed_form:
  "node_at (Document sample_page) [1, 1, 4] =
     Some (Element ''FORM'' ''f'' (Some ''[object HTMLInputElement]'')
             [Element ''INPUT'' [] None []]) \<and>
   getXPath (Document sample_page) (Some [1, 1]) [1, 1, 4] =
     Inr (Some ''//*[@id=\"[object HTMLInputElement]\"]'') \<and>
   getXPath (Document sample_page) (Some [1, 1]) [1, 1, 4] \<noteq> Inr (Some ''//*[@id=\"f\"]'') \<and>
   getXPath (Document sample_page) (Some [1, 1]) [1, 1, 4, 0] =
     Inr (Some ''//*[@id=\"[object HTMLInputElement]\"]/input[1]'')"
  by code_simp

text \<open>
  An element with an id, and an element outside the body: for the latter the walk
  reaches the document node, which has no property \<open>id\<close>, and \<open>undefined !== ''\<close> holds.
\<close>

lemma getXPath_id_example:
  "getXPath (Document sample_page) (Some [1, 1]) [1, 1, 2] = Inr (Some ''//*[@id=\"amt\"]'')"
  by code_simp

lemma getXPath_head_example:
  "getXPath (Document sample_page) (Some [1, 1]) [1, 0] =
     Inr (Some ''//*[@id=\"undefined\"]/html[1]/head[1]'')"
  by code_simp

section \<open>Running the steps\<close>

lemma then_do_expr_Inr: "then_do (do_expr (Inr x)) f log = f x log"
  by (simp add: then_do_def do_expr_def)

lemma then_do_expr_Inl: "then_do (do_expr (Inl e)) f log = (log, Inl e)"
  by (simp add: then_do_def do_expr_def)

lemma then_do_print: "then_do (do_print l) f log = f () (log @ [Printed l])"
  by (simp add: then_do_def do_print_def)

lemma then_do_call:
  "then_do (do_call d c) f log =
     (case performs d log c of
        None \<Rightarrow> f () (log @ [Called c])
      | Some e \<Rightarrow> (log @ [Called c], Inl e))"
  by (simp add: then_do_def do_call_def split: option.splits)

lemma then_do_locate:
  "then_do (do_locate d v) f log =
     (case locates d log v of
        Inr element \<Rightarrow> f element (log @ [Called (WaitForPresence v)])
      | Inl e \<Rightarrow> (log @ [Called (WaitForPresence v)], Inl e))"
  by (simp add: then_do_def do_locate_def split: sum.splits)

lemma then_do_run:
  "then_do (run_steps body items) f log =
     (case run_steps body items log of
        (log1, Inl e) \<Rightarrow> (log1, Inl e)
      | (log1, Inr u) \<Rightarrow> f u log1)"
  by (simp add: then_do_def)

lemma run_steps_append:
  "run_steps body (xs @ ys) log =
     (case run_steps body xs log of
        (log1, Inl e) \<Rightarrow> (log1, Inl e)
      | (log1, Inr u) \<Rightarrow> run_steps body ys log1)"
proof (induction xs arbitrary: log)
  case Nil
  then show ?case by simp
next
  case (Cons x xs)
  show ?case
  proof (cases "body x log")
    case (Pair log1 r)
    then show ?thesis
      using Cons by (cases r) simp_all
  qed
qed

lemma run_steps_raise:
  assumes "i < length items"
    and "run_steps body (take i items) log = (log1, Inr ())"
    and "body (items ! i) log1 = (log2, Inl e)"
  shows "run_steps body items log = (log2, Inl e)"
proof -
  have "items = take i items @ (items ! i) # drop (Suc i) items"
    using assms(1) by (simp add: id_take_nth_drop)
  then have "run_steps body items log =
      run_steps body (take i items @ (items ! i) # drop (Suc i) items) log"
    by simp
  also have "\<dots> = (log2, Inl e)"
    unfolding run_steps_append using assms(2,3) by simp
  finally show ?thesis .
qed

lemma execute_halts:
  assumes steps: "py_getitem test_steps ''steps'' = Inr steps"
    and items: "py_iter steps = Inr items"
    and i: "i < length items"
    and nav: "performs d (log @ [Printed Starting]) (Get url) = None"
    and before: "run_steps body (take i items) (log @ [Printed Starting, Called (Get url)]) =
        (log1, Inr ())"
    and raised: "body (items ! i) log1 = (log2, Inl e)"
  shows "report
       (then_do (do_print Starting) (\<lambda>_.
        then_do (do_call d (Get url)) (\<lambda>_.
        then_do (do_expr (py_getitem test_steps ''steps'')) (\<lambda>steps.
        then_do (do_expr (py_iter steps)) (\<lambda>items.
        then_do (run_steps body items) after)))) log) =
     (log2 @ [Printed (Failed (str_exn e))], (False, ''Test execution failed: '' @ str_exn e))"
proof -
  have "run_steps body items (log @ [Printed Starting, Called (Get url)]) = (log2, Inl e)"
    using i before raised by (rule run_steps_raise)
  then show ?thesis
    unfolding then_do_print then_do_call steps items then_do_expr_Inr then_do_run nav
    by (simp add: report_def)
qed

lemma bare_step_fields:
  "py_getitem (bare_step step_type xpath) ''value'' = Inr (JStr xpath)"
  "py_getitem (bare_step step_type xpath) ''step_type'' = Inr (JStr step_type)"
  "py_getitem (bare_step step_type xpath) ''input_value'' = Inl (Exn KeyError (quoted ''input_value''))"
  by (simp_all add: bare_step_def)

lemma valued_step_fields:
  "py_getitem (valued_step step_type xpath input_value) ''value'' = Inr (JStr xpath)"
  "py_getitem (valued_step step_type xpath input_value) ''step_type'' = Inr (JStr step_type)"
  "py_getitem (valued_step step_type xpath input_value) ''input_value'' = Inr (JStr input_value)"
  by (simp_all add: valued_step_def)

lemma test_case_of_steps:
  "py_getitem (test_case_of steps) ''steps'' = Inr (JArr steps)"
  by (simp add: test_case_of_def)

lemma execute_step_lookup_raises:
  assumes "py_getitem step ''value'' = Inr v" and "locates d log v = Inl e"
  shows "execute_step dispatcher d step log = (log @ [Called (WaitForPresence v)], Inl e)"
  unfolding execute_step_def assms(1) then_do_expr_Inr then_do_locate assms(2)
  by simp

lemma execute_step_click:
  assumes "py_getitem step ''value'' = Inr v"
    and "py_getitem step ''step_type'' = Inr (JStr ''click'')"
    and "locates d log v = Inr element"
    and "performs d (log @ [Called (WaitForPresence v)]) (Click element) = None"
  shows "execute_step dispatch d step log =
     (log @ [Called (WaitForPresence v), Called (Click element), Printed (Clicked v)], Inr ())"
  unfolding execute_step_def dispatch_def assms(1,2) then_do_expr_Inr then_do_locate assms(3)
  by (simp add: then_do_call assms(4) do_print_def)

lemma execute_step_input:
  assumes "py_getitem step ''value'' = Inr v"
    and "py_getitem step ''step_type'' = Inr (JStr ''input'')"
    and "py_getitem step ''input_value'' = Inr input_value"
    and "locates d log v = Inr element"
    and "performs d (log @ [Called (WaitForPresence v)]) (Clear element) = None"
    and "performs d (log @ [Called (WaitForPresence v), Called (Clear element)])
           (SendKeys element input_value) = None"
  shows "execute_step dispatch d step log =
     (log @ [Called (WaitForPresence v), Called (Clear element),
             Called (SendKeys element input_value), Printed (Entered input_value v)], Inr ())"
  unfolding execute_step_def dispatch_def assms(1,2) then_do_expr_Inr then_do_locate assms(4)
  by (simp add: then_do_call assms(3,5,6) then_do_expr_Inr do_print_def)

lemma execute_step_select:
  assumes "py_getitem step ''value'' = Inr v"
    and "py_getitem step ''step_type'' = Inr (JStr ''select'')"
    and "py_getitem step ''input_value'' = Inr input_value"
    and "locates d log v = Inr element"
    and "performs d (log @ [Called (WaitForPresence v)]) (NewSelect element) = None"
    and "performs d (log @ [Called (WaitForPresence v), Called (NewSelect element)])
           (SelectByVisibleText element input_value) = None"
  shows "execute_step dispatch d step log =
     (log @ [Called (WaitForPresence v), Called (NewSelect element),
             Called (SelectByVisibleText element input_value),
             Printed (Selected input_value v)], Inr ())"
  unfolding execute_step_def dispatch_def assms(1,2) then_do_expr_Inr then_do_locate assms(4)
  by (simp add: then_do_call assms(3,5,6) then_do_expr_Inr do_print_def)

lemma execute_step_input_without_value:
  assumes "py_getitem step ''value'' = Inr v"
    and "py_getitem step ''step_type'' = Inr (JStr ''input'')"
    and "py_getitem step ''input_value'' = Inl e"
    and "locates d log v = Inr element"
    and "performs d (log @ [Called (WaitForPresence v)]) (Clear element) = None"
  shows "execute_step dispatch d step log =
     (log @ [Called (WaitForPresence v), Called (Clear element)], Inl e)"
  unfolding execute_step_def dispatch_def assms(1,2) then_do_expr_Inr then_do_locate assms(4)
  by (simp add: then_do_call assms(3,5) then_do_expr_Inl)

lemma execute_step_select_without_value:
  assumes "py_getitem step ''value'' = Inr v"
    and "py_getitem step ''step_type'' = Inr (JStr ''select'')"
    and "py_getitem step ''input_value'' = Inl e"
    and "locates d log v = Inr element"
    and "performs d (log @ [Called (WaitForPresence v)]) (NewSelect element) = None"
  shows "execute_step dispatch d step log =
     (log @ [Called (WaitForPresence v), Called (NewSelect element)], Inl e)"
  unfolding execute_step_def dispatch_def assms(1,2) then_do_expr_Inr then_do_locate assms(4)
  by (simp add: then_do_call assms(3,5) then_do_expr_Inl)

lemma impatient_driver_simps:
  "performs impatient_driver log c = None"
  "locates impatient_driver log (JStr ''//missing'') = Inl (Exn TimeoutException ''Message: '')"
  "locates impatient_driver log (JStr ''//a'') = Inr 0"
  by (simp_all add: impatient_driver_def obliging_driver_def)

lemma obliging_driver_simps:
  "performs obliging_driver log c = None"
  "locates obliging_driver log v = Inr 0"
  by (simp_all add: obliging_driver_def)

lemma run_steps_at:
  assumes "i < length items"
    and "run_steps body (take i items) log = (log1, Inr ())"
  shows "run_steps body items log =
     (case body (items ! i) log1 of
        (log2, Inl e) \<Rightarrow> (log2, Inl e)
      | (log2, Inr u) \<Rightarrow> run_steps body (drop (Suc i) items) log2)"
proof -
  have "items = take i items @ (items ! i) # drop (Suc i) items"
    using assms(1) by (simp add: id_take_nth_drop)
  then have "run_steps body items log =
      run_steps body (take i items @ (items ! i) # drop (Suc i) items) log"
    by simp
  also have "\<dots> = (case body (items ! i) log1 of
        (log2, Inl e) \<Rightarrow> (log2, Inl e)
      | (log2, Inr u) \<Rightarrow> run_steps body (drop (Suc i) items) log2)"
    unfolding run_steps_append using assms(2) by simp
  finally show ?thesis .
qed

lemma execute_by_run:
  assumes variant: "(dispatcher, execute, second) = (dispatch, execute_test, False) \<or>
           (dispatcher, execute, second) = (dispatch_v2, execute_test_v2, True)"
    and steps: "py_getitem test_steps ''steps'' = Inr steps"
    and items: "py_iter steps = Inr items"
    and nav: "performs d (log @ [Printed Starting]) (Get url) = None"
  shows "execute d url test_steps log =
     (case run_steps (execute_step dispatcher d) items (log @ [Printed Starting, Called (Get url)]) of
        (log3, Inl e) \<Rightarrow> failure_report log3 e
      | (log3, Inr u) \<Rightarrow> (log3 @ finale second, (True, ''Test executed successfully'')))"
  using variant
proof
  assume "(dispatcher, execute, second) = (dispatch, execute_test, False)"
  then have v: "dispatcher = dispatch" "execute = execute_test" "second = False"
    by simp_all
  show ?thesis
    unfolding v execute_test_def then_do_print then_do_call steps items then_do_expr_Inr
      then_do_run nav
    by (simp add: report_def failure_report_def finale_def do_print_def
        split: prod.splits sum.splits)
next
  assume "(dispatcher, execute, second) = (dispatch_v2, execute_test_v2, True)"
  then have v: "dispatcher = dispatch_v2" "execute = execute_test_v2" "second = True"
    by simp_all
  show ?thesis
    unfolding v execute_test_v2_def then_do_print then_do_call steps items then_do_expr_Inr
      then_do_run nav
    by (simp add: report_def failure_report_def finale_def do_sleep_def
        split: prod.splits sum.splits)
qed

lemma execute_at:
  assumes variant: "(dispatcher, execute, second) = (dispatch, execute_test, False) \<or>
           (dispatcher, execute, second) = (dispatch_v2, execute_test_v2, True)"
    and steps: "py_getitem test_steps ''steps'' = Inr steps"
    and items: "py_iter steps = Inr items"
    and i: "i < length items"
    and nav: "performs d (log @ [Printed Starting]) (Get url) = None"
    and before: "run_steps (execute_step dispatcher d) (take i items)
           (log @ [Printed Starting, Called (Get url)]) = (log1, Inr ())"
  shows "execute d url test_steps log =
     (case execute_step dispatcher d (items ! i) log1 of
        (log2, Inl e) \<Rightarrow> failure_report log2 e
      | (log2, Inr u) \<Rightarrow>
          (case run_steps (execute_step dispatcher d) (drop (Suc i) items) log2 of
             (log3, Inl e) \<Rightarrow> failure_report log3 e
           | (log3, Inr u) \<Rightarrow> (log3 @ finale second, (True, ''Test executed successfully''))))"
  unfolding execute_by_run [OF variant steps items nav] run_steps_at [OF i before]
  by (simp split: prod.splits sum.splits)

lemma execute_at_raise:
  assumes variant: "(dispatcher, execute, second) = (dispatch, execute_test, False) \<or>
           (dispatcher, execute, second) = (dispatch_v2, execute_test_v2, True)"
    and steps: "py_getitem test_steps ''steps'' = Inr steps"
    and items: "py_iter steps = Inr items"
    and i: "i < length items"
    and nav: "performs d (log @ [Printed Starting]) (Get url) = None"
    and before: "run_steps (execute_step dispatcher d) (take i items)
           (log @ [Printed Starting, Called (Get url)]) = (log1, Inr ())"
    and raised: "execute_step dispatcher d (items ! i) log1 = (log2, Inl e)"
  shows "execute d url test_steps log = failure_report log2 e"
  unfolding execute_at [OF variant steps items i nav before] raised
  by simp

lemma execute_step_found:
  assumes "py_getitem step ''value'' = Inr v" and "locates d log v = Inr element"
  shows "execute_step dispatcher d step log =
     dispatcher d step v element (log @ [Called (WaitForPresence v)])"
  unfolding execute_step_def assms(1) then_do_expr_Inr then_do_locate assms(2)
  by simp

lemma execute_step_without_value:
  assumes "py_getitem step ''value'' = Inl e"
  shows "execute_step dispatcher d step log = (log, Inl e)"
  unfolding execute_step_def assms then_do_expr_Inl
  by simp

lemma step_calls_cases:
  assumes "k < length (step_calls second step element)"
  obtains
      (input0) "py_getitem step ''step_type'' = Inr (JStr ''input'')" "k = 0"
        "step_calls second step element ! k = Clear element"
    | (input1) input_value where "py_getitem step ''step_type'' = Inr (JStr ''input'')"
        "py_getitem step ''input_value'' = Inr input_value" "k = 1"
        "step_calls second step element = [Clear element, SendKeys element input_value]"
    | (click) "py_getitem step ''step_type'' = Inr (JStr ''click'')" "k = 0"
        "step_calls second step element = [Click element]"
    | (select0) "py_getitem step ''step_type'' = Inr (JStr ''select'')" "k = 0"
        "step_calls second step element ! k = NewSelect element"
    | (select1) input_value where "py_getitem step ''step_type'' = Inr (JStr ''select'')"
        "py_getitem step ''input_value'' = Inr input_value" "k = 1"
        "step_calls second step element =
           [NewSelect element, SelectByVisibleText element input_value]"
    | (scroll) "py_getitem step ''step_type'' = Inr (JStr ''scroll'')" "second" "k \<le> 1"
        "step_calls second step element =
           [ExecuteScript ScrollIntoViewScript element, ExecuteScript HighlightScript element]"
proof -
  from assms obtain t where t: "py_getitem step ''step_type'' = Inr t"
    by (cases "py_getitem step ''step_type''") (simp_all add: step_calls_def)
  from assms t consider
      "t = JStr ''input''" | "t = JStr ''click''" | "t = JStr ''select''"
    | "t = JStr ''scroll''" "second" "t \<noteq> JStr ''input''" "t \<noteq> JStr ''click''" "t \<noteq> JStr ''select''"
    by (cases "t = JStr ''input''"; cases "t = JStr ''click''"; cases "t = JStr ''select''";
        cases "second \<and> t = JStr ''scroll''") (simp_all add: step_calls_def)
  then show thesis
  proof cases
    case 1
    show thesis
    proof (cases "py_getitem step ''input_value''")
      case (Inl e)
      with assms t 1 have "k = 0" "step_calls second step element ! k = Clear element"
        by (simp_all add: step_calls_def)
      with t 1 show thesis
        by (intro input0) simp_all
    next
      case (Inr input_value)
      with t 1 have c: "step_calls second step element =
          [Clear element, SendKeys element input_value]"
        by (simp add: step_calls_def)
      with assms have "k = 0 \<or> k = 1"
        by auto
      then show thesis
      proof
        assume "k = 0"
        with t 1 c show thesis
          by (intro input0) simp_all
      next
        assume "k = 1"
        with t 1 c Inr show thesis
          by (intro input1) simp_all
      qed
    qed
  next
    case 2
    with t have c: "step_calls second step element = [Click element]"
      by (simp add: step_calls_def)
    with assms have "k = 0"
      by simp
    with t 2 c show thesis
      by (intro click) simp_all
  next
    case 3
    show thesis
    proof (cases "py_getitem step ''input_value''")
      case (Inl e)
      with assms t 3 have "k = 0" "step_calls second step element ! k = NewSelect element"
        by (simp_all add: step_calls_def)
      with t 3 show thesis
        by (intro select0) simp_all
    next
      case (Inr input_value)
      with t 3 have c: "step_calls second step element =
          [NewSelect element, SelectByVisibleText element input_value]"
        by (simp add: step_calls_def)
      with assms have "k = 0 \<or> k = 1"
        by auto
      then show thesis
      proof
        assume "k = 0"
        with t 3 c show thesis
          by (intro select0) simp_all
      next
        assume "k = 1"
        with t 3 c Inr show thesis
          by (intro select1) simp_all
      qed
    qed
  next
    case 4
    with t have c: "step_calls second step element =
        [ExecuteScript ScrollIntoViewScript element, ExecuteScript HighlightScript element]"
      by (simp add: step_calls_def)
    with assms have "k \<le> 1"
      by simp
    with t 4 c show thesis
      by (intro scroll) simp_all
  qed
qed
lemma dispatch_call_raises:
  assumes k: "k < length (step_calls False step element)"
    and earlier: "calls_return d log (take k (step_calls False step element))"
    and raises: "performs d (log @ map Called (take k (step_calls False step element)))
        (step_calls False step element ! k) = Some e"
  shows "dispatch d step v element log =
     (log @ map Called (take (Suc k) (step_calls False step element)), Inl e)"
  using k
proof (cases rule: step_calls_cases)
  case input0
  with raises show ?thesis
    unfolding take_Suc_conv_app_nth [OF k]
    by (simp add: dispatch_def then_do_expr_Inr then_do_call)
next
  case (input1 input_value)
  with earlier raises show ?thesis
    by (simp add: dispatch_def then_do_expr_Inr then_do_call)
next
  case click
  with raises show ?thesis
    by (simp add: dispatch_def then_do_expr_Inr then_do_call)
next
  case select0
  with raises show ?thesis
    unfolding take_Suc_conv_app_nth [OF k]
    by (simp add: dispatch_def then_do_expr_Inr then_do_call)
next
  case (select1 input_value)
  with earlier raises show ?thesis
    by (simp add: dispatch_def then_do_expr_Inr then_do_call)
next
  case scroll
  then show ?thesis
    by simp
qed

lemma dispatch_v2_call_raises:
  assumes k: "k < length (step_calls True step element)"
    and earlier: "calls_return d log (take k (step_calls True step element))"
    and raises: "performs d (log @ map Called (take k (step_calls True step element)))
        (step_calls True step element ! k) = Some e"
  shows "dispatch_v2 d step v element log =
     (log @ map Called (take (Suc k) (step_calls True step element)), Inl e)"
  using k
proof (cases rule: step_calls_cases)
  case input0
  with raises show ?thesis
    unfolding take_Suc_conv_app_nth [OF k]
    by (simp add: dispatch_v2_def then_do_expr_Inr then_do_call)
next
  case (input1 input_value)
  with earlier raises show ?thesis
    by (simp add: dispatch_v2_def then_do_expr_Inr then_do_call)
next
  case click
  with raises show ?thesis
    by (simp add: dispatch_v2_def then_do_expr_Inr then_do_call)
next
  case select0
  with raises show ?thesis
    unfolding take_Suc_conv_app_nth [OF k]
    by (simp add: dispatch_v2_def then_do_expr_Inr then_do_call)
next
  case (select1 input_value)
  with earlier raises show ?thesis
    by (simp add: dispatch_v2_def then_do_expr_Inr then_do_call)
next
  case scroll
  from scroll(3) have "k = 0 \<or> k = 1"
    by auto
  then show ?thesis
  proof
    assume "k = 0"
    with scroll raises show ?thesis
      by (simp add: dispatch_v2_def then_do_expr_Inr then_do_call)
  next
    assume "k = 1"
    with scroll earlier raises show ?thesis
      by (simp add: dispatch_v2_def then_do_expr_Inr then_do_call)
  qed
qed

lemma execute_step_call_raises:
  assumes variant: "(dispatcher, execute, second) = (dispatch, execute_test, False) \<or>
           (dispatcher, execute, second) = (dispatch_v2, execute_test_v2, True)"
    and v: "py_getitem step ''value'' = Inr v"
    and found: "locates d log v = Inr element"
    and k: "k < length (step_calls second step element)"
    and earlier: "calls_return d (log @ [Called (WaitForPresence v)])
        (take k (step_calls second step element))"
    and raises: "performs d
        (log @ Called (WaitForPresence v) # map Called (take k (step_calls second step element)))
        (step_calls second step element ! k) = Some e"
  shows "execute_step dispatcher d step log =
     (log @ Called (WaitForPresence v) #
        map Called (take (Suc k) (step_calls second step element)), Inl e)"
  using variant
proof
  assume "(dispatcher, execute, second) = (dispatch, execute_test, False)"
  then have s: "dispatcher = dispatch" "second = False"
    by simp_all
  from dispatch_call_raises [of k step element d "log @ [Called (WaitForPresence v)]" e v]
    k earlier raises
  show ?thesis
    unfolding s execute_step_found [OF v found] by simp
next
  assume "(dispatcher, execute, second) = (dispatch_v2, execute_test_v2, True)"
  then have s: "dispatcher = dispatch_v2" "second = True"
    by simp_all
  from dispatch_v2_call_raises [of k step element d "log @ [Called (WaitForPresence v)]" e v]
    k earlier raises
  show ?thesis
    unfolding s execute_step_found [OF v found] by simp
qed

lemma execute_step_without_step_type:
  assumes variant: "(dispatcher, execute, second) = (dispatch, execute_test, False) \<or>
           (dispatcher, execute, second) = (dispatch_v2, execute_test_v2, True)"
    and v: "py_getitem step ''value'' = Inr v"
    and found: "locates d log v = Inr element"
    and missing: "py_getitem step ''step_type'' = Inl e"
  shows "execute_step dispatcher d step log = (log @ [Called (WaitForPresence v)], Inl e)"
  using variant
  unfolding execute_step_found [OF v found]
  by (auto simp add: dispatch_def dispatch_v2_def missing then_do_expr_Inl)

lemma execute_step_without_input_value:
  assumes variant: "(dispatcher, execute, second) = (dispatch, execute_test, False) \<or>
           (dispatcher, execute, second) = (dispatch_v2, execute_test_v2, True)"
    and v: "py_getitem step ''value'' = Inr v"
    and found: "locates d log v = Inr element"
    and t: "py_getitem step ''step_type'' = Inr (JStr ''input'') \<or>
        py_getitem step ''step_type'' = Inr (JStr ''select'')"
    and missing: "py_getitem step ''input_value'' = Inl e"
    and calls: "calls_return d (log @ [Called (WaitForPresence v)])
        (step_calls second step element)"
  shows "execute_step dispatcher d step log =
     (log @ Called (WaitForPresence v) # map Called (step_calls second step element), Inl e)"
proof -
  from variant have d: "dispatcher = dispatch \<or> dispatcher = dispatch_v2"
    by auto
  from t show ?thesis
  proof
    assume t: "py_getitem step ''step_type'' = Inr (JStr ''input'')"
    with missing have c: "step_calls second step element = [Clear element]"
      by (simp add: step_calls_def)
    from calls have "performs d (log @ [Called (WaitForPresence v)]) (Clear element) = None"
      unfolding c by simp
    with d show ?thesis
      unfolding execute_step_found [OF v found] c
      by (auto simp add: dispatch_def dispatch_v2_def t missing then_do_expr_Inr
          then_do_expr_Inl then_do_call)
  next
    assume t: "py_getitem step ''step_type'' = Inr (JStr ''select'')"
    with missing have c: "step_calls second step element = [NewSelect element]"
      by (simp add: step_calls_def)
    from calls have "performs d (log @ [Called (WaitForPresence v)]) (NewSelect element) = None"
      unfolding c by simp
    with d show ?thesis
      unfolding execute_step_found [OF v found] c
      by (auto simp add: dispatch_def dispatch_v2_def t missing then_do_expr_Inr
          then_do_expr_Inl then_do_call)
  qed
qed

lemma has_field_getitem: "has_field step key \<Longrightarrow> py_getitem step key = Inr (field step key)"
  by (simp add: has_field_def field_def split: sum.splits)

lemma dispatch_returns:
  assumes t: "py_getitem step ''step_type'' = Inr step_type"
    and i: "step_type = JStr ''input'' \<or> step_type = JStr ''select'' \<Longrightarrow>
        py_getitem step ''input_value'' = Inr input_value"
    and calls: "calls_return d log (step_calls False step element)"
  shows "dispatch d step v element log =
     (log @ map Called (step_calls False step element) @
            map Printed
              (if step_type = JStr ''input'' then [Entered input_value v]
               else if step_type = JStr ''click'' then [Clicked v]
               else if step_type = JStr ''select'' then [Selected input_value v]
               else []),
      Inr ())"
proof -
  consider (input) "step_type = JStr ''input''" | (click) "step_type = JStr ''click''"
    | (select) "step_type = JStr ''select''"
    | (other) "step_type \<noteq> JStr ''input''" "step_type \<noteq> JStr ''click''"
        "step_type \<noteq> JStr ''select''"
    by blast
  then show ?thesis
  proof cases
    case input
    with i have iv: "py_getitem step ''input_value'' = Inr input_value"
      by simp
    have c: "step_calls False step element = [Clear element, SendKeys element input_value]"
      by (simp add: step_calls_def t input iv)
    from calls have "performs d log (Clear element) = None"
      "performs d (log @ [Called (Clear element)]) (SendKeys element input_value) = None"
      unfolding c by simp_all
    then show ?thesis
      unfolding c by (simp add: dispatch_def t input iv then_do_expr_Inr then_do_call do_print_def)
  next
    case click
    have c: "step_calls False step element = [Click element]"
      by (simp add: step_calls_def t click)
    from calls have "performs d log (Click element) = None"
      unfolding c by simp
    then show ?thesis
      unfolding c by (simp add: dispatch_def t click then_do_expr_Inr then_do_call do_print_def)
  next
    case select
    with i have iv: "py_getitem step ''input_value'' = Inr input_value"
      by simp
    have c: "step_calls False step element =
        [NewSelect element, SelectByVisibleText element input_value]"
      by (simp add: step_calls_def t select iv)
    from calls have "performs d log (NewSelect element) = None"
      "performs d (log @ [Called (NewSelect element)])
         (SelectByVisibleText element input_value) = None"
      unfolding c by simp_all
    then show ?thesis
      unfolding c
      by (simp add: dispatch_def t select iv then_do_expr_Inr then_do_call do_print_def)
  next
    case other
    have c: "step_calls False step element = []"
      by (simp add: step_calls_def t other)
    show ?thesis
      unfolding c by (simp add: dispatch_def t other then_do_expr_Inr do_expr_def)
  qed
qed

lemma dispatch_v2_returns:
  assumes t: "py_getitem step ''step_type'' = Inr step_type"
    and i: "step_type = JStr ''input'' \<or> step_type = JStr ''select'' \<Longrightarrow>
        py_getitem step ''input_value'' = Inr input_value"
    and calls: "calls_return d log (step_calls True step element)"
  shows "dispatch_v2 d step v element log =
     (log @ map Called (step_calls True step element) @
            map Printed
              (if step_type = JStr ''input'' then [Entered input_value v]
               else if step_type = JStr ''click'' then [Clicked v]
               else if step_type = JStr ''select'' then [Selected input_value v]
               else if step_type = JStr ''scroll'' then [Scrolled v]
               else []),
      Inr ())"
proof -
  consider (input) "step_type = JStr ''input''" | (click) "step_type = JStr ''click''"
    | (select) "step_type = JStr ''select''" | (scroll) "step_type = JStr ''scroll''"
    | (other) "step_type \<noteq> JStr ''input''" "step_type \<noteq> JStr ''click''"
        "step_type \<noteq> JStr ''select''" "step_type \<noteq> JStr ''scroll''"
    by blast
  then show ?thesis
  proof cases
    case input
    with i have iv: "py_getitem step ''input_value'' = Inr input_value"
      by simp
    have c: "step_calls True step element = [Clear element, SendKeys element input_value]"
      by (simp add: step_calls_def t input iv)
    from calls have "performs d log (Clear element) = None"
      "performs d (log @ [Called (Clear element)]) (SendKeys element input_value) = None"
      unfolding c by simp_all
    then show ?thesis
      unfolding c
      by (simp add: dispatch_v2_def t input iv then_do_expr_Inr then_do_call do_print_def)
  next
    case click
    have c: "step_calls True step element = [Click element]"
      by (simp add: step_calls_def t click)
    from calls have "performs d log (Click element) = None"
      unfolding c by simp
    then show ?thesis
      unfolding c by (simp add: dispatch_v2_def t click then_do_expr_Inr then_do_call do_print_def)
  next
    case select
    with i have iv: "py_getitem step ''input_value'' = Inr input_value"
      by simp
    have c: "step_calls True step element =
        [NewSelect element, SelectByVisibleText element input_value]"
      by (simp add: step_calls_def t select iv)
    from calls have "performs d log (NewSelect element) = None"
      "performs d (log @ [Called (NewSelect element)])
         (SelectByVisibleText element input_value) = None"
      unfolding c by simp_all
    then show ?thesis
      unfolding c
      by (simp add: dispatch_v2_def t select iv then_do_expr_Inr then_do_call do_print_def)
  next
    case scroll
    have c: "step_calls True step element =
        [ExecuteScript ScrollIntoViewScript element, ExecuteScript HighlightScript element]"
      by (simp add: step_calls_def t scroll)
    from calls have "performs d log (ExecuteScript ScrollIntoViewScript element) = None"
      "performs d (log @ [Called (ExecuteScript ScrollIntoViewScript element)])
         (ExecuteScript HighlightScript element) = None"
      unfolding c by simp_all
    then show ?thesis
      unfolding c
      by (simp add: dispatch_v2_def t scroll then_do_expr_Inr then_do_call do_print_def)
  next
    case other
    have c: "step_calls True step element = []"
      by (simp add: step_calls_def t other)
    show ?thesis
      unfolding c by (simp add: dispatch_v2_def t other then_do_expr_Inr do_expr_def)
  qed
qed

lemma step_returns_runs:
  assumes variant: "(dispatcher, execute, second) = (dispatch, execute_test, False) \<or>
           (dispatcher, execute, second) = (dispatch_v2, execute_test_v2, True)"
    and returns: "step_returns second d step log"
    and found: "locates d log (field step ''value'') = Inr element"
  shows "execute_step dispatcher d step log = (log @ step_events second step element, Inr ())"
proof -
  from returns have v: "py_getitem step ''value'' = Inr (field step ''value'')"
    and t: "py_getitem step ''step_type'' = Inr (field step ''step_type'')"
    by (simp_all add: step_returns_def has_field_getitem)
  from returns have i: "field step ''step_type'' = JStr ''input'' \<or>
      field step ''step_type'' = JStr ''select'' \<Longrightarrow>
      py_getitem step ''input_value'' = Inr (field step ''input_value'')"
    by (auto simp add: step_returns_def has_field_getitem)
  from returns found have calls:
    "calls_return d (log @ [Called (WaitForPresence (field step ''value''))])
       (step_calls second step element)"
    by (simp add: step_returns_def)
  from variant show ?thesis
  proof
    assume "(dispatcher, execute, second) = (dispatch, execute_test, False)"
    then have s: "dispatcher = dispatch" "second = False"
      by simp_all
    note run = dispatch_returns [OF t i calls [unfolded s], of "field step ''value''"]
    show ?thesis
      unfolding s execute_step_found [OF v found]
      using run by (simp add: step_events_def step_lines_def Let_def)
  next
    assume "(dispatcher, execute, second) = (dispatch_v2, execute_test_v2, True)"
    then have s: "dispatcher = dispatch_v2" "second = True"
      by simp_all
    note run = dispatch_v2_returns [OF t i calls [unfolded s], of "field step ''value''"]
    show ?thesis
      unfolding s execute_step_found [OF v found]
      using run by (simp add: step_events_def step_lines_def Let_def)
  qed
qed

lemma steps_return_run:
  assumes variant: "(dispatcher, execute, second) = (dispatch, execute_test, False) \<or>
           (dispatcher, execute, second) = (dispatch_v2, execute_test_v2, True)"
    and returns: "steps_return second d items log"
  shows "run_steps (execute_step dispatcher d) items log =
     (steps_log second d items log, Inr ())"
  using returns
proof (induction items arbitrary: log)
  case Nil
  then show ?case by simp
next
  case (Cons step items)
  from Cons.prems obtain element where
    found: "locates d log (field step ''value'') = Inr element"
    and first: "step_returns second d step log"
    and rest: "steps_return second d items (log @ step_events second step element)"
    by (cases "locates d log (field step ''value'')") simp_all
  from step_returns_runs [OF variant first found] Cons.IH [OF rest] found show ?case
    by simp
qed

lemma steps_log_extends: "\<exists>more. steps_log second d items log = log @ more"
proof (induction items arbitrary: log)
  case Nil
  then show ?case by simp
next
  case (Cons step items)
  show ?case
  proof (cases "locates d log (field step ''value'')")
    case (Inl e)
    then show ?thesis by simp
  next
    case (Inr element)
    from Cons.IH [of "log @ step_events second step element"] obtain more where
      "steps_log second d items (log @ step_events second step element) =
         (log @ step_events second step element) @ more"
      by blast
    with Inr show ?thesis
      by simp
  qed
qed

text \<open>
  Claim C3.  In both variants, for every step list and every index \<open>i\<close>: when the
  navigation and the steps before \<open>i\<close> have returned (each lookup resolved and each call
  returned when it was made), whatever raises in step \<open>i\<close> makes \<open>execute_test\<close> return
  \<open>(False, m)\<close>, where \<open>m\<close> ends with the text of the exception, and nothing is done after
  the call that raised except printing the failure; in particular nothing is done for
  any later step.  This holds when the lookup of the element raises, when the
  \<open>k\<close>-th call that the step type asks for on the element raises after the calls before
  it have returned, and when the step lacks the locator, the step type or the input
  value that is to be read.  What was done for the steps before \<open>i\<close> stays in the log.
\<close>

theorem execute_test_halts_at_failure:
  fixes d :: "'e driver"
  assumes "(execute, second) = (execute_test, False) \<or>
           (execute, second) = (execute_test_v2, True)"
    and "py_getitem test_steps ''steps'' = Inr steps"
    and "py_iter steps = Inr items"
    and "i < length items"
    and "performs d (log @ [Printed Starting]) (Get url) = None"
    and "steps_return second d (take i items) (log @ [Printed Starting, Called (Get url)])"
    and "log1 = steps_log second d (take i items) (log @ [Printed Starting, Called (Get url)])"
  shows "(\<exists>before. log1 = log @ [Printed Starting, Called (Get url)] @ before) \<and>
         (\<forall>e. py_getitem (items ! i) ''value'' = Inl e \<longrightarrow>
            execute d url test_steps log = failure_report log1 e) \<and>
         (\<forall>v e. py_getitem (items ! i) ''value'' = Inr v \<and> locates d log1 v = Inl e \<longrightarrow>
            execute d url test_steps log =
              failure_report (log1 @ [Called (WaitForPresence v)]) e) \<and>
         (\<forall>v element k e.
            py_getitem (items ! i) ''value'' = Inr v \<and> locates d log1 v = Inr element \<and>
            k < length (step_calls second (items ! i) element) \<and>
            calls_return d (log1 @ [Called (WaitForPresence v)])
              (take k (step_calls second (items ! i) element)) \<and>
            performs d
              (log1 @ Called (WaitForPresence v) #
                 map Called (take k (step_calls second (items ! i) element)))
              (step_calls second (items ! i) element ! k) = Some e \<longrightarrow>
            execute d url test_steps log =
              failure_report
                (log1 @ Called (WaitForPresence v) #
                   map Called (take (Suc k) (step_calls second (items ! i) element))) e) \<and>
         (\<forall>v element e.
            py_getitem (items ! i) ''value'' = Inr v \<and> locates d log1 v = Inr element \<and>
            py_getitem (items ! i) ''step_type'' = Inl e \<longrightarrow>
            execute d url test_steps log =
              failure_report (log1 @ [Called (WaitForPresence v)]) e) \<and>
         (\<forall>v element e.
            py_getitem (items ! i) ''value'' = Inr v \<and> locates d log1 v = Inr element \<and>
            (py_getitem (items ! i) ''step_type'' = Inr (JStr ''input'') \<or>
             py_getitem (items ! i) ''step_type'' = Inr (JStr ''select'')) \<and>
            py_getitem (items ! i) ''input_value'' = Inl e \<and>
            calls_return d (log1 @ [Called (WaitForPresence v)])
              (step_calls second (items ! i) element) \<longrightarrow>
            execute d url test_steps log =
              failure_report
                (log1 @ Called (WaitForPresence v) #
                   map Called (step_calls second (items ! i) element)) e)"
proof -
  obtain dispatcher :: "'e driver \<Rightarrow> json \<Rightarrow> json \<Rightarrow> 'e \<Rightarrow> ('e, unit) action" where
    variant: "(dispatcher, execute, second) = (dispatch, execute_test, False) \<or>
      (dispatcher, execute, second) = (dispatch_v2, execute_test_v2, True)"
    using assms(1) by auto
  have before: "run_steps (execute_step dispatcher d) (take i items)
      (log @ [Printed Starting, Called (Get url)]) = (log1, Inr ())"
    unfolding assms(7) by (rule steps_return_run [OF variant assms(6)])
  note raise = execute_at_raise [OF variant assms(2-5) before]
  from steps_log_extends [of second d "take i items" "log @ [Printed Starting, Called (Get url)]"]
  have a: "\<exists>before. log1 = log @ [Printed Starting, Called (Get url)] @ before"
    unfolding assms(7) by simp
  have b: "\<forall>e. py_getitem (items ! i) ''value'' = Inl e \<longrightarrow>
            execute d url test_steps log = failure_report log1 e"
  proof (rule allI, rule impI)
    fix e
    assume "py_getitem (items ! i) ''value'' = Inl e"
    then have "execute_step dispatcher d (items ! i) log1 = (log1, Inl e)"
      by (rule execute_step_without_value)
    then show "execute d url test_steps log = failure_report log1 e"
      by (rule raise)
  qed
  have c: "\<forall>v e. py_getitem (items ! i) ''value'' = Inr v \<and> locates d log1 v = Inl e \<longrightarrow>
            execute d url test_steps log =
              failure_report (log1 @ [Called (WaitForPresence v)]) e"
  proof (rule allI, rule allI, rule impI)
    fix v e
    assume h: "py_getitem (items ! i) ''value'' = Inr v \<and> locates d log1 v = Inl e"
    have "execute_step dispatcher d (items ! i) log1 =
        (log1 @ [Called (WaitForPresence v)], Inl e)"
      using conjunct1 [OF h] conjunct2 [OF h] by (rule execute_step_lookup_raises)
    then show "execute d url test_steps log =
        failure_report (log1 @ [Called (WaitForPresence v)]) e"
      by (rule raise)
  qed
  have d: "\<forall>v element k e.
            py_getitem (items ! i) ''value'' = Inr v \<and> locates d log1 v = Inr element \<and>
            k < length (step_calls second (items ! i) element) \<and>
            calls_return d (log1 @ [Called (WaitForPresence v)])
              (take k (step_calls second (items ! i) element)) \<and>
            performs d
              (log1 @ Called (WaitForPresence v) #
                 map Called (take k (step_calls second (items ! i) element)))
              (step_calls second (items ! i) element ! k) = Some e \<longrightarrow>
            execute d url test_steps log =
              failure_report
                (log1 @ Called (WaitForPresence v) #
                   map Called (take (Suc k) (step_calls second (items ! i) element))) e"
  proof (rule allI, rule allI, rule allI, rule allI, rule impI)
    fix v element k e
    assume h: "py_getitem (items ! i) ''value'' = Inr v \<and> locates d log1 v = Inr element \<and>
            k < length (step_calls second (items ! i) element) \<and>
            calls_return d (log1 @ [Called (WaitForPresence v)])
              (take k (step_calls second (items ! i) element)) \<and>
            performs d
              (log1 @ Called (WaitForPresence v) #
                 map Called (take k (step_calls second (items ! i) element)))
              (step_calls second (items ! i) element ! k) = Some e"
    have "execute_step dispatcher d (items ! i) log1 =
        (log1 @ Called (WaitForPresence v) #
           map Called (take (Suc k) (step_calls second (items ! i) element)), Inl e)"
      using variant conjunct1 [OF h] conjunct1 [OF conjunct2 [OF h]]
        conjunct1 [OF conjunct2 [OF conjunct2 [OF h]]]
        conjunct1 [OF conjunct2 [OF conjunct2 [OF conjunct2 [OF h]]]]
        conjunct2 [OF conjunct2 [OF conjunct2 [OF conjunct2 [OF h]]]]
      by (rule execute_step_call_raises)
    then show "execute d url test_steps log =
              failure_report
                (log1 @ Called (WaitForPresence v) #
                   map Called (take (Suc k) (step_calls second (items ! i) element))) e"
      by (rule raise)
  qed
  have e: "\<forall>v element e.
            py_getitem (items ! i) ''value'' = Inr v \<and> locates d log1 v = Inr element \<and>
            py_getitem (items ! i) ''step_type'' = Inl e \<longrightarrow>
            execute d url test_steps log =
              failure_report (log1 @ [Called (WaitForPresence v)]) e"
  proof (rule allI, rule allI, rule allI, rule impI)
    fix v element e
    assume h: "py_getitem (items ! i) ''value'' = Inr v \<and> locates d log1 v = Inr element \<and>
            py_getitem (items ! i) ''step_type'' = Inl e"
    have "execute_step dispatcher d (items ! i) log1 =
        (log1 @ [Called (WaitForPresence v)], Inl e)"
      using variant conjunct1 [OF h] conjunct1 [OF conjunct2 [OF h]]
        conjunct2 [OF conjunct2 [OF h]]
      by (rule execute_step_without_step_type)
    then show "execute d url test_steps log =
              failure_report (log1 @ [Called (WaitForPresence v)]) e"
      by (rule raise)
  qed
  have f: "\<forall>v element e.
            py_getitem (items ! i) ''value'' = Inr v \<and> locates d log1 v = Inr element \<and>
            (py_getitem (items ! i) ''step_type'' = Inr (JStr ''input'') \<or>
             py_getitem (items ! i) ''step_type'' = Inr (JStr ''select'')) \<and>
            py_getitem (items ! i) ''input_value'' = Inl e \<and>
            calls_return d (log1 @ [Called (WaitForPresence v)])
              (step_calls second (items ! i) element) \<longrightarrow>
            execute d url test_steps log =
              failure_report
                (log1 @ Called (WaitForPresence v) #
                   map Called (step_calls second (items ! i) element)) e"
  proof (rule allI, rule allI, rule allI, rule impI)
    fix v element e
    assume h: "py_getitem (items ! i) ''value'' = Inr v \<and> locates d log1 v = Inr element \<and>
            (py_getitem (items ! i) ''step_type'' = Inr (JStr ''input'') \<or>
             py_getitem (items ! i) ''step_type'' = Inr (JStr ''select'')) \<and>
            py_getitem (items ! i) ''input_value'' = Inl e \<and>
            calls_return d (log1 @ [Called (WaitForPresence v)])
              (step_calls second (items ! i) element)"
    have "execute_step dispatcher d (items ! i) log1 =
        (log1 @ Called (WaitForPresence v) #
           map Called (step_calls second (items ! i) element), Inl e)"
      using variant conjunct1 [OF h] conjunct1 [OF conjunct2 [OF h]]
        conjunct1 [OF conjunct2 [OF conjunct2 [OF h]]]
        conjunct1 [OF conjunct2 [OF conjunct2 [OF conjunct2 [OF h]]]]
        conjunct2 [OF conjunct2 [OF conjunct2 [OF conjunct2 [OF h]]]]
      by (rule execute_step_without_input_value)
    then show "execute d url test_steps log =
              failure_report
                (log1 @ Called (WaitForPresence v) #
                   map Called (step_calls second (items ! i) element)) e"
      by (rule raise)
  qed
  from a b c d e f show ?thesis
    by (intro conjI)
qed

lemma blocked_driver_simps:
  "performs blocked_driver log (Get url) = None"
  "performs blocked_driver log (Clear element) = None"
  "performs blocked_driver log (SendKeys element input_value) = None"
  "performs blocked_driver log (Click element) =
     Some (Exn WebDriverException ''Message: element click intercepted'')"
  "performs blocked_driver log (ExecuteScript ScrollIntoViewScript element) = None"
  "performs blocked_driver log (ExecuteScript HighlightScript element) =
     Some (Exn JavascriptException ''Message: javascript error'')"
  "locates blocked_driver log v = Inr 0"
  by (simp_all add: blocked_driver_def obliging_driver_def)

theorem execute_test_halts_at_failure_witness:
  "execute_test blocked_driver ''https://example.org''
     (test_case_of [valued_step ''input'' ''//input'' ''X'', bare_step ''click'' ''//button'',
                    bare_step ''click'' ''//a''])
     [] =
   ([Printed Starting, Called (Get ''https://example.org''),
     Called (WaitForPresence (JStr ''//input'')), Called (Clear 0),
     Called (SendKeys 0 (JStr ''X'')), Printed (Entered (JStr ''X'') (JStr ''//input'')),
     Called (WaitForPresence (JStr ''//button'')), Called (Click 0),
     Printed (Failed ''Message: element click intercepted'')],
    (False, ''Test execution failed: Message: element click intercepted'')) \<and>
   execute_test_v2 blocked_driver ''https://example.org''
     (test_case_of [bare_step ''scroll'' ''//a'', bare_step ''click'' ''//a''])
     [] =
   ([Printed Starting, Called (Get ''https://example.org''),
     Called (WaitForPresence (JStr ''//a'')), Called (ExecuteScript ScrollIntoViewScript 0),
     Called (ExecuteScript HighlightScript 0),
     Printed (Failed ''Message: javascript error'')],
    (False, ''Test execution failed: Message: javascript error'')) \<and>
   execute_test impatient_driver ''https://example.org''
     (test_case_of [bare_step ''click'' ''//a'', bare_step ''click'' ''//missing'',
                    bare_step ''click'' ''//a''])
     [] =
   ([Printed Starting, Called (Get ''https://example.org''),
     Called (WaitForPresence (JStr ''//a'')), Called (Click 0), Printed (Clicked (JStr ''//a'')),
     Called (WaitForPresence (JStr ''//missing'')), Printed (Failed ''Message: '')],
    (False, ''Test execution failed: Message: ''))"
proof -
  let ?log0 = "[Printed Starting, Called (Get ''https://example.org'')] :: nat event list"
  have v1: "(execute_test, False) = (execute_test, False) \<or>
      (execute_test, False) = (execute_test_v2, True)"
    by simp
  have v2: "(execute_test_v2, True) = (execute_test, False) \<or>
      (execute_test_v2, True) = (execute_test_v2, True)"
    by simp
  have first: "execute_test blocked_driver ''https://example.org''
     (test_case_of [valued_step ''input'' ''//input'' ''X'', bare_step ''click'' ''//button'',
                    bare_step ''click'' ''//a''])
     [] =
   ([Printed Starting, Called (Get ''https://example.org''),
     Called (WaitForPresence (JStr ''//input'')), Called (Clear 0),
     Called (SendKeys 0 (JStr ''X'')), Printed (Entered (JStr ''X'') (JStr ''//input'')),
     Called (WaitForPresence (JStr ''//button'')), Called (Click 0),
     Printed (Failed ''Message: element click intercepted'')],
    (False, ''Test execution failed: Message: element click intercepted''))"
  proof -
    let ?items = "[valued_step ''input'' ''//input'' ''X'', bare_step ''click'' ''//button'',
                   bare_step ''click'' ''//a'']"
    let ?log1 = "?log0 @ [Called (WaitForPresence (JStr ''//input'')), Called (Clear 0),
        Called (SendKeys 0 (JStr ''X'')), Printed (Entered (JStr ''X'') (JStr ''//input''))]"
    have before: "steps_return False blocked_driver (take 1 ?items)
         ([] @ [Printed Starting, Called (Get ''https://example.org'')])"
      by code_simp
    have log1: "?log1 = steps_log False blocked_driver (take 1 ?items)
         ([] @ [Printed Starting, Called (Get ''https://example.org'')])"
      by code_simp
    have i: "py_iter (JArr ?items) = Inr ?items" and l: "1 < length ?items"
      by simp_all
    have nav: "performs blocked_driver ([] @ [Printed Starting]) (Get ''https://example.org'') = None"
      by (rule blocked_driver_simps)
    have calls: "step_calls False (bare_step ''click'' ''//button'') (0 :: nat) = [Click 0]"
      by (simp add: step_calls_def bare_step_fields)
    note facts = execute_test_halts_at_failure [OF v1 test_case_of_steps i l nav before log1]
    note acting = conjunct1 [OF conjunct2 [OF conjunct2 [OF conjunct2 [OF facts]]]]
    show ?thesis
      using acting [rule_format, where v = "JStr ''//button''" and element = 0 and k = 0
          and e = "Exn WebDriverException ''Message: element click intercepted''"]
      by (simp add: calls bare_step_fields blocked_driver_simps failure_report_def)
  qed
  have second: "execute_test_v2 blocked_driver ''https://example.org''
     (test_case_of [bare_step ''scroll'' ''//a'', bare_step ''click'' ''//a''])
     [] =
   ([Printed Starting, Called (Get ''https://example.org''),
     Called (WaitForPresence (JStr ''//a'')), Called (ExecuteScript ScrollIntoViewScript 0),
     Called (ExecuteScript HighlightScript 0),
     Printed (Failed ''Message: javascript error'')],
    (False, ''Test execution failed: Message: javascript error''))"
  proof -
    let ?items = "[bare_step ''scroll'' ''//a'', bare_step ''click'' ''//a'']"
    have before: "steps_return True blocked_driver (take 0 ?items)
         ([] @ [Printed Starting, Called (Get ''https://example.org'')])"
      by simp
    have log1: "?log0 = steps_log True blocked_driver (take 0 ?items)
         ([] @ [Printed Starting, Called (Get ''https://example.org'')])"
      by simp
    have i: "py_iter (JArr ?items) = Inr ?items" and l: "0 < length ?items"
      by simp_all
    have nav: "performs blocked_driver ([] @ [Printed Starting]) (Get ''https://example.org'') = None"
      by (rule blocked_driver_simps)
    have calls: "step_calls True (bare_step ''scroll'' ''//a'') (0 :: nat) =
        [ExecuteScript ScrollIntoViewScript 0, ExecuteScript HighlightScript 0]"
      by (simp add: step_calls_def bare_step_fields)
    note facts = execute_test_halts_at_failure [OF v2 test_case_of_steps i l nav before log1]
    note acting = conjunct1 [OF conjunct2 [OF conjunct2 [OF conjunct2 [OF facts]]]]
    show ?thesis
      using acting [rule_format, where v = "JStr ''//a''" and element = 0 and k = 1
          and e = "Exn JavascriptException ''Message: javascript error''"]
      by (simp add: calls bare_step_fields blocked_driver_simps failure_report_def)
  qed
  have third: "execute_test impatient_driver ''https://example.org''
     (test_case_of [bare_step ''click'' ''//a'', bare_step ''click'' ''//missing'',
                    bare_step ''click'' ''//a''])
     [] =
   ([Printed Starting, Called (Get ''https://example.org''),
     Called (WaitForPresence (JStr ''//a'')), Called (Click 0), Printed (Clicked (JStr ''//a'')),
     Called (WaitForPresence (JStr ''//missing'')), Printed (Failed ''Message: '')],
    (False, ''Test execution failed: Message: ''))"
  proof -
    let ?items = "[bare_step ''click'' ''//a'', bare_step ''click'' ''//missing'',
                   bare_step ''click'' ''//a'']"
    let ?log1 = "?log0 @ [Called (WaitForPresence (JStr ''//a'')), Called (Click 0),
                   Printed (Clicked (JStr ''//a''))]"
    have before: "steps_return False impatient_driver (take 1 ?items)
         ([] @ [Printed Starting, Called (Get ''https://example.org'')])"
      by code_simp
    have log1: "?log1 = steps_log False impatient_driver (take 1 ?items)
         ([] @ [Printed Starting, Called (Get ''https://example.org'')])"
      by code_simp
    have i: "py_iter (JArr ?items) = Inr ?items" and l: "1 < length ?items"
      by simp_all
    have nav: "performs impatient_driver ([] @ [Printed Starting]) (Get ''https://example.org'') = None"
      by (rule impatient_driver_simps)
    note facts = execute_test_halts_at_failure [OF v1 test_case_of_steps i l nav before log1]
    note locating = conjunct1 [OF conjunct2 [OF conjunct2 [OF facts]]]
    show ?thesis
      using locating [rule_format, where v = "JStr ''//missing''"
          and e = "Exn TimeoutException ''Message: ''"]
      by (simp add: bare_step_fields impatient_driver_simps failure_report_def)
  qed
  from first second third show ?thesis
    by (intro conjI)
qed

lemma execute_step_unrecognized:
  assumes "py_getitem step ''value'' = Inr v"
    and "py_getitem step ''step_type'' = Inr step_type"
    and "step_type \<noteq> JStr ''input''" and "step_type \<noteq> JStr ''click''"
    and "step_type \<noteq> JStr ''select''"
  shows "execute_step dispatch d step log =
     (log @ [Called (WaitForPresence v)],
      case locates d log v of Inl e \<Rightarrow> Inl e | Inr element \<Rightarrow> Inr ())"
  unfolding execute_step_def dispatch_def assms(1,2) then_do_expr_Inr then_do_locate
  using assms(3-5) by (simp add: do_expr_def split: sum.splits)

lemma execute_step_unrecognized_v2:
  assumes "py_getitem step ''value'' = Inr v"
    and "py_getitem step ''step_type'' = Inr step_type"
    and "step_type \<noteq> JStr ''input''" and "step_type \<noteq> JStr ''click''"
    and "step_type \<noteq> JStr ''select''" and "step_type \<noteq> JStr ''scroll''"
  shows "execute_step dispatch_v2 d step log =
     (log @ [Called (WaitForPresence v)],
      case locates d log v of Inl e \<Rightarrow> Inl e | Inr element \<Rightarrow> Inr ())"
  unfolding execute_step_def dispatch_v2_def assms(1,2) then_do_expr_Inr then_do_locate
  using assms(3-6) by (simp add: do_expr_def split: sum.splits)

lemma execute_step_only_looks_up:
  assumes variant: "(dispatcher, execute, second) = (dispatch, execute_test, False) \<or>
           (dispatcher, execute, second) = (dispatch_v2, execute_test_v2, True)"
    and v: "py_getitem step ''value'' = Inr v"
    and t: "py_getitem step ''step_type'' = Inr step_type"
    and u: "step_type \<notin> recognized second"
  shows "execute_step dispatcher d step log =
     (log @ [Called (WaitForPresence v)],
      case locates d log v of Inl e \<Rightarrow> Inl e | Inr element \<Rightarrow> Inr ())"
  using variant
proof
  assume "(dispatcher, execute, second) = (dispatch, execute_test, False)"
  then have s: "dispatcher = dispatch" "second = False"
    by simp_all
  from u have "step_type \<noteq> JStr ''input''" "step_type \<noteq> JStr ''click''"
    "step_type \<noteq> JStr ''select''"
    unfolding s recognized_def by auto
  then show ?thesis
    unfolding s by (rule execute_step_unrecognized [OF v t])
next
  assume "(dispatcher, execute, second) = (dispatch_v2, execute_test_v2, True)"
  then have s: "dispatcher = dispatch_v2" "second = True"
    by simp_all
  from u have "step_type \<noteq> JStr ''input''" "step_type \<noteq> JStr ''click''"
    "step_type \<noteq> JStr ''select''" "step_type \<noteq> JStr ''scroll''"
    unfolding s recognized_def by auto
  then show ?thesis
    unfolding s by (rule execute_step_unrecognized_v2 [OF v t])
qed

text \<open>
  Claim C4, as amended.  In both variants, for every step list and every index \<open>i\<close> whose
  step has a locator and a step type outside the recognized set (\<open>input\<close>, \<open>click\<close>,
  \<open>select\<close>, and \<open>scroll\<close> in the second variant), when the navigation and the steps
  before \<open>i\<close> have returned: step \<open>i\<close> does the lookup of its element and nothing else, no
  interaction with the element and no printed line.  When the lookup raises,
  \<open>execute_test\<close> halts and reports the failure.  When the lookup resolves, the loop goes on
  with the steps after \<open>i\<close> from the log with the lookup added, and the result of
  \<open>execute_test\<close> is what these steps give.  The step type has no effect: with any other
  unrecognized step type in its place, \<open>execute_test\<close> does and returns the same.
\<close>

theorem unrecognized_step_type_only_looks_up:
  assumes "(dispatcher, execute, second) = (dispatch, execute_test, False) \<or>
           (dispatcher, execute, second) = (dispatch_v2, execute_test_v2, True)"
    and "py_getitem test_steps ''steps'' = Inr steps"
    and "py_iter steps = Inr items"
    and "i < length items"
    and "performs d (log @ [Printed Starting]) (Get url) = None"
    and "steps_return second d (take i items) (log @ [Printed Starting, Called (Get url)])"
    and "log1 = steps_log second d (take i items) (log @ [Printed Starting, Called (Get url)])"
    and "py_getitem (items ! i) ''value'' = Inr v"
    and "py_getitem (items ! i) ''step_type'' = Inr step_type"
    and "step_type \<notin> recognized second"
  shows "execute_step dispatcher d (items ! i) log1 =
           (log1 @ [Called (WaitForPresence v)],
            case locates d log1 v of Inl e \<Rightarrow> Inl e | Inr element \<Rightarrow> Inr ()) \<and>
         (\<forall>e. locates d log1 v = Inl e \<longrightarrow>
            execute d url test_steps log =
              failure_report (log1 @ [Called (WaitForPresence v)]) e) \<and>
         (\<forall>element. locates d log1 v = Inr element \<longrightarrow>
            run_steps (execute_step dispatcher d) items
              (log @ [Printed Starting, Called (Get url)]) =
            run_steps (execute_step dispatcher d) (drop (Suc i) items)
              (log1 @ [Called (WaitForPresence v)]) \<and>
            execute d url test_steps log =
              (case run_steps (execute_step dispatcher d) (drop (Suc i) items)
                      (log1 @ [Called (WaitForPresence v)]) of
                 (log3, Inl e) \<Rightarrow> failure_report log3 e
               | (log3, Inr u) \<Rightarrow>
                   (log3 @ finale second, (True, ''Test executed successfully'')))) \<and>
         (\<forall>other other_steps step other_type.
            py_getitem other ''steps'' = Inr other_steps \<and>
            py_iter other_steps = Inr (items[i := step]) \<and>
            py_getitem step ''value'' = Inr v \<and>
            py_getitem step ''step_type'' = Inr other_type \<and>
            other_type \<notin> recognized second \<longrightarrow>
            execute d url other log = execute d url test_steps log)"
proof -
  have before: "run_steps (execute_step dispatcher d) (take i items)
      (log @ [Printed Starting, Called (Get url)]) = (log1, Inr ())"
    unfolding assms(7) by (rule steps_return_run [OF assms(1) assms(6)])
  note at = execute_at [OF assms(1-5) before]
  have s: "execute_step dispatcher d (items ! i) log1 =
           (log1 @ [Called (WaitForPresence v)],
            case locates d log1 v of Inl e \<Rightarrow> Inl e | Inr element \<Rightarrow> Inr ())"
    by (rule execute_step_only_looks_up [OF assms(1,8,9,10)])
  have halting: "\<forall>e. locates d log1 v = Inl e \<longrightarrow>
            execute d url test_steps log =
              failure_report (log1 @ [Called (WaitForPresence v)]) e"
    unfolding at s by simp
  have continuing: "\<forall>element. locates d log1 v = Inr element \<longrightarrow>
            run_steps (execute_step dispatcher d) items
              (log @ [Printed Starting, Called (Get url)]) =
            run_steps (execute_step dispatcher d) (drop (Suc i) items)
              (log1 @ [Called (WaitForPresence v)]) \<and>
            execute d url test_steps log =
              (case run_steps (execute_step dispatcher d) (drop (Suc i) items)
                      (log1 @ [Called (WaitForPresence v)]) of
                 (log3, Inl e) \<Rightarrow> failure_report log3 e
               | (log3, Inr u) \<Rightarrow>
                   (log3 @ finale second, (True, ''Test executed successfully'')))"
    unfolding at run_steps_at [OF assms(4) before] s by simp
  have same: "\<forall>other other_steps step other_type.
            py_getitem other ''steps'' = Inr other_steps \<and>
            py_iter other_steps = Inr (items[i := step]) \<and>
            py_getitem step ''value'' = Inr v \<and>
            py_getitem step ''step_type'' = Inr other_type \<and>
            other_type \<notin> recognized second \<longrightarrow>
            execute d url other log = execute d url test_steps log"
  proof (rule allI, rule allI, rule allI, rule allI, rule impI)
    fix other other_steps step other_type
    assume h: "py_getitem other ''steps'' = Inr other_steps \<and>
            py_iter other_steps = Inr (items[i := step]) \<and>
            py_getitem step ''value'' = Inr v \<and>
            py_getitem step ''step_type'' = Inr other_type \<and>
            other_type \<notin> recognized second"
    note o_steps = conjunct1 [OF h]
    note o_items = conjunct1 [OF conjunct2 [OF h]]
    have o_v: "py_getitem (items[i := step] ! i) ''value'' = Inr v"
      using assms(4) conjunct1 [OF conjunct2 [OF conjunct2 [OF h]]] by simp
    have o_t: "py_getitem (items[i := step] ! i) ''step_type'' = Inr other_type"
      using assms(4) conjunct1 [OF conjunct2 [OF conjunct2 [OF conjunct2 [OF h]]]] by simp
    note o_u = conjunct2 [OF conjunct2 [OF conjunct2 [OF conjunct2 [OF h]]]]
    have o_i: "i < length (items[i := step])"
      using assms(4) by simp
    have o_before: "run_steps (execute_step dispatcher d) (take i (items[i := step]))
           (log @ [Printed Starting, Called (Get url)]) = (log1, Inr ())"
      using before by simp
    have o_s: "execute_step dispatcher d (items[i := step] ! i) log1 =
           (log1 @ [Called (WaitForPresence v)],
            case locates d log1 v of Inl e \<Rightarrow> Inl e | Inr element \<Rightarrow> Inr ())"
      by (rule execute_step_only_looks_up [OF assms(1) o_v o_t o_u])
    have o_rest: "drop (Suc i) (items[i := step]) = drop (Suc i) items"
      by simp
    show "execute d url other log = execute d url test_steps log"
      unfolding at execute_at [OF assms(1) o_steps o_items o_i assms(5) o_before] s o_s o_rest
      by (rule refl)
  qed
  from s halting continuing same show ?thesis
    by (intro conjI)
qed

theorem unrecognized_step_type_only_looks_up_witness:
  "execute_test obliging_driver ''https://example.org''
     (test_case_of [bare_step ''hover'' ''//a'', bare_step ''click'' ''//button'']) [] =
   ([Printed Starting, Called (Get ''https://example.org''),
     Called (WaitForPresence (JStr ''//a'')),
     Called (WaitForPresence (JStr ''//button'')), Called (Click 0),
     Printed (Clicked (JStr ''//button'')), Printed Completed],
    (True, ''Test executed successfully'')) \<and>
   execute_test_v2 obliging_driver ''https://example.org''
     (test_case_of [bare_step ''hover'' ''//a'']) [] =
   ([Printed Starting, Called (Get ''https://example.org''),
     Called (WaitForPresence (JStr ''//a'')), Printed CompletedBrowserOpen, Slept 300],
    (True, ''Test executed successfully''))"
proof -
  let ?log0 = "[Printed Starting, Called (Get ''https://example.org'')] :: nat event list"
  have v1: "(dispatch, execute_test, False) = (dispatch, execute_test, False) \<or>
      (dispatch, execute_test, False) = (dispatch_v2, execute_test_v2, True)"
    by simp
  have v2: "(dispatch_v2, execute_test_v2, True) = (dispatch, execute_test, False) \<or>
      (dispatch_v2, execute_test_v2, True) = (dispatch_v2, execute_test_v2, True)"
    by simp
  have nav: "performs obliging_driver ([] @ [Printed Starting]) (Get ''https://example.org'') = None"
    by (rule obliging_driver_simps)
  have first: "execute_test obliging_driver ''https://example.org''
     (test_case_of [bare_step ''hover'' ''//a'', bare_step ''click'' ''//button'']) [] =
   ([Printed Starting, Called (Get ''https://example.org''),
     Called (WaitForPresence (JStr ''//a'')),
     Called (WaitForPresence (JStr ''//button'')), Called (Click 0),
     Printed (Clicked (JStr ''//button'')), Printed Completed],
    (True, ''Test executed successfully''))"
  proof -
    let ?items = "[bare_step ''hover'' ''//a'', bare_step ''click'' ''//button'']"
    have before: "steps_return False obliging_driver (take 0 ?items)
         ([] @ [Printed Starting, Called (Get ''https://example.org'')])"
      by simp
    have log1: "?log0 = steps_log False obliging_driver (take 0 ?items)
         ([] @ [Printed Starting, Called (Get ''https://example.org'')])"
      by simp
    have i: "py_iter (JArr ?items) = Inr ?items" and l: "0 < length ?items"
      by simp_all
    have v: "py_getitem (?items ! 0) ''value'' = Inr (JStr ''//a'')"
      and t: "py_getitem (?items ! 0) ''step_type'' = Inr (JStr ''hover'')"
      by (simp_all add: bare_step_fields)
    have u: "JStr ''hover'' \<notin> recognized False"
      by (simp add: recognized_def)
    have rest: "execute_step dispatch obliging_driver (bare_step ''click'' ''//button'')
        [Printed Starting, Called (Get ''https://example.org''),
         Called (WaitForPresence (JStr ''//a''))] =
        ([Printed Starting, Called (Get ''https://example.org''),
          Called (WaitForPresence (JStr ''//a'')),
          Called (WaitForPresence (JStr ''//button'')), Called (Click 0),
          Printed (Clicked (JStr ''//button''))], Inr ())"
      using execute_step_click [of "bare_step ''click'' ''//button''" "JStr ''//button''"
          obliging_driver "[Printed Starting, Called (Get ''https://example.org''),
         Called (WaitForPresence (JStr ''//a''))]" 0]
      by (simp add: bare_step_fields obliging_driver_simps)
    note facts = unrecognized_step_type_only_looks_up
      [OF v1 test_case_of_steps i l nav before log1 v t u]
    note continuing = conjunct1 [OF conjunct2 [OF conjunct2 [OF facts]]]
    show ?thesis
      using continuing [rule_format, where element = 0]
      by (simp add: obliging_driver_simps rest finale_def)
  qed
  have second: "execute_test_v2 obliging_driver ''https://example.org''
     (test_case_of [bare_step ''hover'' ''//a'']) [] =
   ([Printed Starting, Called (Get ''https://example.org''),
     Called (WaitForPresence (JStr ''//a'')), Printed CompletedBrowserOpen, Slept 300],
    (True, ''Test executed successfully''))"
  proof -
    let ?items = "[bare_step ''hover'' ''//a'']"
    have before: "steps_return True obliging_driver (take 0 ?items)
         ([] @ [Printed Starting, Called (Get ''https://example.org'')])"
      by simp
    have log1: "?log0 = steps_log True obliging_driver (take 0 ?items)
         ([] @ [Printed Starting, Called (Get ''https://example.org'')])"
      by simp
    have i: "py_iter (JArr ?items) = Inr ?items" and l: "0 < length ?items"
      by simp_all
    have v: "py_getitem (?items ! 0) ''value'' = Inr (JStr ''//a'')"
      and t: "py_getitem (?items ! 0) ''step_type'' = Inr (JStr ''hover'')"
      by (simp_all add: bare_step_fields)
    have u: "JStr ''hover'' \<notin> recognized True"
      by (simp add: recognized_def)
    note facts = unrecognized_step_type_only_looks_up
      [OF v2 test_case_of_steps i l nav before log1 v t u]
    note continuing = conjunct1 [OF conjunct2 [OF conjunct2 [OF facts]]]
    show ?thesis
      using continuing [rule_format, where element = 0]
      by (simp add: obliging_driver_simps finale_def)
  qed
  from first second show ?thesis
    by (rule conjI)
qed

text \<open>
  The claim as it is written fails: a step with an unrecognized step type whose element
  is not found raises, and the steps after it are not run.
\<close>

theorem unrecognized_step_type_can_fail:
  "execute_test impatient_driver ''https://example.org''
     (test_case_of [bare_step ''hover'' ''//missing'', bare_step ''click'' ''//a'']) [] =
   ([Printed Starting, Called (Get ''https://example.org''),
     Called (WaitForPresence (JStr ''//missing'')), Printed (Failed ''Message: '')],
    (False, ''Test execution failed: Message: ''))"
proof -
  let ?items = "[bare_step ''hover'' ''//missing'', bare_step ''click'' ''//a'']"
  let ?log0 = "[Printed Starting, Called (Get ''https://example.org'')] :: nat event list"
  have before: "run_steps (execute_step dispatch impatient_driver) (take 0 ?items)
       ([] @ [Printed Starting, Called (Get ''https://example.org'')]) = (?log0, Inr ())"
    by simp
  have raised: "execute_step dispatch impatient_driver (?items ! 0) ?log0 =
      (?log0 @ [Called (WaitForPresence (JStr ''//missing''))],
       Inl (Exn TimeoutException ''Message: ''))"
    using execute_step_lookup_raises [of "bare_step ''hover'' ''//missing''" "JStr ''//missing''"
        impatient_driver ?log0 "Exn TimeoutException ''Message: ''" dispatch]
    by (simp add: bare_step_fields impatient_driver_simps)
  have "execute_test impatient_driver ''https://example.org'' (test_case_of ?items) [] =
      ((?log0 @ [Called (WaitForPresence (JStr ''//missing''))]) @
         [Printed (Failed (str_exn (Exn TimeoutException ''Message: '')))],
       (False, ''Test execution failed: '' @ str_exn (Exn TimeoutException ''Message: '')))"
    unfolding execute_test_def
    by (rule execute_halts [where i = 0 and steps = "JArr ?items" and items = ?items,
          OF test_case_of_steps _ _ _ before raised])
       (simp_all add: impatient_driver_simps)
  then show ?thesis
    by simp
qed

text \<open>
  Claim C8, as amended.  In both variants, for every step list: when the navigation
  returns and, along the run, each step returns (it has a locator and a step type, and
  an input value when its step type is \<open>input\<close> or \<open>select\<close>; its lookup resolves when it
  is made; each call of its interaction returns when it is made), \<open>execute_test\<close> does
  for each step, in the order of the steps, the lookup followed by the interaction of
  its step type (clear then type, click, select by visible text, and the two scripts of
  \<open>scroll\<close> in the second variant) and the line printed, and returns
  \<open>(True, "Test executed successfully")\<close>.  Nothing is asked of lookups and calls that the
  run does not make.
\<close>

theorem execute_test_runs_every_step:
  fixes d :: "'e driver"
  assumes "(execute, second) = (execute_test, False) \<or>
           (execute, second) = (execute_test_v2, True)"
    and "py_getitem test_steps ''steps'' = Inr steps"
    and "py_iter steps = Inr items"
    and "performs d (log @ [Printed Starting]) (Get url) = None"
    and "steps_return second d items (log @ [Printed Starting, Called (Get url)])"
  shows "execute d url test_steps log =
     (steps_log second d items (log @ [Printed Starting, Called (Get url)]) @ finale second,
      (True, ''Test executed successfully''))"
proof -
  obtain dispatcher :: "'e driver \<Rightarrow> json \<Rightarrow> json \<Rightarrow> 'e \<Rightarrow> ('e, unit) action" where
    variant: "(dispatcher, execute, second) = (dispatch, execute_test, False) \<or>
      (dispatcher, execute, second) = (dispatch_v2, execute_test_v2, True)"
    using assms(1) by auto
  show ?thesis
    unfolding execute_by_run [OF variant assms(2-4)] steps_return_run [OF variant assms(5)]
    by simp
qed

theorem execute_test_runs_every_step_witness:
  "locates impatient_driver [] (JStr ''//missing'') = Inl (Exn TimeoutException ''Message: '') \<and>
   execute_test impatient_driver ''https://example.org''
     (test_case_of [bare_step ''click'' ''//input'', valued_step ''input'' ''//input'' ''X'',
                    bare_step ''click'' ''//button'']) [] =
   ([Printed Starting, Called (Get ''https://example.org''),
     Called (WaitForPresence (JStr ''//input'')), Called (Click 0),
     Printed (Clicked (JStr ''//input'')),
     Called (WaitForPresence (JStr ''//input'')), Called (Clear 0),
     Called (SendKeys 0 (JStr ''X'')), Printed (Entered (JStr ''X'') (JStr ''//input'')),
     Called (WaitForPresence (JStr ''//button'')), Called (Click 0),
     Printed (Clicked (JStr ''//button'')),
     Printed Completed],
    (True, ''Test executed successfully'')) \<and>
   execute_test_v2 obliging_driver ''https://example.org''
     (test_case_of [valued_step ''select'' ''//select'' ''Blue'', bare_step ''scroll'' ''//a''])
     [] =
   ([Printed Starting, Called (Get ''https://example.org''),
     Called (WaitForPresence (JStr ''//select'')), Called (NewSelect 0),
     Called (SelectByVisibleText 0 (JStr ''Blue'')),
     Printed (Selected (JStr ''Blue'') (JStr ''//select'')),
     Called (WaitForPresence (JStr ''//a'')), Called (ExecuteScript ScrollIntoViewScript 0),
     Called (ExecuteScript HighlightScript 0), Printed (Scrolled (JStr ''//a'')),
     Printed CompletedBrowserOpen, Slept 300],
    (True, ''Test executed successfully''))"
proof -
  have v1: "(execute_test, False) = (execute_test, False) \<or>
      (execute_test, False) = (execute_test_v2, True)"
    by simp
  have v2: "(execute_test_v2, True) = (execute_test, False) \<or>
      (execute_test_v2, True) = (execute_test_v2, True)"
    by simp
  have first: "execute_test impatient_driver ''https://example.org''
     (test_case_of [bare_step ''click'' ''//input'', valued_step ''input'' ''//input'' ''X'',
                    bare_step ''click'' ''//button'']) [] =
   ([Printed Starting, Called (Get ''https://example.org''),
     Called (WaitForPresence (JStr ''//input'')), Called (Click 0),
     Printed (Clicked (JStr ''//input'')),
     Called (WaitForPresence (JStr ''//input'')), Called (Clear 0),
     Called (SendKeys 0 (JStr ''X'')), Printed (Entered (JStr ''X'') (JStr ''//input'')),
     Called (WaitForPresence (JStr ''//button'')), Called (Click 0),
     Printed (Clicked (JStr ''//button'')),
     Printed Completed],
    (True, ''Test executed successfully''))"
  proof -
    let ?items = "[bare_step ''click'' ''//input'', valued_step ''input'' ''//input'' ''X'',
                   bare_step ''click'' ''//button'']"
    have i: "py_iter (JArr ?items) = Inr ?items"
      by simp
    have nav: "performs impatient_driver ([] @ [Printed Starting])
        (Get ''https://example.org'') = None"
      by (rule impatient_driver_simps)
    have run: "steps_return False impatient_driver ?items
        ([] @ [Printed Starting, Called (Get ''https://example.org'')])"
      by code_simp
    have ended: "steps_log False impatient_driver ?items
        ([] @ [Printed Starting, Called (Get ''https://example.org'')]) @ finale False =
      [Printed Starting, Called (Get ''https://example.org''),
       Called (WaitForPresence (JStr ''//input'')), Called (Click 0),
       Printed (Clicked (JStr ''//input'')),
       Called (WaitForPresence (JStr ''//input'')), Called (Clear 0),
       Called (SendKeys 0 (JStr ''X'')), Printed (Entered (JStr ''X'') (JStr ''//input'')),
       Called (WaitForPresence (JStr ''//button'')), Called (Click 0),
       Printed (Clicked (JStr ''//button'')),
       Printed Completed]"
      by code_simp
    show ?thesis
      unfolding execute_test_runs_every_step [OF v1 test_case_of_steps i nav run] ended
      by (rule refl)
  qed
  have second: "execute_test_v2 obliging_driver ''https://example.org''
     (test_case_of [valued_step ''select'' ''//select'' ''Blue'', bare_step ''scroll'' ''//a''])
     [] =
   ([Printed Starting, Called (Get ''https://example.org''),
     Called (WaitForPresence (JStr ''//select'')), Called (NewSelect 0),
     Called (SelectByVisibleText 0 (JStr ''Blue'')),
     Printed (Selected (JStr ''Blue'') (JStr ''//select'')),
     Called (WaitForPresence (JStr ''//a'')), Called (ExecuteScript ScrollIntoViewScript 0),
     Called (ExecuteScript HighlightScript 0), Printed (Scrolled (JStr ''//a'')),
     Printed CompletedBrowserOpen, Slept 300],
    (True, ''Test executed successfully''))"
  proof -
    let ?items = "[valued_step ''select'' ''//select'' ''Blue'', bare_step ''scroll'' ''//a'']"
    have i: "py_iter (JArr ?items) = Inr ?items"
      by simp
    have nav: "performs obliging_driver ([] @ [Printed Starting])
        (Get ''https://example.org'') = None"
      by (rule obliging_driver_simps)
    have run: "steps_return True obliging_driver ?items
        ([] @ [Printed Starting, Called (Get ''https://example.org'')])"
      by code_simp
    have ended: "steps_log True obliging_driver ?items
        ([] @ [Printed Starting, Called (Get ''https://example.org'')]) @ finale True =
      [Printed Starting, Called (Get ''https://example.org''),
       Called (WaitForPresence (JStr ''//select'')), Called (NewSelect 0),
       Called (SelectByVisibleText 0 (JStr ''Blue'')),
       Printed (Selected (JStr ''Blue'') (JStr ''//select'')),
       Called (WaitForPresence (JStr ''//a'')), Called (ExecuteScript ScrollIntoViewScript 0),
       Called (ExecuteScript HighlightScript 0), Printed (Scrolled (JStr ''//a'')),
       Printed CompletedBrowserOpen, Slept 300]"
      by code_simp
    show ?thesis
      unfolding execute_test_runs_every_step [OF v2 test_case_of_steps i nav run] ended
      by (rule refl)
  qed
  from impatient_driver_simps(2) [of "[]"] first second show ?thesis
    by (intro conjI)
qed

text \<open>
  The claim as it is written fails.  A \<open>select\<close> step whose element is found, in a browser
  where every call returns, fails when the step has no input value.  A \<open>click\<close> step whose
  element is found fails when the click raises.  And when the navigation raises, no
  step is run.
\<close>

theorem execute_test_fails_without_input_value:
  "execute_test obliging_driver ''https://example.org''
     (test_case_of [bare_step ''select'' ''//select'']) [] =
   ([Printed Starting, Called (Get ''https://example.org''),
     Called (WaitForPresence (JStr ''//select'')), Called (NewSelect 0),
     Printed (Failed (quoted ''input_value''))],
    (False, ''Test execution failed: '' @ quoted ''input_value'')) \<and>
   execute_test blocked_driver ''https://example.org''
     (test_case_of [bare_step ''click'' ''//button'']) [] =
   ([Printed Starting, Called (Get ''https://example.org''),
     Called (WaitForPresence (JStr ''//button'')), Called (Click 0),
     Printed (Failed ''Message: element click intercepted'')],
    (False, ''Test execution failed: Message: element click intercepted'')) \<and>
   execute_test offline_driver ''https://example.org''
     (test_case_of [bare_step ''click'' ''//button'']) [] =
   ([Printed Starting, Called (Get ''https://example.org''),
     Printed (Failed ''Message: unknown error'')],
    (False, ''Test execution failed: Message: unknown error''))"
proof -
  let ?log0 = "[Printed Starting, Called (Get ''https://example.org'')] :: nat event list"
  have first: "execute_test obliging_driver ''https://example.org''
     (test_case_of [bare_step ''select'' ''//select'']) [] =
   ([Printed Starting, Called (Get ''https://example.org''),
     Called (WaitForPresence (JStr ''//select'')), Called (NewSelect 0),
     Printed (Failed (quoted ''input_value''))],
    (False, ''Test execution failed: '' @ quoted ''input_value''))"
  proof -
    let ?items = "[bare_step ''select'' ''//select'']"
    have before: "run_steps (execute_step dispatch obliging_driver) (take 0 ?items)
         ([] @ [Printed Starting, Called (Get ''https://example.org'')]) = (?log0, Inr ())"
      by simp
    have raised: "execute_step dispatch obliging_driver (?items ! 0) ?log0 =
        (?log0 @ [Called (WaitForPresence (JStr ''//select'')), Called (NewSelect 0)],
         Inl (Exn KeyError (quoted ''input_value'')))"
      using execute_step_select_without_value [of "bare_step ''select'' ''//select''"
          "JStr ''//select''" "Exn KeyError (quoted ''input_value'')" obliging_driver ?log0 0]
      by (simp add: bare_step_fields obliging_driver_simps)
    have "execute_test obliging_driver ''https://example.org'' (test_case_of ?items) [] =
        ((?log0 @ [Called (WaitForPresence (JStr ''//select'')), Called (NewSelect 0)]) @
           [Printed (Failed (str_exn (Exn KeyError (quoted ''input_value''))))],
         (False, ''Test execution failed: '' @ str_exn (Exn KeyError (quoted ''input_value''))))"
      unfolding execute_test_def
      by (rule execute_halts [where i = 0 and steps = "JArr ?items" and items = ?items,
            OF test_case_of_steps _ _ _ before raised])
         (simp_all add: obliging_driver_simps)
    then show ?thesis
      by simp
  qed
  have second: "execute_test blocked_driver ''https://example.org''
     (test_case_of [bare_step ''click'' ''//button'']) [] =
   ([Printed Starting, Called (Get ''https://example.org''),
     Called (WaitForPresence (JStr ''//button'')), Called (Click 0),
     Printed (Failed ''Message: element click intercepted'')],
    (False, ''Test execution failed: Message: element click intercepted''))"
  proof -
    let ?items = "[bare_step ''click'' ''//button'']"
    let ?e = "Exn WebDriverException ''Message: element click intercepted''"
    have before: "run_steps (execute_step dispatch blocked_driver) (take 0 ?items)
         ([] @ [Printed Starting, Called (Get ''https://example.org'')]) = (?log0, Inr ())"
      by simp
    have raised: "execute_step dispatch blocked_driver (?items ! 0) ?log0 =
        (?log0 @ [Called (WaitForPresence (JStr ''//button'')), Called (Click 0)], Inl ?e)"
      by (simp add: execute_step_def dispatch_def bare_step_fields then_do_expr_Inr
          then_do_locate then_do_call blocked_driver_simps)
    have "execute_test blocked_driver ''https://example.org'' (test_case_of ?items) [] =
        ((?log0 @ [Called (WaitForPresence (JStr ''//button'')), Called (Click 0)]) @
           [Printed (Failed (str_exn ?e))],
         (False, ''Test execution failed: '' @ str_exn ?e))"
      unfolding execute_test_def
      by (rule execute_halts [where i = 0 and steps = "JArr ?items" and items = ?items,
            OF test_case_of_steps _ _ _ before raised])
         (simp_all add: blocked_driver_simps)
    then show ?thesis
      by simp
  qed
  have third: "execute_test offline_driver ''https://example.org''
     (test_case_of [bare_step ''click'' ''//button'']) [] =
   ([Printed Starting, Called (Get ''https://example.org''),
     Printed (Failed ''Message: unknown error'')],
    (False, ''Test execution failed: Message: unknown error''))"
    by (simp add: execute_test_def then_do_print then_do_call offline_driver_def
        obliging_driver_def report_def)
  from first second third show ?thesis
    by (intro conjI)
qed

lemma execute_test_empty:
  assumes "performs d (log @ [Printed Starting]) (Get url) = None"
  shows "execute_test d url (JObj [(''steps'', JArr [])]) log =
           (log @ [Printed Starting, Called (Get url), Printed Completed],
            (True, ''Test executed successfully''))"
    and "execute_test_v2 d url (JObj [(''steps'', JArr [])]) log =
           (log @ [Printed Starting, Called (Get url), Printed CompletedBrowserOpen, Slept 300],
            (True, ''Test executed successfully''))"
proof -
  have g: "py_getitem (JObj [(''steps'', JArr [])]) ''steps'' = Inr (JArr [])"
    by simp
  have i: "py_iter (JArr []) = Inr []"
    by simp
  show "execute_test d url (JObj [(''steps'', JArr [])]) log =
           (log @ [Printed Starting, Called (Get url), Printed Completed],
            (True, ''Test executed successfully''))"
    unfolding execute_test_def then_do_print then_do_call g i then_do_expr_Inr then_do_run assms
    by (simp add: report_def do_print_def)
  show "execute_test_v2 d url (JObj [(''steps'', JArr [])]) log =
           (log @ [Printed Starting, Called (Get url), Printed CompletedBrowserOpen, Slept 300],
            (True, ''Test executed successfully''))"
    unfolding execute_test_v2_def then_do_print then_do_call g i then_do_expr_Inr then_do_run assms
    by (simp add: report_def do_sleep_def)
qed

lemma generate_test_case_empty:
  assumes "post (format_elements_data elements_data) user_prompt = Inr response"
    and "status_code response = 200"
    and "message_content response = Inr (JStr raw)"
    and "loads (clean_content raw) = Inr (JObj [(''steps'', JArr [])])"
  shows "generate_test_case loads post elements_data user_prompt = Inr (JObj [(''steps'', JArr [])])"
proof -
  have m: "map_of [(''steps'', JArr [])] ''steps'' = Some (JArr [])"
    by simp
  have i: "py_iter (JArr []) = Inr []"
    by simp
  have "\<exists>raw members steps items.
         message_content response = Inr (JStr raw) \<and>
         loads (clean_content raw) = Inr (JObj [(''steps'', JArr [])]) \<and>
         JObj [(''steps'', JArr [])] = JObj members \<and> map_of members ''steps'' = Some steps \<and>
         py_iter steps = Inr items \<and>
         (\<forall>step \<in> set items. \<forall>field \<in> set required_fields.
             py_contains field step = Inr True)"
    using assms(3,4) m i by fastforce
  with assms(2) show ?thesis
    unfolding generate_test_case_Inr [where post = post, OF assms(1)] by blast
qed

text \<open>
  Claim C10, as amended.  When the parsed response is \<open>{"steps": []}\<close>, the validation
  passes and \<open>generate_test_case\<close> returns it.  When the initial navigation returns,
  \<open>execute_test\<close> applied to it does the navigation and no lookup or interaction, and
  returns \<open>(True, "Test executed successfully")\<close>; the second variant sleeps before it
  returns.
\<close>

theorem empty_test_case_succeeds:
  "(post (format_elements_data elements_data) user_prompt = Inr response \<and>
    status_code response = 200 \<and> message_content response = Inr (JStr raw) \<and>
    loads (clean_content raw) = Inr (JObj [(''steps'', JArr [])]) \<longrightarrow>
      generate_test_case loads post elements_data user_prompt =
        Inr (JObj [(''steps'', JArr [])])) \<and>
   (performs d (log @ [Printed Starting]) (Get url) = None \<longrightarrow>
      execute_test d url (JObj [(''steps'', JArr [])]) log =
        (log @ [Printed Starting, Called (Get url), Printed Completed],
         (True, ''Test executed successfully'')) \<and>
      execute_test_v2 d url (JObj [(''steps'', JArr [])]) log =
        (log @ [Printed Starting, Called (Get url), Printed CompletedBrowserOpen, Slept 300],
         (True, ''Test executed successfully'')))"
  using generate_test_case_empty [where post = post] execute_test_empty
  by blast

theorem empty_test_case_succeeds_witness:
  "generate_test_case
     (loads_table [(''{\"steps\": []}'', JObj [(''steps'', JArr [])])])
     (\<lambda>description prompt. Inr (chat_response ''{\"steps\": []}''))
     [] ''nothing to do'' =
   Inr (JObj [(''steps'', JArr [])]) \<and>
   execute_test obliging_driver ''https://example.org'' (JObj [(''steps'', JArr [])]) [] =
     ([Printed Starting, Called (Get ''https://example.org''), Printed Completed],
      (True, ''Test executed successfully''))"
proof -
  have c: "clean_content ''{\"steps\": []}'' = ''{\"steps\": []}''"
    by (simp add: clean_content_def strip_def isspace_def startswith_def endswith_def)
  have l: "loads_table [(''{\"steps\": []}'', JObj [(''steps'', JArr [])])]
      (clean_content ''{\"steps\": []}'') = Inr (JObj [(''steps'', JArr [])])"
    unfolding c by (simp add: loads_table_def)
  show ?thesis
    using empty_test_case_succeeds [where post = "\<lambda>description prompt. Inr (chat_response ''{\"steps\": []}'')"
        and elements_data = "[]" and user_prompt = "''nothing to do''"
        and response = "chat_response ''{\"steps\": []}''" and raw = "''{\"steps\": []}''"
        and loads = "loads_table [(''{\"steps\": []}'', JObj [(''steps'', JArr [])])]"
        and d = obliging_driver and log = "[]" and url = "''https://example.org''"]
      l status_code_chat_response message_content_chat_response
    by (simp add: obliging_driver_simps)
qed

text \<open>
  The claim as it is written fails: when the navigation raises, the empty test case is
  reported as failed.
\<close>

theorem empty_test_case_fails_offline:
  "execute_test offline_driver ''https://example.org'' (JObj [(''steps'', JArr [])]) [] =
     ([Printed Starting, Called (Get ''https://example.org''),
       Printed (Failed ''Message: unknown error'')],
      (False, ''Test execution failed: Message: unknown error''))"
  by (simp add: execute_test_def then_do_print then_do_call offline_driver_def
      obliging_driver_def report_def)

lemma generate_test_case_posted:
  assumes "generate_test_case loads post elements_data user_prompt = Inr test_case"
  shows "\<exists>response. post (format_elements_data elements_data) user_prompt = Inr response"
  using assms
  unfolding generate_test_case_def Let_def outer_handler_Inr and_then_Inr
  by blast

lemma py_contains_object_fields:
  assumes "\<forall>field \<in> set required_fields. py_contains field (JObj members) = Inr True"
  shows "set required_fields \<subseteq> fst ` set members"
  using assms by auto

lemma generate_test_case_steps:
  assumes "generate_test_case loads post elements_data user_prompt = Inr test_case"
  shows "\<exists>members steps items.
     test_case = JObj members \<and> map_of members ''steps'' = Some steps \<and>
     py_iter steps = Inr items \<and>
     (\<forall>step \<in> set items. \<forall>field \<in> set required_fields. py_contains field step = Inr True)"
proof -
  from generate_test_case_posted [OF assms] obtain response where
    p: "post (format_elements_data elements_data) user_prompt = Inr response"
    by (rule exE)
  from assms have "status_code response = 200 \<and>
      (\<exists>raw members steps items.
         message_content response = Inr (JStr raw) \<and>
         loads (clean_content raw) = Inr test_case \<and>
         test_case = JObj members \<and> map_of members ''steps'' = Some steps \<and>
         py_iter steps = Inr items \<and>
         (\<forall>step \<in> set items. \<forall>field \<in> set required_fields.
             py_contains field step = Inr True))"
    unfolding generate_test_case_Inr [where post = post, OF p] .
  then show ?thesis
    by (elim conjE exE) (intro exI conjI, assumption+)
qed

text \<open>
  Claim C5, as amended.  Every step of a test case returned by \<open>generate_test_case\<close>
  passes the test \<open>field in step\<close> for \<open>action\<close>, \<open>by\<close>, \<open>value\<close> and \<open>step_type\<close>; a step that
  is a JSON object carries these four fields.  The field \<open>input_value\<close> is not checked:
  when a returned step of type \<open>input\<close> or \<open>select\<close> lacks it, executing the step finds the
  element, clears it (or wraps it as a selection control) and then raises the
  \<open>KeyError\<close> of the missing field.
\<close>

theorem returned_steps_pass_field_test:
  assumes "generate_test_case loads post elements_data user_prompt = Inr test_case"
  shows "\<exists>members steps items.
     test_case = JObj members \<and> map_of members ''steps'' = Some steps \<and>
     py_iter steps = Inr items \<and>
     (\<forall>step \<in> set items.
        (\<forall>field \<in> set required_fields. py_contains field step = Inr True) \<and>
        (\<forall>members. step = JObj members \<longrightarrow> set required_fields \<subseteq> fst ` set members) \<and>
        (\<forall>v e element.
           py_getitem step ''value'' = Inr v \<and>
           py_getitem step ''step_type'' = Inr (JStr ''input'') \<and>
           py_getitem step ''input_value'' = Inl e \<and>
           locates d log v = Inr element \<and>
           performs d (log @ [Called (WaitForPresence v)]) (Clear element) = None \<longrightarrow>
           execute_step dispatch d step log =
             (log @ [Called (WaitForPresence v), Called (Clear element)], Inl e)) \<and>
        (\<forall>v e element.
           py_getitem step ''value'' = Inr v \<and>
           py_getitem step ''step_type'' = Inr (JStr ''select'') \<and>
           py_getitem step ''input_value'' = Inl e \<and>
           locates d log v = Inr element \<and>
           performs d (log @ [Called (WaitForPresence v)]) (NewSelect element) = None \<longrightarrow>
           execute_step dispatch d step log =
             (log @ [Called (WaitForPresence v), Called (NewSelect element)], Inl e)))"
proof -
  from generate_test_case_steps [OF assms] obtain members steps items where
    tc: "test_case = JObj members" and st: "map_of members ''steps'' = Some steps"
    and it: "py_iter steps = Inr items"
    and checked: "\<forall>step \<in> set items. \<forall>field \<in> set required_fields.
        py_contains field step = Inr True"
    by (elim exE conjE)
  show ?thesis
  proof (intro exI conjI ballI allI impI)
    show "test_case = JObj members"
      by (rule tc)
    show "map_of members ''steps'' = Some steps"
      by (rule st)
    show "py_iter steps = Inr items"
      by (rule it)
  next
    fix step field
    assume "step \<in> set items" and "field \<in> set required_fields"
    with checked show "py_contains field step = Inr True"
      by blast
  next
    fix step fields
    assume "step \<in> set items" and obj: "step = JObj fields"
    with checked have "\<forall>field \<in> set required_fields. py_contains field (JObj fields) = Inr True"
      by blast
    then show "set required_fields \<subseteq> fst ` set fields"
      by (rule py_contains_object_fields)
  next
    fix step v e element
    assume "py_getitem step ''value'' = Inr v \<and>
           py_getitem step ''step_type'' = Inr (JStr ''input'') \<and>
           py_getitem step ''input_value'' = Inl e \<and>
           locates d log v = Inr element \<and>
           performs d (log @ [Called (WaitForPresence v)]) (Clear element) = None"
    then show "execute_step dispatch d step log =
             (log @ [Called (WaitForPresence v), Called (Clear element)], Inl e)"
      by (elim conjE) (rule execute_step_input_without_value)
  next
    fix step v e element
    assume "py_getitem step ''value'' = Inr v \<and>
           py_getitem step ''step_type'' = Inr (JStr ''select'') \<and>
           py_getitem step ''input_value'' = Inl e \<and>
           locates d log v = Inr element \<and>
           performs d (log @ [Called (WaitForPresence v)]) (NewSelect element) = None"
    then show "execute_step dispatch d step log =
             (log @ [Called (WaitForPresence v), Called (NewSelect element)], Inl e)"
      by (elim conjE) (rule execute_step_select_without_value)
  qed
qed

lemma clean_input_step_message: "clean_content input_step_message = input_step_message"
  by (simp add: input_step_message_def clean_content_def strip_def isspace_def startswith_def
      endswith_def)

lemma required_fields_in_bare_step:
  "\<forall>field \<in> set required_fields. py_contains field (bare_step step_type xpath) = Inr True"
  by (simp add: required_fields_def bare_step_def)

lemma generate_input_step:
  "generate_test_case
     (loads_table [(input_step_message, test_case_of [bare_step ''input'' ''//input''])])
     (\<lambda>description prompt. Inr (chat_response input_step_message))
     [] ''type an amount'' =
   Inr (test_case_of [bare_step ''input'' ''//input''])"
proof -
  let ?loads = "loads_table [(input_step_message, test_case_of [bare_step ''input'' ''//input''])]"
  have l: "?loads (clean_content input_step_message) =
      Inr (test_case_of [bare_step ''input'' ''//input''])"
    unfolding clean_input_step_message by (simp add: loads_table_def)
  have m: "map_of [(''steps'', JArr [bare_step ''input'' ''//input''])] ''steps'' =
      Some (JArr [bare_step ''input'' ''//input''])"
    by simp
  have i: "py_iter (JArr [bare_step ''input'' ''//input'']) = Inr [bare_step ''input'' ''//input'']"
    by simp
  have c: "\<forall>step \<in> set [bare_step ''input'' ''//input'']. \<forall>field \<in> set required_fields.
      py_contains field step = Inr True"
    using required_fields_in_bare_step by simp
  have "\<exists>raw members steps items.
         message_content (chat_response input_step_message) = Inr (JStr raw) \<and>
         ?loads (clean_content raw) = Inr (test_case_of [bare_step ''input'' ''//input'']) \<and>
         test_case_of [bare_step ''input'' ''//input''] = JObj members \<and>
         map_of members ''steps'' = Some steps \<and>
         py_iter steps = Inr items \<and>
         (\<forall>step \<in> set items. \<forall>field \<in> set required_fields.
             py_contains field step = Inr True)"
    unfolding test_case_of_def
    by (intro exI conjI, rule message_content_chat_response, rule l [unfolded test_case_of_def],
        rule refl, rule m, rule i, rule c)
  then show ?thesis
    unfolding generate_test_case_Inr [where post = "\<lambda>description prompt. Inr (chat_response input_step_message)"
        and response = "chat_response input_step_message", OF refl]
    using status_code_chat_response by (intro conjI)
qed

theorem returned_steps_pass_field_test_witness:
  "generate_test_case
     (loads_table [(input_step_message, test_case_of [bare_step ''input'' ''//input''])])
     (\<lambda>description prompt. Inr (chat_response input_step_message))
     [] ''type an amount'' =
   Inr (test_case_of [bare_step ''input'' ''//input'']) \<and>
   py_contains ''action'' (bare_step ''input'' ''//input'') = Inr True \<and>
   py_contains ''by'' (bare_step ''input'' ''//input'') = Inr True \<and>
   py_contains ''value'' (bare_step ''input'' ''//input'') = Inr True \<and>
   py_contains ''step_type'' (bare_step ''input'' ''//input'') = Inr True \<and>
   execute_step dispatch obliging_driver (bare_step ''input'' ''//input'') [] =
     ([Called (WaitForPresence (JStr ''//input'')), Called (Clear 0)],
      Inl (Exn KeyError (quoted ''input_value'')))"
proof -
  let ?s = "bare_step ''input'' ''//input''"
  from returned_steps_pass_field_test [OF generate_input_step, of obliging_driver "[]"]
  obtain members steps items where
    a: "test_case_of [?s] = JObj members" and b: "map_of members ''steps'' = Some steps"
    and c: "py_iter steps = Inr items"
    and d: "\<forall>step \<in> set items.
        (\<forall>field \<in> set required_fields. py_contains field step = Inr True) \<and>
        (\<forall>members. step = JObj members \<longrightarrow> set required_fields \<subseteq> fst ` set members) \<and>
        (\<forall>v e element.
           py_getitem step ''value'' = Inr v \<and>
           py_getitem step ''step_type'' = Inr (JStr ''input'') \<and>
           py_getitem step ''input_value'' = Inl e \<and>
           locates obliging_driver [] v = Inr element \<and>
           performs obliging_driver ([] @ [Called (WaitForPresence v)]) (Clear element) = None \<longrightarrow>
           execute_step dispatch obliging_driver step [] =
             ([] @ [Called (WaitForPresence v), Called (Clear element)], Inl e)) \<and>
        (\<forall>v e element.
           py_getitem step ''value'' = Inr v \<and>
           py_getitem step ''step_type'' = Inr (JStr ''select'') \<and>
           py_getitem step ''input_value'' = Inl e \<and>
           locates obliging_driver [] v = Inr element \<and>
           performs obliging_driver ([] @ [Called (WaitForPresence v)]) (NewSelect element) = None \<longrightarrow>
           execute_step dispatch obliging_driver step [] =
             ([] @ [Called (WaitForPresence v), Called (NewSelect element)], Inl e))"
    by (elim exE conjE)
  from a have "members = [(''steps'', JArr [?s])]"
    by (simp add: test_case_of_def)
  with b have "steps = JArr [?s]"
    by simp
  with c have "items = [?s]"
    by simp
  then have k: "?s \<in> set items"
    by simp
  note facts = bspec [OF d k]
  have first: "\<forall>field \<in> set required_fields. py_contains field ?s = Inr True"
    by (rule conjunct1 [OF facts])
  have "py_getitem ?s ''value'' = Inr (JStr ''//input'') \<and>
        py_getitem ?s ''step_type'' = Inr (JStr ''input'') \<and>
        py_getitem ?s ''input_value'' = Inl (Exn KeyError (quoted ''input_value'')) \<and>
        locates obliging_driver [] (JStr ''//input'') = Inr 0 \<and>
        performs obliging_driver ([] @ [Called (WaitForPresence (JStr ''//input''))]) (Clear 0) = None"
    by (simp add: bare_step_fields obliging_driver_simps)
  with conjunct1 [OF conjunct2 [OF conjunct2 [OF facts]]]
  have "execute_step dispatch obliging_driver ?s [] =
     ([] @ [Called (WaitForPresence (JStr ''//input'')), Called (Clear 0)],
      Inl (Exn KeyError (quoted ''input_value'')))"
    by blast
  moreover from first have
    "py_contains ''action'' ?s = Inr True" "py_contains ''by'' ?s = Inr True"
    "py_contains ''value'' ?s = Inr True" "py_contains ''step_type'' ?s = Inr True"
    by (simp_all add: required_fields_def)
  ultimately show ?thesis
    using generate_input_step by simp
qed

text \<open>
  The claim as it is written fails: the generator returns an \<open>input\<close> step that has no
  input value, and executing the returned test case fails on the missing field.
\<close>

theorem returned_input_step_without_input_value:
  "generate_test_case
     (loads_table [(input_step_message, test_case_of [bare_step ''input'' ''//input''])])
     (\<lambda>description prompt. Inr (chat_response input_step_message))
     [] ''type an amount'' =
   Inr (test_case_of [bare_step ''input'' ''//input'']) \<and>
   py_contains ''input_value'' (bare_step ''input'' ''//input'') = Inr False \<and>
   execute_test obliging_driver ''https://example.org''
     (test_case_of [bare_step ''input'' ''//input'']) [] =
   ([Printed Starting, Called (Get ''https://example.org''),
     Called (WaitForPresence (JStr ''//input'')), Called (Clear 0),
     Printed (Failed (quoted ''input_value''))],
    (False, ''Test execution failed: '' @ quoted ''input_value''))"
proof -
  let ?items = "[bare_step ''input'' ''//input'']"
  let ?log0 = "[Printed Starting, Called (Get ''https://example.org'')] :: nat event list"
  have absent: "py_contains ''input_value'' (bare_step ''input'' ''//input'') = Inr False"
    by (simp add: bare_step_def)
  have before: "run_steps (execute_step dispatch obliging_driver) (take 0 ?items)
       ([] @ [Printed Starting, Called (Get ''https://example.org'')]) = (?log0, Inr ())"
    by simp
  have raised: "execute_step dispatch obliging_driver (?items ! 0) ?log0 =
      (?log0 @ [Called (WaitForPresence (JStr ''//input'')), Called (Clear 0)],
       Inl (Exn KeyError (quoted ''input_value'')))"
    using execute_step_input_without_value [of "bare_step ''input'' ''//input''"
        "JStr ''//input''" "Exn KeyError (quoted ''input_value'')" obliging_driver ?log0 0]
    by (simp add: bare_step_fields obliging_driver_simps)
  have "execute_test obliging_driver ''https://example.org'' (test_case_of ?items) [] =
      ((?log0 @ [Called (WaitForPresence (JStr ''//input'')), Called (Clear 0)]) @
         [Printed (Failed (str_exn (Exn KeyError (quoted ''input_value''))))],
       (False, ''Test execution failed: '' @ str_exn (Exn KeyError (quoted ''input_value''))))"
    unfolding execute_test_def
    by (rule execute_halts [where i = 0 and steps = "JArr ?items" and items = ?items,
          OF test_case_of_steps _ _ _ before raised])
       (simp_all add: obliging_driver_simps)
  with generate_input_step absent show ?thesis
    by simp
qed

section \<open>The scan of the page\<close>

lemma returned_Inr: "returned r \<Longrightarrow> \<exists>x. r = Inr x"
  by (cases r) (simp_all add: returned_def)

lemma extract_info_by_reads:
  "extract_info d element_type element log =
     (case reads d log (GetAttribute element ''id'') of
        Inl e \<Rightarrow> (log @ [Called (GetAttribute element ''id'')], Inl e)
      | Inr ident \<Rightarrow>
     (case reads d (log @ [Called (GetAttribute element ''id'')])
             (GetAttribute element ''name'') of
        Inl e \<Rightarrow> (log @ [Called (GetAttribute element ''id''),
                           Called (GetAttribute element ''name'')], Inl e)
      | Inr name \<Rightarrow>
     (case reads d (log @ [Called (GetAttribute element ''id''),
                           Called (GetAttribute element ''name'')])
             (GetAttribute element ''class'') of
        Inl e \<Rightarrow> (log @ [Called (GetAttribute element ''id''),
                           Called (GetAttribute element ''name''),
                           Called (GetAttribute element ''class'')], Inl e)
      | Inr class \<Rightarrow>
     (case reads d (log @ [Called (GetAttribute element ''id''),
                           Called (GetAttribute element ''name''),
                           Called (GetAttribute element ''class'')])
             (GetText element) of
        Inl e \<Rightarrow> (log @ [Called (GetAttribute element ''id''),
                           Called (GetAttribute element ''name''),
                           Called (GetAttribute element ''class''),
                           Called (GetText element)], Inl e)
      | Inr first \<Rightarrow>
     (case reads d (log @ [Called (GetAttribute element ''id''),
                           Called (GetAttribute element ''name''),
                           Called (GetAttribute element ''class''),
                           Called (GetText element)])
             (if truthy first then GetText element else GetAttribute element ''value'') of
        Inl e \<Rightarrow> (log @ [Called (GetAttribute element ''id''),
                           Called (GetAttribute element ''name''),
                           Called (GetAttribute element ''class''),
                           Called (GetText element),
                           Called (if truthy first then GetText element
                                   else GetAttribute element ''value'')], Inl e)
      | Inr shown \<Rightarrow>
          (log @ [Called (GetAttribute element ''id''),
                  Called (GetAttribute element ''name''),
                  Called (GetAttribute element ''class''),
                  Called (GetText element),
                  Called (if truthy first then GetText element
                          else GetAttribute element ''value''),
                  Called (ExecuteScript GetXPathScript element)],
           Inr [(''type'', Some element_type), (''id'', ident), (''name'', name),
                (''class'', class), (''text'', shown),
                (''xpath'',
                 value_of (reads d
                   (log @ [Called (GetAttribute element ''id''),
                           Called (GetAttribute element ''name''),
                           Called (GetAttribute element ''class''),
                           Called (GetText element),
                           Called (if truthy first then GetText element
                                   else GetAttribute element ''value'')])
                   (ExecuteScript GetXPathScript element)))]))))))"
  by (simp add: extract_info_def then_do_def do_read_def element_text_def generate_xpath_def
      do_expr_def value_of_def split: sum.splits)

lemma results_node_reads:
  "results d log (node_reads d log element) =
     [reads d log (GetAttribute element ''id''),
      reads d (log @ [Called (GetAttribute element ''id'')]) (GetAttribute element ''name''),
      reads d (log @ [Called (GetAttribute element ''id''),
                      Called (GetAttribute element ''name'')])
        (GetAttribute element ''class''),
      reads d (log @ [Called (GetAttribute element ''id''),
                      Called (GetAttribute element ''name''),
                      Called (GetAttribute element ''class'')])
        (GetText element),
      reads d (log @ [Called (GetAttribute element ''id''),
                      Called (GetAttribute element ''name''),
                      Called (GetAttribute element ''class''),
                      Called (GetText element)])
        (node_reads d log element ! 4)]"
  by (simp add: node_reads_def)

lemma node_reads_simps:
  "length (node_reads d log element) = 5"
  "take 4 (node_reads d log element) =
     [GetAttribute element ''id'', GetAttribute element ''name'',
      GetAttribute element ''class'', GetText element]"
  "node_reads d log element =
     [GetAttribute element ''id'', GetAttribute element ''name'',
      GetAttribute element ''class'', GetText element, node_reads d log element ! 4]"
  by (simp_all add: node_reads_def)

lemma node_reads_last:
  assumes "reads d (log @ [Called (GetAttribute element ''id''),
                      Called (GetAttribute element ''name''),
                      Called (GetAttribute element ''class'')])
        (GetText element) = Inr first"
  shows "node_reads d log element ! 4 =
     (if truthy first then GetText element else GetAttribute element ''value'')"
  using assms by (simp add: node_reads_def value_of_def)

lemma extract_info_readable:
  assumes "list_all returned (results d log (node_reads d log element))"
  shows "extract_info d element_type element log =
     (log @ map Called (node_reads d log element @ [ExecuteScript GetXPathScript element]),
      Inr (node_record d element_type element log))"
proof -
  from assms have
    "returned (reads d log (GetAttribute element ''id''))"
    "returned (reads d (log @ [Called (GetAttribute element ''id'')])
       (GetAttribute element ''name''))"
    "returned (reads d (log @ [Called (GetAttribute element ''id''),
                      Called (GetAttribute element ''name'')])
        (GetAttribute element ''class''))"
    "returned (reads d (log @ [Called (GetAttribute element ''id''),
                      Called (GetAttribute element ''name''),
                      Called (GetAttribute element ''class'')])
        (GetText element))"
    "returned (reads d (log @ [Called (GetAttribute element ''id''),
                      Called (GetAttribute element ''name''),
                      Called (GetAttribute element ''class''),
                      Called (GetText element)])
        (node_reads d log element ! 4))"
    unfolding results_node_reads by simp_all
  then obtain ident name cls first shown where
    1: "reads d log (GetAttribute element ''id'') = Inr ident"
    and 2: "reads d (log @ [Called (GetAttribute element ''id'')])
       (GetAttribute element ''name'') = Inr name"
    and 3: "reads d (log @ [Called (GetAttribute element ''id''),
                      Called (GetAttribute element ''name'')])
        (GetAttribute element ''class'') = Inr cls"
    and 4: "reads d (log @ [Called (GetAttribute element ''id''),
                      Called (GetAttribute element ''name''),
                      Called (GetAttribute element ''class'')])
        (GetText element) = Inr first"
    and 5: "reads d (log @ [Called (GetAttribute element ''id''),
                      Called (GetAttribute element ''name''),
                      Called (GetAttribute element ''class''),
                      Called (GetText element)])
        (node_reads d log element ! 4) = Inr shown"
    by (metis returned_Inr)
  note last = node_reads_last [OF 4]
  have r: "results d log (node_reads d log element @ [ExecuteScript GetXPathScript element]) =
      [Inr ident, Inr name, Inr cls, Inr first, Inr shown,
       reads d (log @ [Called (GetAttribute element ''id''),
                      Called (GetAttribute element ''name''),
                      Called (GetAttribute element ''class''),
                      Called (GetText element),
                      Called (node_reads d log element ! 4)])
         (ExecuteScript GetXPathScript element)]"
    by (subst node_reads_simps(3)) (simp add: 1 2 3 4 5)
  have m: "map Called (node_reads d log element @ [ExecuteScript GetXPathScript element]) =
      [Called (GetAttribute element ''id''), Called (GetAttribute element ''name''),
       Called (GetAttribute element ''class''), Called (GetText element),
       Called (node_reads d log element ! 4), Called (ExecuteScript GetXPathScript element)]"
    by (subst node_reads_simps(3)) simp
  show ?thesis
    unfolding extract_info_by_reads node_record_def r m Let_def
    using 5 by (simp add: 1 2 3 4 last [symmetric] value_of_def)
qed

lemma extract_info_read_raises:
  assumes k: "k < length (node_reads d log element)"
    and earlier: "list_all returned (take k (results d log (node_reads d log element)))"
    and raises: "results d log (node_reads d log element) ! k = Inl e"
  shows "extract_info d element_type element log =
     (log @ map Called (take (Suc k) (node_reads d log element)), Inl e)"
proof -
  from k consider "k = 0" | "k = 1" | "k = 2" | "k = 3" | "k = 4"
    unfolding node_reads_simps(1) by linarith
  then show ?thesis
  proof cases
    case 1
    with raises have "reads d log (GetAttribute element ''id'') = Inl e"
      unfolding results_node_reads by simp
    then show ?thesis
      unfolding extract_info_by_reads 1 by (subst node_reads_simps(3)) simp
  next
    case 2
    with earlier raises obtain ident where
      "reads d log (GetAttribute element ''id'') = Inr ident"
      "reads d (log @ [Called (GetAttribute element ''id'')])
         (GetAttribute element ''name'') = Inl e"
      unfolding results_node_reads by (auto dest!: returned_Inr)
    then show ?thesis
      unfolding extract_info_by_reads 2 by (subst node_reads_simps(3)) simp
  next
    case 3
    have t: "take 2 (results d log (node_reads d log element)) =
        [reads d log (GetAttribute element ''id''),
         reads d (log @ [Called (GetAttribute element ''id'')]) (GetAttribute element ''name'')]"
      unfolding results_node_reads by simp
    from earlier raises obtain ident name where
      "reads d log (GetAttribute element ''id'') = Inr ident"
      "reads d (log @ [Called (GetAttribute element ''id'')])
         (GetAttribute element ''name'') = Inr name"
      "reads d (log @ [Called (GetAttribute element ''id''),
                      Called (GetAttribute element ''name'')])
        (GetAttribute element ''class'') = Inl e"
      unfolding 3 t unfolding results_node_reads by (auto dest!: returned_Inr)
    then show ?thesis
      unfolding extract_info_by_reads 3 by (subst node_reads_simps(3)) simp
  next
    case 4
    have t: "take 3 (results d log (node_reads d log element)) =
        [reads d log (GetAttribute element ''id''),
         reads d (log @ [Called (GetAttribute element ''id'')]) (GetAttribute element ''name''),
         reads d (log @ [Called (GetAttribute element ''id''),
                      Called (GetAttribute element ''name'')])
           (GetAttribute element ''class'')]"
      unfolding results_node_reads by simp
    from earlier raises obtain ident name cls where
      "reads d log (GetAttribute element ''id'') = Inr ident"
      "reads d (log @ [Called (GetAttribute element ''id'')])
         (GetAttribute element ''name'') = Inr name"
      "reads d (log @ [Called (GetAttribute element ''id''),
                      Called (GetAttribute element ''name'')])
        (GetAttribute element ''class'') = Inr cls"
      "reads d (log @ [Called (GetAttribute element ''id''),
                      Called (GetAttribute element ''name''),
                      Called (GetAttribute element ''class'')])
        (GetText element) = Inl e"
      unfolding 4 t unfolding results_node_reads by (auto dest!: returned_Inr)
    then show ?thesis
      unfolding extract_info_by_reads 4 by (subst node_reads_simps(3)) simp
  next
    case 5
    have t: "take 4 (results d log (node_reads d log element)) =
        [reads d log (GetAttribute element ''id''),
         reads d (log @ [Called (GetAttribute element ''id'')]) (GetAttribute element ''name''),
         reads d (log @ [Called (GetAttribute element ''id''),
                      Called (GetAttribute element ''name'')])
           (GetAttribute element ''class''),
         reads d (log @ [Called (GetAttribute element ''id''),
                      Called (GetAttribute element ''name''),
                      Called (GetAttribute element ''class'')])
           (GetText element)]"
      unfolding results_node_reads by simp
    from earlier raises obtain ident name cls first where
      r: "reads d log (GetAttribute element ''id'') = Inr ident"
      "reads d (log @ [Called (GetAttribute element ''id'')])
         (GetAttribute element ''name'') = Inr name"
      "reads d (log @ [Called (GetAttribute element ''id''),
                      Called (GetAttribute element ''name'')])
        (GetAttribute element ''class'') = Inr cls"
      and f4: "reads d (log @ [Called (GetAttribute element ''id''),
                      Called (GetAttribute element ''name''),
                      Called (GetAttribute element ''class'')])
        (GetText element) = Inr first"
      and f5: "reads d (log @ [Called (GetAttribute element ''id''),
                      Called (GetAttribute element ''name''),
                      Called (GetAttribute element ''class''),
                      Called (GetText element)])
        (node_reads d log element ! 4) = Inl e"
      unfolding 5 t unfolding results_node_reads by (auto dest!: returned_Inr)
    note last = node_reads_last [OF f4]
    have m: "take (Suc 4) (node_reads d log element) =
        [GetAttribute element ''id'', GetAttribute element ''name'',
         GetAttribute element ''class'', GetText element, node_reads d log element ! 4]"
      by (subst node_reads_simps(3)) simp
    show ?thesis
      unfolding extract_info_by_reads 5 m
      using f5 by (simp add: r f4 last [symmetric])
  qed
qed

lemma results_append:
  "results d log (xs @ ys) = results d log xs @ results d (log @ map Called xs) ys"
  by (induction xs arbitrary: log) simp_all

lemma length_results: "length (results d log calls) = length calls"
  by (induction calls arbitrary: log) simp_all

lemma node_record_xpath:
  "map_of (node_record d element_type element log) ''xpath'' =
     Some (value_of (reads d (log @ map Called (node_reads d log element))
                       (ExecuteScript GetXPathScript element)))"
proof -
  have "results d log (node_reads d log element @ [ExecuteScript GetXPathScript element]) ! 5 =
      reads d (log @ map Called (node_reads d log element))
        (ExecuteScript GetXPathScript element)"
    unfolding results_append
    by (simp add: nth_append length_results node_reads_simps(1))
  then show ?thesis
    by (simp add: node_record_def Let_def)
qed

lemma node_record_xpath_null:
  assumes "reads d (log @ map Called (node_reads d log element))
      (ExecuteScript GetXPathScript element) = Inl e"
  shows "map_of (node_record d element_type element log) ''xpath'' = Some None"
  unfolding node_record_xpath assms by (simp add: value_of_def)

lemma length_node_records: "length (node_records d element_type elements log) = length elements"
  by (induction elements arbitrary: log) simp_all

lemma node_records_nth:
  "n < length elements \<Longrightarrow>
     node_records d element_type elements log ! n =
       node_record d element_type (elements ! n)
         (nodes_log d element_type (take n elements) log)"
proof (induction elements arbitrary: n log)
  case Nil
  then show ?case by simp
next
  case (Cons element elements)
  then show ?case
    by (cases n) simp_all
qed

lemma nodes_log_append:
  "nodes_log d element_type (xs @ ys) log =
     nodes_log d element_type ys (nodes_log d element_type xs log)"
  by (induction xs arbitrary: log) simp_all

lemma scan_elements_append:
  "scan_elements d element_type (xs @ ys) data log =
     (case scan_elements d element_type xs data log of
        (log1, Inl e) \<Rightarrow> (log1, Inl e)
      | (log1, Inr data1) \<Rightarrow> scan_elements d element_type ys data1 log1)"
proof (induction xs arbitrary: data log)
  case Nil
  then show ?case by simp
next
  case (Cons x xs)
  show ?case
  proof (cases "extract_info d element_type x log")
    case (Pair log1 r)
    then show ?thesis
      using Cons by (cases r) simp_all
  qed
qed

lemma scan_elements_readable:
  assumes "nodes_readable d element_type elements log"
  shows "scan_elements d element_type elements data log =
     (nodes_log d element_type elements log,
      Inr (foldl (\<lambda>acc info. dict_append element_type info acc) data
             (node_records d element_type elements log)))"
  using assms
proof (induction elements arbitrary: data log)
  case Nil
  then show ?case by simp
next
  case (Cons element elements)
  from Cons.prems have r: "list_all returned (results d log (node_reads d log element))"
    and rest: "nodes_readable d element_type elements
        (log @ node_events d element_type element log)"
    by simp_all
  have l: "(log @ map Called (node_reads d log element @ [ExecuteScript GetXPathScript element])) @
      [Printed (Found element_type (node_record d element_type element log))] =
      log @ node_events d element_type element log"
    by (simp add: node_events_def)
  show ?case
    unfolding scan_elements.simps extract_info_readable [OF r] prod.case sum.case l
      Cons.IH [OF rest]
    by simp
qed

lemma scan_elements_read_raises:
  assumes n: "n < length elements"
    and before: "nodes_readable d element_type (take n elements) log"
    and k: "k < length (node_reads d (nodes_log d element_type (take n elements) log)
                          (elements ! n))"
    and earlier: "list_all returned
        (take k (results d (nodes_log d element_type (take n elements) log)
                   (node_reads d (nodes_log d element_type (take n elements) log)
                      (elements ! n))))"
    and raises: "results d (nodes_log d element_type (take n elements) log)
        (node_reads d (nodes_log d element_type (take n elements) log) (elements ! n)) ! k =
        Inl e"
  shows "scan_elements d element_type elements data log =
     (nodes_log d element_type (take n elements) log @
        map Called (take (Suc k)
          (node_reads d (nodes_log d element_type (take n elements) log) (elements ! n))),
      Inl e)"
proof -
  have "elements = take n elements @ (elements ! n) # drop (Suc n) elements"
    using n by (simp add: id_take_nth_drop)
  then have "scan_elements d element_type elements data log =
      scan_elements d element_type (take n elements @ (elements ! n) # drop (Suc n) elements)
        data log"
    by simp
  also have "\<dots> =
     (nodes_log d element_type (take n elements) log @
        map Called (take (Suc k)
          (node_reads d (nodes_log d element_type (take n elements) log) (elements ! n))),
      Inl e)"
    unfolding scan_elements_append scan_elements_readable [OF before] prod.case sum.case
      scan_elements.simps extract_info_read_raises [OF k earlier raises]
    by simp
  finally show ?thesis .
qed

lemma dict_append_set:
  "dict_append k x (dict_set k xs data) = dict_set k (xs @ [x]) data"
  by (induction data) auto

lemma foldl_dict_append_set:
  "foldl (\<lambda>acc info. dict_append k info acc) (dict_set k xs data) infos =
     dict_set k (xs @ infos) data"
  by (induction infos arbitrary: xs) (simp_all add: dict_append_set)

lemma scan_types_append:
  "scan_types d (xs @ ys) data log =
     (case scan_types d xs data log of
        (log1, Inl e) \<Rightarrow> (log1, Inl e)
      | (log1, Inr data1) \<Rightarrow> scan_types d ys data1 log1)"
proof (induction xs arbitrary: data log)
  case Nil
  then show ?case by simp
next
  case (Cons x xs)
  obtain element_type xpath where x: "x = (element_type, xpath)"
    by (cases x)
  show ?case
  proof (cases "do_find d xpath (log @ [Printed (LookingFor element_type)])")
    case (Pair log1 r)
    show ?thesis
    proof (cases r)
      case (Inl e)
      with Pair show ?thesis
        by (simp add: x)
    next
      case (Inr elements)
      show ?thesis
      proof (cases "scan_elements d element_type elements (dict_set element_type [] data) log1")
        case scanned: (Pair log2 r2)
        then show ?thesis
          using Pair Inr Cons by (cases r2) (simp_all add: x)
      qed
    qed
  qed
qed

lemma scan_types_scannable:
  assumes "scannable d types log"
  shows "scan_types d types data log =
     (types_log d types log, Inr (with_inventory data (inventory d types log)))"
  using assms
proof (induction types arbitrary: data log)
  case Nil
  then show ?case by (simp add: with_inventory_def)
next
  case (Cons entry types)
  obtain element_type xpath where entry: "entry = (element_type, xpath)"
    by (cases entry)
  define elements where
    "elements = found d (log @ [Printed (LookingFor element_type)]) xpath"
  define log1 where
    "log1 = log @ [Printed (LookingFor element_type), Called (FindElements xpath)]"
  from Cons.prems have f: "returned (finds d (log @ [Printed (LookingFor element_type)]) xpath)"
    and r: "nodes_readable d element_type elements log1"
    and rest: "scannable d types (nodes_log d element_type elements log1)"
    unfolding entry elements_def log1_def by simp_all
  from returned_Inr [OF f] have
    found: "finds d (log @ [Printed (LookingFor element_type)]) xpath = Inr elements"
    unfolding elements_def found_def by auto
  have find: "do_find d xpath (log @ [Printed (LookingFor element_type)]) = (log1, Inr elements)"
    by (simp add: do_find_def found log1_def)
  have "scan_types d ((element_type, xpath) # types) data log =
      (types_log d types (nodes_log d element_type elements log1),
       Inr (with_inventory (dict_set element_type (node_records d element_type elements log1) data)
              (inventory d types (nodes_log d element_type elements log1))))"
    unfolding scan_types.simps find prod.case sum.case scan_elements_readable [OF r]
      foldl_dict_append_set Cons.IH [OF rest]
    by simp
  then show ?case
    unfolding entry by (simp add: with_inventory_def elements_def log1_def)
qed

lemma types_log_append:
  "types_log d (xs @ ys) log = types_log d ys (types_log d xs log)"
  by (induction xs arbitrary: log) auto

lemma scan_types_read_raises:
  assumes j: "j < length types"
    and types_before: "scannable d (take j types) log"
    and entry: "types ! j = (element_type, xpath)"
    and log_j: "log_j = types_log d (take j types) log"
    and finds: "finds d (log_j @ [Printed (LookingFor element_type)]) xpath = Inr elements"
    and n: "n < length elements"
    and log_n: "log_n = nodes_log d element_type (take n elements)
        (log_j @ [Printed (LookingFor element_type), Called (FindElements xpath)])"
    and nodes_before: "nodes_readable d element_type (take n elements)
        (log_j @ [Printed (LookingFor element_type), Called (FindElements xpath)])"
    and k: "k < length (node_reads d log_n (elements ! n))"
    and earlier: "list_all returned (take k (results d log_n (node_reads d log_n (elements ! n))))"
    and raises: "results d log_n (node_reads d log_n (elements ! n)) ! k = Inl e"
  shows "scan_types d types data log =
     (log_n @ map Called (take (Suc k) (node_reads d log_n (elements ! n))), Inl e)"
proof -
  have find: "do_find d xpath (log_j @ [Printed (LookingFor element_type)]) =
      (log_j @ [Printed (LookingFor element_type), Called (FindElements xpath)], Inr elements)"
    by (simp add: do_find_def finds)
  have "types = take j types @ (element_type, xpath) # drop (Suc j) types"
    using id_take_nth_drop [OF j] unfolding entry .
  then have "scan_types d types data log =
      scan_types d (take j types @ (element_type, xpath) # drop (Suc j) types) data log"
    by simp
  also have "\<dots> = (log_n @ map Called (take (Suc k) (node_reads d log_n (elements ! n))), Inl e)"
    unfolding scan_types_append scan_types_scannable [OF types_before] prod.case sum.case
      scan_types.simps log_j [symmetric] find
      scan_elements_read_raises [OF n nodes_before k [unfolded log_n] earlier [unfolded log_n]
        raises [unfolded log_n]]
      log_n [symmetric]
    by simp
  finally show ?thesis .
qed

lemma detect_elements_by_scan:
  assumes "page_opens d url log"
  shows "detect_elements d url data log =
     (case scan_types d element_types data (page_log d url log) of
        (log1, Inl e) \<Rightarrow> (log1 @ [Printed (DetectionError (str_exn e))], Inl e)
      | (log1, Inr data1) \<Rightarrow> (log1, Inr data1))"
proof (cases "performs d (log @ [Printed (Navigating url), Called (Get url)]) WaitForBody")
  case None
  with assms have nav: "performs d (log @ [Printed (Navigating url)]) (Get url) = None"
    and "returned (reads d (log @ [Printed (Navigating url), Called (Get url),
                                     Called WaitForBody]) CurrentUrl)"
    by (simp_all add: page_opens_def)
  from returned_Inr [OF this(2)] obtain current where
    c: "reads d (log @ [Printed (Navigating url), Called (Get url), Called WaitForBody])
          CurrentUrl = Inr current"
    by blast
  show ?thesis
    by (simp add: detect_elements_def page_log_def then_do_def do_print_def do_call_def
        wait_for_body_def do_read_def nav None c value_of_def)
next
  case (Some e)
  with assms have nav: "performs d (log @ [Printed (Navigating url)]) (Get url) = None"
    and t: "exn_class e = TimeoutException"
    and "returned (reads d (log @ [Printed (Navigating url), Called (Get url),
                                     Called WaitForBody, Printed PageLoadTimeout]) CurrentUrl)"
    by (simp_all add: page_opens_def)
  from returned_Inr [OF this(3)] obtain current where
    c: "reads d (log @ [Printed (Navigating url), Called (Get url), Called WaitForBody,
                        Printed PageLoadTimeout]) CurrentUrl = Inr current"
    by blast
  show ?thesis
    by (simp add: detect_elements_def page_log_def then_do_def do_print_def do_call_def
        wait_for_body_def do_read_def nav Some t c value_of_def)
qed

lemma with_inventory_empty:
  "with_inventory [] (inventory d element_types log) = inventory d element_types log"
  by (simp add: with_inventory_def element_types_def Let_def)

lemma inventory_nth:
  "j < length types \<Longrightarrow> types ! j = (element_type, xpath) \<Longrightarrow>
     inventory d types log ! j =
       (element_type,
        node_records d element_type
          (found d (types_log d (take j types) log @ [Printed (LookingFor element_type)]) xpath)
          (types_log d (take j types) log @
             [Printed (LookingFor element_type), Called (FindElements xpath)]))"
proof (induction types arbitrary: j log)
  case Nil
  then show ?case by simp
next
  case (Cons entry types)
  obtain t x where entry: "entry = (t, x)"
    by (cases entry)
  show ?case
  proof (cases j)
    case 0
    with Cons.prems show ?thesis
      by (simp add: entry)
  next
    case (Suc i)
    with Cons.prems have "i < length types" "types ! i = (element_type, xpath)"
      by simp_all
    from Cons.IH [OF this] show ?thesis
      by (simp add: entry Suc)
  qed
qed

lemma inventory_types: "map fst (inventory d types log) = map fst types"
  by (induction types arbitrary: log) auto

text \<open>
  Claim C6, as amended.  A failure raised while the XPath of a node is computed is
  isolated; a failure raised while its attributes or its text are read is not.

  One node: when the reads of its attributes return, the node gets its record, whose
  \<open>xpath\<close> is what the script gives and null when the script raises.

  The whole scan: when the page opens, each query returns and the reads of the
  attributes of each node return when they are made, \<open>detect_elements\<close> visits every node
  of every element type and returns the inventory, the four element types in order
  with one record for each node found, in the order of discovery; the record at
  position \<open>n\<close> of a type is the record of the \<open>n\<close>-th node found, and its \<open>xpath\<close> is null
  when the script raised for that node.

  A failing read: when the \<open>k\<close>-th read of the attributes of the \<open>n\<close>-th node of the
  \<open>j\<close>-th element type raises, after everything before it has returned, the scan stops
  at that read: \<open>detect_elements\<close> prints the error and raises the exception again, and no
  later node or element type is scanned.
\<close>

theorem xpath_failure_is_isolated:
  "(list_all returned (results d log0 (node_reads d log0 element)) \<longrightarrow>
      extract_info d element_type element log0 =
        (log0 @ map Called (node_reads d log0 element @ [ExecuteScript GetXPathScript element]),
         Inr (node_record d element_type element log0)) \<and>
      map_of (node_record d element_type element log0) ''xpath'' =
        Some (case reads d (log0 @ map Called (node_reads d log0 element))
                     (ExecuteScript GetXPathScript element) of
                Inl e \<Rightarrow> None
              | Inr xpath \<Rightarrow> xpath)) \<and>
   (page_opens d url log \<and> scannable d element_types (page_log d url log) \<longrightarrow>
      detect_elements d url data log =
        (types_log d element_types (page_log d url log),
         Inr (with_inventory data (inventory d element_types (page_log d url log)))) \<and>
      with_inventory [] (inventory d element_types (page_log d url log)) =
        inventory d element_types (page_log d url log) \<and>
      map fst (inventory d element_types (page_log d url log)) =
        [''input'', ''button'', ''select'', ''link'']) \<and>
   (j < length element_types \<and> element_types ! j = (element_type, query) \<and>
    log_j = types_log d (take j element_types) (page_log d url log) \<and>
    found d (log_j @ [Printed (LookingFor element_type)]) query = elements \<and>
    n < length elements \<and>
    log_n = nodes_log d element_type (take n elements)
              (log_j @ [Printed (LookingFor element_type), Called (FindElements query)]) \<longrightarrow>
      fst (inventory d element_types (page_log d url log) ! j) = element_type \<and>
      length (snd (inventory d element_types (page_log d url log) ! j)) = length elements \<and>
      snd (inventory d element_types (page_log d url log) ! j) ! n =
        node_record d element_type (elements ! n) log_n \<and>
      (reads d (log_n @ map Called (node_reads d log_n (elements ! n)))
         (ExecuteScript GetXPathScript (elements ! n)) = Inl e \<longrightarrow>
       map_of (snd (inventory d element_types (page_log d url log) ! j) ! n) ''xpath'' =
         Some None)) \<and>
   (page_opens d url log \<and>
    j < length element_types \<and> element_types ! j = (element_type, query) \<and>
    scannable d (take j element_types) (page_log d url log) \<and>
    log_j = types_log d (take j element_types) (page_log d url log) \<and>
    finds d (log_j @ [Printed (LookingFor element_type)]) query = Inr elements \<and>
    n < length elements \<and>
    nodes_readable d element_type (take n elements)
      (log_j @ [Printed (LookingFor element_type), Called (FindElements query)]) \<and>
    log_n = nodes_log d element_type (take n elements)
              (log_j @ [Printed (LookingFor element_type), Called (FindElements query)]) \<and>
    k < length (node_reads d log_n (elements ! n)) \<and>
    list_all returned (take k (results d log_n (node_reads d log_n (elements ! n)))) \<and>
    results d log_n (node_reads d log_n (elements ! n)) ! k = Inl e \<longrightarrow>
      detect_elements d url data log =
        (log_n @ map Called (take (Suc k) (node_reads d log_n (elements ! n))) @
           [Printed (DetectionError (str_exn e))],
         Inl e))"
proof -
  have one: "list_all returned (results d log0 (node_reads d log0 element)) \<longrightarrow>
      extract_info d element_type element log0 =
        (log0 @ map Called (node_reads d log0 element @ [ExecuteScript GetXPathScript element]),
         Inr (node_record d element_type element log0)) \<and>
      map_of (node_record d element_type element log0) ''xpath'' =
        Some (case reads d (log0 @ map Called (node_reads d log0 element))
                     (ExecuteScript GetXPathScript element) of
                Inl e \<Rightarrow> None
              | Inr xpath \<Rightarrow> xpath)"
  proof (rule impI, rule conjI)
    assume "list_all returned (results d log0 (node_reads d log0 element))"
    then show "extract_info d element_type element log0 =
        (log0 @ map Called (node_reads d log0 element @ [ExecuteScript GetXPathScript element]),
         Inr (node_record d element_type element log0))"
      by (rule extract_info_readable)
    show "map_of (node_record d element_type element log0) ''xpath'' =
        Some (case reads d (log0 @ map Called (node_reads d log0 element))
                     (ExecuteScript GetXPathScript element) of
                Inl e \<Rightarrow> None
              | Inr xpath \<Rightarrow> xpath)"
      unfolding node_record_xpath value_of_def by (rule refl)
  qed
  have whole: "page_opens d url log \<and> scannable d element_types (page_log d url log) \<longrightarrow>
      detect_elements d url data log =
        (types_log d element_types (page_log d url log),
         Inr (with_inventory data (inventory d element_types (page_log d url log)))) \<and>
      with_inventory [] (inventory d element_types (page_log d url log)) =
        inventory d element_types (page_log d url log) \<and>
      map fst (inventory d element_types (page_log d url log)) =
        [''input'', ''button'', ''select'', ''link'']"
  proof (rule impI, intro conjI)
    assume h: "page_opens d url log \<and> scannable d element_types (page_log d url log)"
    show "detect_elements d url data log =
        (types_log d element_types (page_log d url log),
         Inr (with_inventory data (inventory d element_types (page_log d url log))))"
      unfolding detect_elements_by_scan [OF conjunct1 [OF h]]
        scan_types_scannable [OF conjunct2 [OF h]]
      by simp
    show "with_inventory [] (inventory d element_types (page_log d url log)) =
        inventory d element_types (page_log d url log)"
      by (rule with_inventory_empty)
    show "map fst (inventory d element_types (page_log d url log)) =
        [''input'', ''button'', ''select'', ''link'']"
      unfolding inventory_types by (simp add: element_types_def)
  qed
  have node: "j < length element_types \<and> element_types ! j = (element_type, query) \<and>
    log_j = types_log d (take j element_types) (page_log d url log) \<and>
    found d (log_j @ [Printed (LookingFor element_type)]) query = elements \<and>
    n < length elements \<and>
    log_n = nodes_log d element_type (take n elements)
              (log_j @ [Printed (LookingFor element_type), Called (FindElements query)]) \<longrightarrow>
      fst (inventory d element_types (page_log d url log) ! j) = element_type \<and>
      length (snd (inventory d element_types (page_log d url log) ! j)) = length elements \<and>
      snd (inventory d element_types (page_log d url log) ! j) ! n =
        node_record d element_type (elements ! n) log_n \<and>
      (reads d (log_n @ map Called (node_reads d log_n (elements ! n)))
         (ExecuteScript GetXPathScript (elements ! n)) = Inl e \<longrightarrow>
       map_of (snd (inventory d element_types (page_log d url log) ! j) ! n) ''xpath'' =
         Some None)"
  proof (rule impI)
    assume h: "j < length element_types \<and> element_types ! j = (element_type, query) \<and>
      log_j = types_log d (take j element_types) (page_log d url log) \<and>
      found d (log_j @ [Printed (LookingFor element_type)]) query = elements \<and>
      n < length elements \<and>
      log_n = nodes_log d element_type (take n elements)
                (log_j @ [Printed (LookingFor element_type), Called (FindElements query)])"
    note j = conjunct1 [OF h]
    note entry = conjunct1 [OF conjunct2 [OF h]]
    note log_j = conjunct1 [OF conjunct2 [OF conjunct2 [OF h]]]
    note elements = conjunct1 [OF conjunct2 [OF conjunct2 [OF conjunct2 [OF h]]]]
    note n = conjunct1 [OF conjunct2 [OF conjunct2 [OF conjunct2 [OF conjunct2 [OF h]]]]]
    note log_n = conjunct2 [OF conjunct2 [OF conjunct2 [OF conjunct2 [OF conjunct2 [OF h]]]]]
    have i: "inventory d element_types (page_log d url log) ! j =
        (element_type,
         node_records d element_type elements
           (log_j @ [Printed (LookingFor element_type), Called (FindElements query)]))"
      unfolding inventory_nth [OF j entry] log_j [symmetric] elements by (rule refl)
    have r: "snd (inventory d element_types (page_log d url log) ! j) ! n =
        node_record d element_type (elements ! n) log_n"
      unfolding i snd_conv node_records_nth [OF n] log_n by (rule refl)
    show "fst (inventory d element_types (page_log d url log) ! j) = element_type \<and>
      length (snd (inventory d element_types (page_log d url log) ! j)) = length elements \<and>
      snd (inventory d element_types (page_log d url log) ! j) ! n =
        node_record d element_type (elements ! n) log_n \<and>
      (reads d (log_n @ map Called (node_reads d log_n (elements ! n)))
         (ExecuteScript GetXPathScript (elements ! n)) = Inl e \<longrightarrow>
       map_of (snd (inventory d element_types (page_log d url log) ! j) ! n) ''xpath'' =
         Some None)"
    proof (intro conjI impI)
      show "fst (inventory d element_types (page_log d url log) ! j) = element_type"
        unfolding i by simp
      show "length (snd (inventory d element_types (page_log d url log) ! j)) = length elements"
        unfolding i by (simp add: length_node_records)
      show "snd (inventory d element_types (page_log d url log) ! j) ! n =
          node_record d element_type (elements ! n) log_n"
        by (rule r)
      assume "reads d (log_n @ map Called (node_reads d log_n (elements ! n)))
         (ExecuteScript GetXPathScript (elements ! n)) = Inl e"
      then show "map_of (snd (inventory d element_types (page_log d url log) ! j) ! n) ''xpath'' =
          Some None"
        unfolding r by (rule node_record_xpath_null)
    qed
  qed
  have failing: "page_opens d url log \<and>
    j < length element_types \<and> element_types ! j = (element_type, query) \<and>
    scannable d (take j element_types) (page_log d url log) \<and>
    log_j = types_log d (take j element_types) (page_log d url log) \<and>
    finds d (log_j @ [Printed (LookingFor element_type)]) query = Inr elements \<and>
    n < length elements \<and>
    nodes_readable d element_type (take n elements)
      (log_j @ [Printed (LookingFor element_type), Called (FindElements query)]) \<and>
    log_n = nodes_log d element_type (take n elements)
              (log_j @ [Printed (LookingFor element_type), Called (FindElements query)]) \<and>
    k < length (node_reads d log_n (elements ! n)) \<and>
    list_all returned (take k (results d log_n (node_reads d log_n (elements ! n)))) \<and>
    results d log_n (node_reads d log_n (elements ! n)) ! k = Inl e \<longrightarrow>
      detect_elements d url data log =
        (log_n @ map Called (take (Suc k) (node_reads d log_n (elements ! n))) @
           [Printed (DetectionError (str_exn e))],
         Inl e)"
  proof (rule impI, elim conjE)
    assume opens: "page_opens d url log"
      and j: "j < length element_types"
      and entry: "element_types ! j = (element_type, query)"
      and types_before: "scannable d (take j element_types) (page_log d url log)"
      and log_j: "log_j = types_log d (take j element_types) (page_log d url log)"
      and finds: "finds d (log_j @ [Printed (LookingFor element_type)]) query = Inr elements"
      and n: "n < length elements"
      and nodes_before: "nodes_readable d element_type (take n elements)
          (log_j @ [Printed (LookingFor element_type), Called (FindElements query)])"
      and log_n: "log_n = nodes_log d element_type (take n elements)
          (log_j @ [Printed (LookingFor element_type), Called (FindElements query)])"
      and k: "k < length (node_reads d log_n (elements ! n))"
      and earlier: "list_all returned
          (take k (results d log_n (node_reads d log_n (elements ! n))))"
      and raises: "results d log_n (node_reads d log_n (elements ! n)) ! k = Inl e"
    show "detect_elements d url data log =
        (log_n @ map Called (take (Suc k) (node_reads d log_n (elements ! n))) @
           [Printed (DetectionError (str_exn e))],
         Inl e)"
      unfolding detect_elements_by_scan [OF opens]
        scan_types_read_raises [OF j types_before entry log_j finds n log_n nodes_before k
          earlier raises]
      by simp
  qed
  from one whole node failing show ?thesis
    by (intro conjI)
qed

theorem xpath_failure_is_isolated_witness:
  "extract_info patchy_driver ''input'' 0 [] =
     ([Called (GetAttribute 0 ''id''), Called (GetAttribute 0 ''name''),
       Called (GetAttribute 0 ''class''), Called (GetText 0),
       Called (GetAttribute 0 ''value''), Called (ExecuteScript GetXPathScript 0)],
      Inr [(''type'', Some ''input''), (''id'', None), (''name'', None),
           (''class'', None), (''text'', Some ''5''), (''xpath'', None)]) \<and>
   detect_elements patchy_driver ''https://example.org'' [] [] =
     ([Printed (Navigating ''https://example.org''),
       Called (Get ''https://example.org''), Called WaitForBody,
       Printed PageLoadTimeout, Called CurrentUrl,
       Printed (CurrentUrlIs (Some ''https://example.org'')),
       Printed (LookingFor ''input''), Called (FindElements ''//input''),
       Called (GetAttribute 0 ''id''), Called (GetAttribute 0 ''name''),
       Called (GetAttribute 0 ''class''), Called (GetText 0),
       Called (GetAttribute 0 ''value''),
       Called (ExecuteScript GetXPathScript 0),
       Printed
        (Found ''input''
          [(''type'', Some ''input''), (''id'', None), (''name'', None),
           (''class'', None), (''text'', Some ''5''), (''xpath'', None)]),
       Called (GetAttribute 1 ''id''), Called (GetAttribute 1 ''name''),
       Called (GetAttribute 1 ''class''), Called (GetText 1),
       Called (GetAttribute 1 ''value''),
       Called (ExecuteScript GetXPathScript 1),
       Printed
        (Found ''input''
          [(''type'', Some ''input''), (''id'', None), (''name'', None),
           (''class'', None), (''text'', Some ''5''),
           (''xpath'', Some ''body/input[2]'')]),
       Printed (LookingFor ''button''), Called (FindElements ''//button''),
       Printed (LookingFor ''select''), Called (FindElements ''//select''),
       Printed (LookingFor ''link''), Called (FindElements ''//a''),
       Called (GetAttribute 2 ''id''), Called (GetAttribute 2 ''name''),
       Called (GetAttribute 2 ''class''), Called (GetText 2),
       Called (GetText 2), Called (ExecuteScript GetXPathScript 2),
       Printed
        (Found ''link''
          [(''type'', Some ''link''), (''id'', None), (''name'', None),
           (''class'', None), (''text'', Some ''Home''),
           (''xpath'', Some ''body/a[1]'')])],
      Inr [(''input'',
            [[(''type'', Some ''input''), (''id'', None), (''name'', None),
              (''class'', None), (''text'', Some ''5''), (''xpath'', None)],
             [(''type'', Some ''input''), (''id'', None), (''name'', None),
              (''class'', None), (''text'', Some ''5''),
              (''xpath'', Some ''body/input[2]'')]]),
           (''button'', []), (''select'', []),
           (''link'',
            [[(''type'', Some ''link''), (''id'', None), (''name'', None),
              (''class'', None), (''text'', Some ''Home''),
              (''xpath'', Some ''body/a[1]'')]])]) \<and>
   map_of (snd (inventory patchy_driver element_types
                  (page_log patchy_driver ''https://example.org'' []) ! 0) ! 0) ''xpath'' =
     Some None \<and>
   detect_elements fading_driver ''https://example.org'' [] [] =
     ([Printed (Navigating ''https://example.org''),
       Called (Get ''https://example.org''), Called WaitForBody,
       Printed PageLoadTimeout, Called CurrentUrl,
       Printed (CurrentUrlIs (Some ''https://example.org'')),
       Printed (LookingFor ''input''), Called (FindElements ''//input''),
       Called (GetAttribute 0 ''id''), Called (GetAttribute 0 ''name''),
       Called (GetAttribute 0 ''class''), Called (GetText 0),
       Called (GetAttribute 0 ''value''),
       Called (ExecuteScript GetXPathScript 0),
       Printed
        (Found ''input''
          [(''type'', Some ''input''), (''id'', None), (''name'', None),
           (''class'', None), (''text'', Some ''5''), (''xpath'', None)]),
       Called (GetAttribute 1 ''id''), Called (GetAttribute 1 ''name''),
       Called (GetAttribute 1 ''class''), Called (GetText 1),
       Called (GetAttribute 1 ''value''),
       Printed (DetectionError ''Message: stale element reference'')],
      Inl (Exn WebDriverException ''Message: stale element reference''))"
proof -
  let ?url = "''https://example.org''"
  let ?page = "page_log patchy_driver ?url []"
  let ?e = "Exn JavascriptException ''Message: javascript error''"
  let ?stale = "Exn WebDriverException ''Message: stale element reference''"
  let ?log_j = "types_log fading_driver (take 0 element_types) (page_log fading_driver ?url [])"
  let ?log_n = "nodes_log fading_driver ''input'' (take 1 [0, 1])
      (?log_j @ [Printed (LookingFor ''input''), Called (FindElements ''//input'')])"
  note patchy = xpath_failure_is_isolated [where d = patchy_driver and ?log0.0 = "[]"
      and element = 0 and element_type = "''input''" and url = ?url and log = "[]"
      and data = "[]" and j = 0 and query = "''//input''"
      and log_j = "types_log patchy_driver (take 0 element_types) ?page"
      and elements = "[0, 1]" and n = 0
      and log_n = "nodes_log patchy_driver ''input'' (take 0 [0, 1])
          (types_log patchy_driver (take 0 element_types) ?page @
           [Printed (LookingFor ''input''), Called (FindElements ''//input'')])"
      and e = ?e]
  note fading = xpath_failure_is_isolated [where d = fading_driver and element_type = "''input''"
      and url = ?url and log = "[]" and data = "[]" and j = 0 and query = "''//input''"
      and log_j = ?log_j and elements = "[0, 1]" and n = 1 and log_n = ?log_n and k = 4
      and e = ?stale]
  have h1: "list_all returned (results patchy_driver [] (node_reads patchy_driver [] 0))"
    by code_simp
  have h2: "page_opens patchy_driver ?url [] \<and> scannable patchy_driver element_types ?page"
    by code_simp
  have h3: "0 < length element_types \<and> element_types ! 0 = (''input'', ''//input'') \<and>
      types_log patchy_driver (take 0 element_types) ?page =
        types_log patchy_driver (take 0 element_types) ?page \<and>
      found patchy_driver
        (types_log patchy_driver (take 0 element_types) ?page @ [Printed (LookingFor ''input'')])
        ''//input'' = [0, 1] \<and>
      0 < length [0, 1 :: nat] \<and>
      nodes_log patchy_driver ''input'' (take 0 [0, 1])
          (types_log patchy_driver (take 0 element_types) ?page @
           [Printed (LookingFor ''input''), Called (FindElements ''//input'')]) =
      nodes_log patchy_driver ''input'' (take 0 [0, 1])
          (types_log patchy_driver (take 0 element_types) ?page @
           [Printed (LookingFor ''input''), Called (FindElements ''//input'')])"
    by (simp add: element_types_def found_def patchy_driver_def)
  have h3e: "reads patchy_driver
      (nodes_log patchy_driver ''input'' (take 0 [0, 1])
          (types_log patchy_driver (take 0 element_types) ?page @
           [Printed (LookingFor ''input''), Called (FindElements ''//input'')]) @
       map Called (node_reads patchy_driver
         (nodes_log patchy_driver ''input'' (take 0 [0, 1])
          (types_log patchy_driver (take 0 element_types) ?page @
           [Printed (LookingFor ''input''), Called (FindElements ''//input'')]))
         ([0, 1] ! 0)))
      (ExecuteScript GetXPathScript ([0, 1] ! 0)) = Inl ?e"
    by (simp add: patchy_driver_def)
  have h4: "page_opens fading_driver ?url [] \<and>
      0 < length element_types \<and> element_types ! 0 = (''input'', ''//input'') \<and>
      scannable fading_driver (take 0 element_types) (page_log fading_driver ?url []) \<and>
      ?log_j = ?log_j \<and>
      finds fading_driver (?log_j @ [Printed (LookingFor ''input'')]) ''//input'' = Inr [0, 1] \<and>
      1 < length [0, 1 :: nat] \<and>
      nodes_readable fading_driver ''input'' (take 1 [0, 1])
        (?log_j @ [Printed (LookingFor ''input''), Called (FindElements ''//input'')]) \<and>
      ?log_n = ?log_n \<and>
      4 < length (node_reads fading_driver ?log_n ([0, 1] ! 1)) \<and>
      list_all returned
        (take 4 (results fading_driver ?log_n (node_reads fading_driver ?log_n ([0, 1] ! 1)))) \<and>
      results fading_driver ?log_n (node_reads fading_driver ?log_n ([0, 1] ! 1)) ! 4 =
        Inl ?stale"
    by code_simp
  have first: "extract_info patchy_driver ''input'' 0 [] =
      ([] @ map Called (node_reads patchy_driver [] 0 @ [ExecuteScript GetXPathScript 0]),
       Inr (node_record patchy_driver ''input'' 0 []))"
    by (rule conjunct1 [OF mp [OF conjunct1 [OF patchy] h1]])
  have second: "detect_elements patchy_driver ?url [] [] =
      (types_log patchy_driver element_types ?page,
       Inr (with_inventory [] (inventory patchy_driver element_types ?page)))"
    by (rule conjunct1 [OF mp [OF conjunct1 [OF conjunct2 [OF patchy]] h2]])
  have third: "map_of (snd (inventory patchy_driver element_types ?page ! 0) ! 0) ''xpath'' =
      Some None"
    by (rule mp [OF conjunct2 [OF conjunct2 [OF conjunct2
          [OF mp [OF conjunct1 [OF conjunct2 [OF conjunct2 [OF patchy]]] h3]]]] h3e])
  have fourth: "detect_elements fading_driver ?url [] [] =
      (?log_n @ map Called (take (Suc 4) (node_reads fading_driver ?log_n ([0, 1] ! 1))) @
         [Printed (DetectionError (str_exn ?stale))],
       Inl ?stale)"
    by (rule mp [OF conjunct2 [OF conjunct2 [OF conjunct2 [OF fading]]] h4])
  have v1: "[] @ map Called (node_reads patchy_driver [] 0 @ [ExecuteScript GetXPathScript 0]) =
      [Called (GetAttribute 0 ''id''), Called (GetAttribute 0 ''name''),
       Called (GetAttribute 0 ''class''), Called (GetText 0),
       Called (GetAttribute 0 ''value''), Called (ExecuteScript GetXPathScript 0)]"
    by code_simp
  have v2: "node_record patchy_driver ''input'' 0 [] =
      [(''type'', Some ''input''), (''id'', None), (''name'', None),
       (''class'', None), (''text'', Some ''5''), (''xpath'', None)]"
    by code_simp
  have v3: "types_log patchy_driver element_types ?page =
      [Printed (Navigating ''https://example.org''),
       Called (Get ''https://example.org''), Called WaitForBody,
       Printed PageLoadTimeout, Called CurrentUrl,
       Printed (CurrentUrlIs (Some ''https://example.org'')),
       Printed (LookingFor ''input''), Called (FindElements ''//input''),
       Called (GetAttribute 0 ''id''), Called (GetAttribute 0 ''name''),
       Called (GetAttribute 0 ''class''), Called (GetText 0),
       Called (GetAttribute 0 ''value''),
       Called (ExecuteScript GetXPathScript 0),
       Printed
        (Found ''input''
          [(''type'', Some ''input''), (''id'', None), (''name'', None),
           (''class'', None), (''text'', Some ''5''), (''xpath'', None)]),
       Called (GetAttribute 1 ''id''), Called (GetAttribute 1 ''name''),
       Called (GetAttribute 1 ''class''), Called (GetText 1),
       Called (GetAttribute 1 ''value''),
       Called (ExecuteScript GetXPathScript 1),
       Printed
        (Found ''input''
          [(''type'', Some ''input''), (''id'', None), (''name'', None),
           (''class'', None), (''text'', Some ''5''),
           (''xpath'', Some ''body/input[2]'')]),
       Printed (LookingFor ''button''), Called (FindElements ''//button''),
       Printed (LookingFor ''select''), Called (FindElements ''//select''),
       Printed (LookingFor ''link''), Called (FindElements ''//a''),
       Called (GetAttribute 2 ''id''), Called (GetAttribute 2 ''name''),
       Called (GetAttribute 2 ''class''), Called (GetText 2),
       Called (GetText 2), Called (ExecuteScript GetXPathScript 2),
       Printed
        (Found ''link''
          [(''type'', Some ''link''), (''id'', None), (''name'', None),
           (''class'', None), (''text'', Some ''Home''),
           (''xpath'', Some ''body/a[1]'')])]"
    by code_simp
  have v4: "with_inventory [] (inventory patchy_driver element_types ?page) =
      [(''input'',
            [[(''type'', Some ''input''), (''id'', None), (''name'', None),
              (''class'', None), (''text'', Some ''5''), (''xpath'', None)],
             [(''type'', Some ''input''), (''id'', None), (''name'', None),
              (''class'', None), (''text'', Some ''5''),
              (''xpath'', Some ''body/input[2]'')]]),
           (''button'', []), (''select'', []),
           (''link'',
            [[(''type'', Some ''link''), (''id'', None), (''name'', None),
              (''class'', None), (''text'', Some ''Home''),
              (''xpath'', Some ''body/a[1]'')]])]"
    by code_simp
  have v5: "?log_n @ map Called (take (Suc 4) (node_reads fading_driver ?log_n ([0, 1] ! 1))) @
         [Printed (DetectionError (str_exn ?stale))] =
      [Printed (Navigating ''https://example.org''),
       Called (Get ''https://example.org''), Called WaitForBody,
       Printed PageLoadTimeout, Called CurrentUrl,
       Printed (CurrentUrlIs (Some ''https://example.org'')),
       Printed (LookingFor ''input''), Called (FindElements ''//input''),
       Called (GetAttribute 0 ''id''), Called (GetAttribute 0 ''name''),
       Called (GetAttribute 0 ''class''), Called (GetText 0),
       Called (GetAttribute 0 ''value''),
       Called (ExecuteScript GetXPathScript 0),
       Printed
        (Found ''input''
          [(''type'', Some ''input''), (''id'', None), (''name'', None),
           (''class'', None), (''text'', Some ''5''), (''xpath'', None)]),
       Called (GetAttribute 1 ''id''), Called (GetAttribute 1 ''name''),
       Called (GetAttribute 1 ''class''), Called (GetText 1),
       Called (GetAttribute 1 ''value''),
       Printed (DetectionError ''Message: stale element reference'')]"
    by code_simp
  show ?thesis
    unfolding first second fourth v1 v2 v3 v4 v5
    using third by (intro conjI refl)
qed

lemma stale_driver_simps:
  "performs stale_driver log c = None"
  "finds stale_driver log ''//input'' = Inr [0, 1]"
  "reads stale_driver log CurrentUrl = Inr (Some ''https://example.org'')"
  "reads stale_driver log (GetAttribute element name) =
     Inl (Exn WebDriverException ''Message: stale element reference'')"
  by (simp_all add: stale_driver_def obliging_driver_def)

text \<open>
  The claim as it is written fails: when reading an attribute of the first input
  element raises, the scan is aborted and the exception is raised again; the second
  input element and the other element types are not scanned.  A query or a navigation
  that raises ends the detection in the same way.
\<close>

theorem attribute_failure_aborts_scan:
  "detect_elements stale_driver ''https://example.org'' [] [] =
     ([Printed (Navigating ''https://example.org''), Called (Get ''https://example.org''),
       Called WaitForBody, Called CurrentUrl,
       Printed (CurrentUrlIs (Some ''https://example.org'')),
       Printed (LookingFor ''input''), Called (FindElements ''//input''),
       Called (GetAttribute 0 ''id''),
       Printed (DetectionError ''Message: stale element reference'')],
      Inl (Exn WebDriverException ''Message: stale element reference'')) \<and>
   detect_elements deaf_driver ''https://example.org'' [] [] =
     ([Printed (Navigating ''https://example.org''), Called (Get ''https://example.org''),
       Called WaitForBody, Called CurrentUrl, Printed (CurrentUrlIs None),
       Printed (LookingFor ''input''), Called (FindElements ''//input''),
       Printed (DetectionError ''Message: invalid session id'')],
      Inl (Exn WebDriverException ''Message: invalid session id'')) \<and>
   detect_elements offline_driver ''https://example.org'' [] [] =
     ([Printed (Navigating ''https://example.org''), Called (Get ''https://example.org''),
       Printed (DetectionError ''Message: unknown error'')],
      Inl (Exn WebDriverException ''Message: unknown error''))"
proof (intro conjI)
  show "detect_elements stale_driver ''https://example.org'' [] [] =
     ([Printed (Navigating ''https://example.org''), Called (Get ''https://example.org''),
       Called WaitForBody, Called CurrentUrl,
       Printed (CurrentUrlIs (Some ''https://example.org'')),
       Printed (LookingFor ''input''), Called (FindElements ''//input''),
       Called (GetAttribute 0 ''id''),
       Printed (DetectionError ''Message: stale element reference'')],
      Inl (Exn WebDriverException ''Message: stale element reference''))"
    by (simp add: detect_elements_def then_do_def do_print_def do_call_def do_read_def
        do_find_def wait_for_body_def element_types_def extract_info_def stale_driver_simps)
  show "detect_elements deaf_driver ''https://example.org'' [] [] =
     ([Printed (Navigating ''https://example.org''), Called (Get ''https://example.org''),
       Called WaitForBody, Called CurrentUrl, Printed (CurrentUrlIs None),
       Printed (LookingFor ''input''), Called (FindElements ''//input''),
       Printed (DetectionError ''Message: invalid session id'')],
      Inl (Exn WebDriverException ''Message: invalid session id''))"
    by (simp add: detect_elements_def then_do_def do_print_def do_call_def do_read_def
        do_find_def wait_for_body_def element_types_def deaf_driver_def obliging_driver_def)
  show "detect_elements offline_driver ''https://example.org'' [] [] =
     ([Printed (Navigating ''https://example.org''), Called (Get ''https://example.org''),
       Printed (DetectionError ''Message: unknown error'')],
      Inl (Exn WebDriverException ''Message: unknown error''))"
    by (simp add: detect_elements_def then_do_def do_print_def do_call_def
        offline_driver_def obliging_driver_def)
qed

end
